theory Spec2Isabelle
  imports Main
begin

section \<open>The element type, storage slots and the outcome of a call\<close>

text \<open>
  \<^verbatim>\<open>vector.h\<close> defines \<^verbatim>\<open>RawMemory<T>\<close> (a block of uninitialized storage) and
  \<^verbatim>\<open>Vector<T>\<close> on top of it. The embedding keeps both layers.

  A block is a list of slots: \<open>Raw\<close> is uninitialized storage (never constructed, or
  already destroyed), \<open>Obj x\<close> is a live object of type \<^verbatim>\<open>T\<close> with value \<open>x\<close>. A pointer
  into a block is an offset. The null pointer is the empty block. \<^verbatim>\<open>size_t\<close> is \<open>nat\<close>:
  the only arithmetic that could wrap is \<^verbatim>\<open>size_ * 2\<close> at \<open>2^63\<close> elements, which no
  allocation reaches, and \<^verbatim>\<open>size_ - 1\<close> at \<open>size_ = 0\<close>, which is written out where it
  occurs. The members \<^verbatim>\<open>buffer_\<close>, \<^verbatim>\<open>capacity_\<close>, \<^verbatim>\<open>data_\<close> and \<^verbatim>\<open>size_\<close> are the
  fields \<open>buffer_m\<close>, \<open>capacity_m\<close>, \<open>data_m\<close> and \<open>size_m\<close>.

  A call returns, throws (\<^verbatim>\<open>std::bad_alloc\<close> from \<^verbatim>\<open>operator new\<close>, or whatever an
  operation of \<^verbatim>\<open>T\<close> throws), or breaks a contract (a failed \<^verbatim>\<open>assert\<close>, a read of
  uninitialized storage, an access outside the block).
\<close>

datatype exception = bad_alloc | element_exception

datatype 'r outcome = Returned 'r | Thrown exception | Violated

datatype 'a slot = Raw | Obj 'a

text \<open>
  The element type \<^verbatim>\<open>T\<close> and the allocator are parameters. The two type traits that
  \<^verbatim>\<open>CopyOrMove\<close> tests are fields. Every operation that can throw consults a state
  \<open>'w\<close> of the surroundings (a fault counter, the free memory, a static of \<^verbatim>\<open>T\<close>) and
  answers whether it succeeds, with the next state. On success a copy has the
  value of its source, a move carries the value over and leaves \<open>moved_from x\<close> in the
  source, and value-initialization gives \<open>value_init\<close>. An operation that throws leaves its
  operands as they were. Destructors do not throw.
\<close>

record ('a, 'w) element_type =
  nothrow_move_constructible :: bool
  copy_constructible :: bool
  value_init :: 'a
  moved_from :: "'a \<Rightarrow> 'a"
  alloc_ok :: "nat \<Rightarrow> 'w \<Rightarrow> bool \<times> 'w"
  value_ctor_ok :: "'w \<Rightarrow> bool \<times> 'w"
  args_ctor_ok :: "'a \<Rightarrow> 'w \<Rightarrow> bool \<times> 'w"
  copy_ctor_ok :: "'a \<Rightarrow> 'w \<Rightarrow> bool \<times> 'w"
  move_ctor_ok :: "'a \<Rightarrow> 'w \<Rightarrow> bool \<times> 'w"
  copy_assign_ok :: "'a \<Rightarrow> 'a \<Rightarrow> 'w \<Rightarrow> bool \<times> 'w"
  move_assign_ok :: "'a \<Rightarrow> 'a \<Rightarrow> 'w \<Rightarrow> bool \<times> 'w"

text \<open>
  The state threaded through every call: the surroundings, and the blocks handed to
  \<^verbatim>\<open>operator delete\<close> so far, each as it was at that moment (a live object in a freed
  block is an object whose destructor never ran).
\<close>

record ('a, 'w) machine =
  world :: 'w
  freed :: "'a slot list list"

definition call :: "('w \<Rightarrow> bool \<times> 'w) \<Rightarrow> ('a, 'w) machine \<Rightarrow> bool \<times> ('a, 'w) machine" where
  "call f s = (case f (world s) of (ok, w) \<Rightarrow> (ok, s\<lparr>world := w\<rparr>))"

text \<open>
  The arguments forwarded to a constructor of \<^verbatim>\<open>T\<close>: \<^verbatim>\<open>const T&\<close> selects the copy
  constructor, \<^verbatim>\<open>T&&\<close> the move constructor, anything else another constructor; the value
  is the one the new object gets.
\<close>

datatype 'a args = ByCopy 'a | ByMove 'a | ByArgs 'a

fun arg_value :: "'a args \<Rightarrow> 'a" where
  "arg_value (ByCopy x) = x"
| "arg_value (ByMove x) = x"
| "arg_value (ByArgs x) = x"

fun T_ctor :: "('a, 'w) element_type \<Rightarrow> 'a args \<Rightarrow> 'w \<Rightarrow> bool \<times> 'w" where
  "T_ctor T (ByCopy x) = copy_ctor_ok T x"
| "T_ctor T (ByMove x) = move_ctor_ok T x"
| "T_ctor T (ByArgs x) = args_ctor_ok T x"

definition obj_at :: "'a slot list \<Rightarrow> nat \<Rightarrow> 'a option" where
  "obj_at blk i = (if i < length blk then (case blk ! i of Obj x \<Rightarrow> Some x | Raw \<Rightarrow> None) else None)"

fun failure :: "'r outcome \<Rightarrow> 'q outcome" where
  "failure (Thrown e) = Thrown e"
| "failure _ = Violated"

section \<open>The standard algorithms the container calls\<close>

text \<open>\<^verbatim>\<open>new (p) T(args...)\<close>: placement construction at offset \<open>p\<close> of a block.\<close>

definition placement_new ::
  "('a, 'w) element_type \<Rightarrow> 'a slot list \<Rightarrow> nat \<Rightarrow> 'a args \<Rightarrow> ('a, 'w) machine
    \<Rightarrow> unit outcome \<times> 'a slot list \<times> ('a, 'w) machine" where
  "placement_new T blk p a s =
     (if \<not> p < length blk then (Violated, blk, s)
      else case call (T_ctor T a) s of
        (ok, s1) \<Rightarrow>
          if ok then (Returned (), blk[p := Obj (arg_value a)], s1)
          else (Thrown element_exception, blk, s1))"

text \<open>\<^verbatim>\<open>std::destroy_n(first, n)\<close> and \<^verbatim>\<open>std::destroy_at(p)\<close> / \<^verbatim>\<open>p->~T()\<close>.\<close>

definition destroy_at :: "'a slot list \<Rightarrow> nat \<Rightarrow> 'a slot list" where
  "destroy_at blk p = blk[p := Raw]"

fun destroy_n :: "'a slot list \<Rightarrow> nat \<Rightarrow> nat \<Rightarrow> 'a slot list" where
  "destroy_n blk first 0 = blk"
| "destroy_n blk first (Suc n) = destroy_n (destroy_at blk first) (Suc first) n"

text \<open>
  \<^verbatim>\<open>std::uninitialized_copy_n(first, n, d_first)\<close>: copy-constructs \<open>n\<close> objects; when a
  constructor throws, the objects already constructed are destroyed and the exception goes
  on (here: on the way back out of the recursion).
\<close>

fun uninitialized_copy_n ::
  "('a, 'w) element_type \<Rightarrow> 'a slot list \<Rightarrow> nat \<Rightarrow> nat \<Rightarrow> 'a slot list \<Rightarrow> nat \<Rightarrow> ('a, 'w) machine
    \<Rightarrow> unit outcome \<times> 'a slot list \<times> ('a, 'w) machine" where
  "uninitialized_copy_n T src first 0 dst d s = (Returned (), dst, s)"
| "uninitialized_copy_n T src first (Suc n) dst d s =
     (case obj_at src first of
        None \<Rightarrow> (Violated, dst, s)
      | Some x \<Rightarrow>
          (case placement_new T dst d (ByCopy x) s of
             (Returned u, dst1, s1) \<Rightarrow>
               (case uninitialized_copy_n T src (Suc first) n dst1 (Suc d) s1 of
                  (Returned u', dst2, s2) \<Rightarrow> (Returned (), dst2, s2)
                | (r, dst2, s2) \<Rightarrow> (r, destroy_at dst2 d, s2))
           | (r, dst1, s1) \<Rightarrow> (r, dst1, s1)))"

text \<open>
  \<^verbatim>\<open>std::uninitialized_move_n(first, n, d_first)\<close>: the same with the move constructor;
  every source object that was moved is left in its moved-from state.
\<close>

fun uninitialized_move_n ::
  "('a, 'w) element_type \<Rightarrow> 'a slot list \<Rightarrow> nat \<Rightarrow> nat \<Rightarrow> 'a slot list \<Rightarrow> nat \<Rightarrow> ('a, 'w) machine
    \<Rightarrow> unit outcome \<times> 'a slot list \<times> 'a slot list \<times> ('a, 'w) machine" where
  "uninitialized_move_n T src first 0 dst d s = (Returned (), src, dst, s)"
| "uninitialized_move_n T src first (Suc n) dst d s =
     (case obj_at src first of
        None \<Rightarrow> (Violated, src, dst, s)
      | Some x \<Rightarrow>
          (case placement_new T dst d (ByMove x) s of
             (Returned u, dst1, s1) \<Rightarrow>
               (case uninitialized_move_n T (src[first := Obj (moved_from T x)]) (Suc first) n dst1 (Suc d) s1 of
                  (Returned u', src2, dst2, s2) \<Rightarrow> (Returned (), src2, dst2, s2)
                | (r, src2, dst2, s2) \<Rightarrow> (r, src2, destroy_at dst2 d, s2))
           | (r, dst1, s1) \<Rightarrow> (r, src, dst1, s1)))"


text \<open>
  \<^verbatim>\<open>std::copy_n(first, n, d_first)\<close>: copy-assigns \<open>n\<close> objects onto live objects and
  returns the end of the destination; nothing is undone when an assignment throws.
\<close>

fun copy_n ::
  "('a, 'w) element_type \<Rightarrow> 'a slot list \<Rightarrow> nat \<Rightarrow> nat \<Rightarrow> 'a slot list \<Rightarrow> nat \<Rightarrow> ('a, 'w) machine
    \<Rightarrow> nat outcome \<times> 'a slot list \<times> ('a, 'w) machine" where
  "copy_n T src first 0 dst d s = (Returned d, dst, s)"
| "copy_n T src first (Suc n) dst d s =
     (case (obj_at src first, obj_at dst d) of
        (Some x, Some y) \<Rightarrow>
          (case call (copy_assign_ok T y x) s of
             (ok, s1) \<Rightarrow>
               if ok then copy_n T src (Suc first) n (dst[d := Obj x]) (Suc d) s1
               else (Thrown element_exception, dst, s1))
      | _ \<Rightarrow> (Violated, dst, s))"

text \<open>
  One move assignment \<^verbatim>\<open>blk[d] = std::move(blk[i])\<close> inside a block, and the two loops
  built from it: \<^verbatim>\<open>std::move(first, last, d_first)\<close> runs forward over \<open>n = last - first\<close>
  objects, \<^verbatim>\<open>std::move_backward(first, last, d_last)\<close> runs backward from \<open>last\<close>.
\<close>

definition move_assign_at ::
  "('a, 'w) element_type \<Rightarrow> 'a slot list \<Rightarrow> nat \<Rightarrow> nat \<Rightarrow> ('a, 'w) machine
    \<Rightarrow> unit outcome \<times> 'a slot list \<times> ('a, 'w) machine" where
  "move_assign_at T blk d i s =
     (case (obj_at blk i, obj_at blk d) of
        (Some x, Some y) \<Rightarrow>
          (case call (move_assign_ok T y x) s of
             (ok, s1) \<Rightarrow>
               if ok then (Returned (), blk[i := Obj (moved_from T x), d := Obj x], s1)
               else (Thrown element_exception, blk, s1))
      | _ \<Rightarrow> (Violated, blk, s))"

fun move_range ::
  "('a, 'w) element_type \<Rightarrow> 'a slot list \<Rightarrow> nat \<Rightarrow> nat \<Rightarrow> nat \<Rightarrow> ('a, 'w) machine
    \<Rightarrow> unit outcome \<times> 'a slot list \<times> ('a, 'w) machine" where
  "move_range T blk first 0 d s = (Returned (), blk, s)"
| "move_range T blk first (Suc n) d s =
     (case move_assign_at T blk d first s of
        (Returned u, blk1, s1) \<Rightarrow> move_range T blk1 (Suc first) n (Suc d) s1
      | (r, blk1, s1) \<Rightarrow> (r, blk1, s1))"

fun move_backward ::
  "('a, 'w) element_type \<Rightarrow> 'a slot list \<Rightarrow> nat \<Rightarrow> nat \<Rightarrow> nat \<Rightarrow> ('a, 'w) machine
    \<Rightarrow> unit outcome \<times> 'a slot list \<times> ('a, 'w) machine" where
  "move_backward T blk first 0 d_last s = (Returned (), blk, s)"
| "move_backward T blk first (Suc n) d_last s =
     (if d_last = 0 then (Violated, blk, s)
      else case move_assign_at T blk (d_last - 1) (first + n) s of
        (Returned u, blk1, s1) \<Rightarrow> move_backward T blk1 first n (d_last - 1) s1
      | (r, blk1, s1) \<Rightarrow> (r, blk1, s1))"

section \<open>RawMemory\<close>

record 'a RawMemory =
  buffer_m :: "'a slot list"
  capacity_m :: nat

text \<open>
  \<^verbatim>\<open>Allocate(n)\<close>: \<^verbatim>\<open>operator new\<close> for \<open>n \<noteq> 0\<close>, the null pointer otherwise.
  \<^verbatim>\<open>Deallocate(buf)\<close>: \<^verbatim>\<open>operator delete\<close>, which does nothing on the null pointer and
  runs no destructor.
\<close>

definition Allocate ::
  "('a, 'w) element_type \<Rightarrow> nat \<Rightarrow> ('a, 'w) machine \<Rightarrow> 'a slot list outcome \<times> ('a, 'w) machine" where
  "Allocate T n s =
     (if n \<noteq> 0 then
        (case call (alloc_ok T n) s of
           (ok, s1) \<Rightarrow> if ok then (Returned (replicate n Raw), s1) else (Thrown bad_alloc, s1))
      else (Returned [], s))"

definition Deallocate :: "'a slot list \<Rightarrow> ('a, 'w) machine \<Rightarrow> ('a, 'w) machine" where
  "Deallocate buf s = (if buf = [] then s else s\<lparr>freed := freed s @ [buf]\<rparr>)"

definition RawMemory_default :: "'a RawMemory" where
  "RawMemory_default = \<lparr>buffer_m = [], capacity_m = 0\<rparr>"

definition RawMemory_sized ::
  "('a, 'w) element_type \<Rightarrow> nat \<Rightarrow> ('a, 'w) machine \<Rightarrow> 'a RawMemory outcome \<times> ('a, 'w) machine" where
  "RawMemory_sized T capacity s =
     (case Allocate T capacity s of
        (Returned b, s1) \<Rightarrow> (Returned \<lparr>buffer_m = b, capacity_m = capacity\<rparr>, s1)
      | (r, s1) \<Rightarrow> (failure r, s1))"

definition RawMemory_dtor :: "'a RawMemory \<Rightarrow> ('a, 'w) machine \<Rightarrow> ('a, 'w) machine" where
  "RawMemory_dtor m s = Deallocate (buffer_m m) s"


text \<open>
  \<^verbatim>\<open>operator+\<close> asserts \<open>offset \<le> capacity_m\<close>, \<^verbatim>\<open>operator[]\<close> asserts
  \<open>index < capacity_m\<close>; both give the offset. \<^verbatim>\<open>GetAddress()\<close> is offset \<open>0\<close>.
\<close>

definition RawMemory_plus :: "'a RawMemory \<Rightarrow> nat \<Rightarrow> nat option" where
  "RawMemory_plus m offset = (if offset \<le> capacity_m m then Some offset else None)"

definition RawMemory_index :: "'a RawMemory \<Rightarrow> nat \<Rightarrow> nat option" where
  "RawMemory_index m index = (if index < capacity_m m then Some index else None)"

definition RawMemory_Swap :: "'a RawMemory \<Rightarrow> 'a RawMemory \<Rightarrow> 'a RawMemory \<times> 'a RawMemory" where
  "RawMemory_Swap m other =
     (m\<lparr>buffer_m := buffer_m other, capacity_m := capacity_m other\<rparr>,
      other\<lparr>buffer_m := buffer_m m, capacity_m := capacity_m m\<rparr>)"

section \<open>Vector\<close>

record 'a Vector =
  data_m :: "'a RawMemory"
  size_m :: nat

definition buf :: "'a Vector \<Rightarrow> 'a slot list" where
  "buf v = buffer_m (data_m v)"

definition with_buffer :: "'a Vector \<Rightarrow> 'a slot list \<Rightarrow> 'a Vector" where
  "with_buffer v b = v\<lparr>data_m := (data_m v)\<lparr>buffer_m := b\<rparr>\<rparr>"

definition Size :: "'a Vector \<Rightarrow> nat" where
  "Size v = size_m v"

definition Capacity :: "'a Vector \<Rightarrow> nat" where
  "Capacity v = capacity_m (data_m v)"

definition begin_it :: "'a Vector \<Rightarrow> nat" where
  "begin_it v = 0"

definition end_it :: "'a Vector \<Rightarrow> nat option" where
  "end_it v = RawMemory_plus (data_m v) (size_m v)"

text \<open>
  \<^verbatim>\<open>CopyOrMove(from, size, to)\<close>: moves when \<^verbatim>\<open>T\<close> is nothrow-move-constructible or
  cannot be copied, copies otherwise; then destroys the source range.
\<close>

definition CopyOrMove ::
  "('a, 'w) element_type \<Rightarrow> 'a slot list \<Rightarrow> nat \<Rightarrow> nat \<Rightarrow> 'a slot list \<Rightarrow> nat \<Rightarrow> ('a, 'w) machine
    \<Rightarrow> unit outcome \<times> 'a slot list \<times> 'a slot list \<times> ('a, 'w) machine" where
  "CopyOrMove T src from n dst to s =
     (case (if nothrow_move_constructible T \<or> \<not> copy_constructible T
            then uninitialized_move_n T src from n dst to s
            else (case uninitialized_copy_n T src from n dst to s of
                    (r, dst1, s1) \<Rightarrow> (r, src, dst1, s1))) of
        (Returned u, src1, dst1, s1) \<Rightarrow> (Returned (), destroy_n src1 from n, dst1, s1)
      | (r, src1, dst1, s1) \<Rightarrow> (r, src1, dst1, s1))"

text \<open>The constructors and the destructor.\<close>

definition Vector_default :: "'a Vector" where
  "Vector_default = \<lparr>data_m = RawMemory_default, size_m = 0\<rparr>"


definition Vector_copy ::
  "('a, 'w) element_type \<Rightarrow> 'a Vector \<Rightarrow> ('a, 'w) machine \<Rightarrow> 'a Vector outcome \<times> ('a, 'w) machine" where
  "Vector_copy T other s =
     (case RawMemory_sized T (size_m other) s of
        (Returned d, s1) \<Rightarrow>
          (case uninitialized_copy_n T (buf other) 0 (size_m other) (buffer_m d) 0 s1 of
             (Returned u, b, s2) \<Rightarrow> (Returned \<lparr>data_m = d\<lparr>buffer_m := b\<rparr>, size_m = size_m other\<rparr>, s2)
           | (r, b, s2) \<Rightarrow> (failure r, RawMemory_dtor (d\<lparr>buffer_m := b\<rparr>) s2))
      | (r, s1) \<Rightarrow> (failure r, s1))"


definition Vector_dtor :: "'a Vector \<Rightarrow> ('a, 'w) machine \<Rightarrow> ('a, 'w) machine" where
  "Vector_dtor v s = RawMemory_dtor (data_m (with_buffer v (destroy_n (buf v) 0 (size_m v)))) s"

definition Swap :: "'a Vector \<Rightarrow> 'a Vector \<Rightarrow> 'a Vector \<times> 'a Vector" where
  "Swap v other =
     (case RawMemory_Swap (data_m v) (data_m other) of
        (d, od) \<Rightarrow> (v\<lparr>data_m := d, size_m := size_m other\<rparr>, other\<lparr>data_m := od, size_m := size_m v\<rparr>))"

text \<open>
  Copy assignment. \<open>same\<close> is the answer of \<^verbatim>\<open>this == &rhs\<close>. The local \<^verbatim>\<open>copy\<close> is
  destroyed when its block ends, after the swap.
\<close>

definition copy_assign ::
  "('a, 'w) element_type \<Rightarrow> bool \<Rightarrow> 'a Vector \<Rightarrow> 'a Vector \<Rightarrow> ('a, 'w) machine
    \<Rightarrow> unit outcome \<times> 'a Vector \<times> ('a, 'w) machine" where
  "copy_assign T same v rhs s =
     (if \<not> same then
        (if size_m rhs > Capacity v then
           (case Vector_copy T rhs s of
              (Returned copy, s1) \<Rightarrow>
                (case Swap v copy of (v1, copy1) \<Rightarrow> (Returned (), v1, Vector_dtor copy1 s1))
            | (r, s1) \<Rightarrow> (failure r, v, s1))
         else
           (let copy_elem = (if size_m rhs < size_m v then size_m rhs else size_m v) in
            case copy_n T (buf rhs) 0 copy_elem (buf v) 0 s of
              (Returned end, b1, s1) \<Rightarrow>
                (if size_m rhs < size_m v then
                   (Returned (),
                    (with_buffer v (destroy_n b1 end (size_m v - size_m rhs)))\<lparr>size_m := size_m rhs\<rparr>, s1)
                 else
                   (case uninitialized_copy_n T (buf rhs) (0 + size_m v) (size_m rhs - size_m v) b1 end s1 of
                      (Returned u, b2, s2) \<Rightarrow> (Returned (), (with_buffer v b2)\<lparr>size_m := size_m rhs\<rparr>, s2)
                    | (r, b2, s2) \<Rightarrow> (failure r, with_buffer v b2, s2)))
            | (r, b1, s1) \<Rightarrow> (failure r, with_buffer v b1, s1)))
      else (Returned (), v, s))"




text \<open>
  \<^verbatim>\<open>PushBack(const T&)\<close>, \<^verbatim>\<open>PushBack(T&&)\<close> and \<^verbatim>\<open>EmplaceBack(Args&&...)\<close>. The new
  block's destructor frees whatever block it holds when the scope is left: the old buffer
  after the swap, the new one when an exception passes through. \<^verbatim>\<open>EmplaceBack\<close> returns a
  reference to \<^verbatim>\<open>data_[size_ - 1]\<close>, here its index.
\<close>

definition PushBack_copy ::
  "('a, 'w) element_type \<Rightarrow> 'a \<Rightarrow> 'a Vector \<Rightarrow> ('a, 'w) machine
    \<Rightarrow> unit outcome \<times> 'a Vector \<times> ('a, 'w) machine" where
  "PushBack_copy T value v s =
     (if size_m v = Capacity v then
        (case RawMemory_sized T (if size_m v = 0 then 1 else size_m v * 2) s of
           (Returned new_data, s1) \<Rightarrow>
             (case RawMemory_plus new_data (size_m v) of
                None \<Rightarrow> (Violated, v, RawMemory_dtor new_data s1)
              | Some p \<Rightarrow>
                  (case placement_new T (buffer_m new_data) p (ByCopy value) s1 of
                     (Returned u, nb1, s2) \<Rightarrow>
                       (case CopyOrMove T (buf v) 0 (size_m v) nb1 0 s2 of
                          (Returned u', ob, nb2, s3) \<Rightarrow>
                            (case RawMemory_Swap (data_m (with_buffer v ob)) (new_data\<lparr>buffer_m := nb2\<rparr>) of
                               (d, nd) \<Rightarrow>
                                 (Returned (), v\<lparr>data_m := d, size_m := size_m v + 1\<rparr>, RawMemory_dtor nd s3))
                        | (r, ob, nb2, s3) \<Rightarrow>
                            (failure r, with_buffer v ob, RawMemory_dtor (new_data\<lparr>buffer_m := nb2\<rparr>) s3))
                   | (r, nb1, s2) \<Rightarrow> (failure r, v, RawMemory_dtor (new_data\<lparr>buffer_m := nb1\<rparr>) s2)))
         | (r, s1) \<Rightarrow> (failure r, v, s1))
      else
        (case RawMemory_plus (data_m v) (size_m v) of
           None \<Rightarrow> (Violated, v, s)
         | Some p \<Rightarrow>
             (case placement_new T (buf v) p (ByCopy value) s of
                (Returned u, b, s1) \<Rightarrow>
                  (Returned (), (with_buffer v b)\<lparr>size_m := size_m v + 1\<rparr>, s1)
              | (r, b, s1) \<Rightarrow> (failure r, with_buffer v b, s1))))"

definition PushBack_move ::
  "('a, 'w) element_type \<Rightarrow> 'a \<Rightarrow> 'a Vector \<Rightarrow> ('a, 'w) machine
    \<Rightarrow> unit outcome \<times> 'a Vector \<times> ('a, 'w) machine" where
  "PushBack_move T value v s =
     (if size_m v = Capacity v then
        (case RawMemory_sized T (if size_m v = 0 then 1 else size_m v * 2) s of
           (Returned new_data, s1) \<Rightarrow>
             (case RawMemory_plus new_data (size_m v) of
                None \<Rightarrow> (Violated, v, RawMemory_dtor new_data s1)
              | Some p \<Rightarrow>
                  (case placement_new T (buffer_m new_data) p (ByMove value) s1 of
                     (Returned u, nb1, s2) \<Rightarrow>
                       (case CopyOrMove T (buf v) 0 (size_m v) nb1 0 s2 of
                          (Returned u', ob, nb2, s3) \<Rightarrow>
                            (case RawMemory_Swap (data_m (with_buffer v ob)) (new_data\<lparr>buffer_m := nb2\<rparr>) of
                               (d, nd) \<Rightarrow>
                                 (Returned (), v\<lparr>data_m := d, size_m := size_m v + 1\<rparr>, RawMemory_dtor nd s3))
                        | (r, ob, nb2, s3) \<Rightarrow>
                            (failure r, with_buffer v ob, RawMemory_dtor (new_data\<lparr>buffer_m := nb2\<rparr>) s3))
                   | (r, nb1, s2) \<Rightarrow> (failure r, v, RawMemory_dtor (new_data\<lparr>buffer_m := nb1\<rparr>) s2)))
         | (r, s1) \<Rightarrow> (failure r, v, s1))
      else
        (case RawMemory_plus (data_m v) (size_m v) of
           None \<Rightarrow> (Violated, v, s)
         | Some p \<Rightarrow>
             (case placement_new T (buf v) p (ByMove value) s of
                (Returned u, b, s1) \<Rightarrow>
                  (Returned (), (with_buffer v b)\<lparr>size_m := size_m v + 1\<rparr>, s1)
              | (r, b, s1) \<Rightarrow> (failure r, with_buffer v b, s1))))"

definition EmplaceBack ::
  "('a, 'w) element_type \<Rightarrow> 'a args \<Rightarrow> 'a Vector \<Rightarrow> ('a, 'w) machine
    \<Rightarrow> nat outcome \<times> 'a Vector \<times> ('a, 'w) machine" where
  "EmplaceBack T a v s =
     (if size_m v = Capacity v then
        (case RawMemory_sized T (if size_m v = 0 then 1 else size_m v * 2) s of
           (Returned new_data, s1) \<Rightarrow>
             (case RawMemory_plus new_data (size_m v) of
                None \<Rightarrow> (Violated, v, RawMemory_dtor new_data s1)
              | Some p \<Rightarrow>
                  (case placement_new T (buffer_m new_data) p a s1 of
                     (Returned u, nb1, s2) \<Rightarrow>
                       (case CopyOrMove T (buf v) 0 (size_m v) nb1 0 s2 of
                          (Returned u', ob, nb2, s3) \<Rightarrow>
                            (case RawMemory_Swap (data_m (with_buffer v ob)) (new_data\<lparr>buffer_m := nb2\<rparr>) of
                               (d, nd) \<Rightarrow>
                                 (let v1 = v\<lparr>data_m := d, size_m := size_m v + 1\<rparr> in
                                  case RawMemory_index (data_m v1) (size_m v1 - 1) of
                                    None \<Rightarrow> (Violated, v1, RawMemory_dtor nd s3)
                                  | Some i \<Rightarrow> (Returned i, v1, RawMemory_dtor nd s3)))
                        | (r, ob, nb2, s3) \<Rightarrow>
                            (failure r, with_buffer v ob, RawMemory_dtor (new_data\<lparr>buffer_m := nb2\<rparr>) s3))
                   | (r, nb1, s2) \<Rightarrow> (failure r, v, RawMemory_dtor (new_data\<lparr>buffer_m := nb1\<rparr>) s2)))
         | (r, s1) \<Rightarrow> (failure r, v, s1))
      else
        (case RawMemory_plus (data_m v) (size_m v) of
           None \<Rightarrow> (Violated, v, s)
         | Some p \<Rightarrow>
             (case placement_new T (buf v) p a s of
                (Returned u, b, s1) \<Rightarrow>
                  (let v1 = (with_buffer v b)\<lparr>size_m := size_m v + 1\<rparr> in
                   case RawMemory_index (data_m v1) (size_m v1 - 1) of
                     None \<Rightarrow> (Violated, v1, s1)
                   | Some i \<Rightarrow> (Returned i, v1, s1))
              | (r, b, s1) \<Rightarrow> (failure r, with_buffer v b, s1))))"


text \<open>
  \<^verbatim>\<open>Emplace(pos, args...)\<close>. An iterator is an offset from \<^verbatim>\<open>begin()\<close>. The two
  \<^verbatim>\<open>try\<close> blocks are the two failure branches of the migrations. Where the source subtracts
  in \<^verbatim>\<open>size_t\<close> (\<^verbatim>\<open>size_ - index\<close>, \<^verbatim>\<open>size_ - 1\<close>, \<^verbatim>\<open>end() - 1\<close> against \<^verbatim>\<open>begin() + index\<close>),
  a difference below zero is a broken contract.
\<close>

definition Emplace ::
  "('a, 'w) element_type \<Rightarrow> nat \<Rightarrow> 'a args \<Rightarrow> 'a Vector \<Rightarrow> ('a, 'w) machine
    \<Rightarrow> nat outcome \<times> 'a Vector \<times> ('a, 'w) machine" where
  "Emplace T pos a v s =
     (case end_it v of
        None \<Rightarrow> (Violated, v, s)
      | Some e \<Rightarrow>
          if pos = e then EmplaceBack T a v s
          else if size_m v = Capacity v then
            (let index = pos - begin_it v in
             case RawMemory_sized T (if size_m v = 0 then 1 else size_m v * 2) s of
               (Returned new_data, s1) \<Rightarrow>
                 (case RawMemory_plus new_data index of
                    None \<Rightarrow> (Violated, v, RawMemory_dtor new_data s1)
                  | Some p \<Rightarrow>
                      (case placement_new T (buffer_m new_data) p a s1 of
                         (Returned u, nb1, s2) \<Rightarrow>
                           (case CopyOrMove T (buf v) 0 index nb1 0 s2 of
                              (Returned u', ob1, nb2, s3) \<Rightarrow>
                                (case (RawMemory_plus (data_m v) index, RawMemory_plus new_data (index + 1)) of
                                   (Some from, Some to) \<Rightarrow>
                                     (if size_m v < index
                                      then (Violated, with_buffer v ob1, RawMemory_dtor (new_data\<lparr>buffer_m := nb2\<rparr>) s3)
                                      else
                                        (case CopyOrMove T ob1 from (size_m v - index) nb2 to s3 of
                                           (Returned u'', ob2, nb3, s4) \<Rightarrow>
                                             (case RawMemory_Swap (data_m (with_buffer v ob2)) (new_data\<lparr>buffer_m := nb3\<rparr>) of
                                                (d, nd) \<Rightarrow>
                                                  (Returned (begin_it v + index),
                                                   v\<lparr>data_m := d, size_m := size_m v + 1\<rparr>,
                                                   RawMemory_dtor nd s4))
                                         | (r, ob2, nb3, s4) \<Rightarrow>
                                             (failure r, with_buffer v ob2,
                                              RawMemory_dtor (new_data\<lparr>buffer_m := destroy_n nb3 0 (index + 1)\<rparr>) s4)))
                                 | _ \<Rightarrow> (Violated, with_buffer v ob1, RawMemory_dtor (new_data\<lparr>buffer_m := nb2\<rparr>) s3))
                            | (r, ob1, nb2, s3) \<Rightarrow>
                                (case RawMemory_index new_data index of
                                   None \<Rightarrow> (Violated, with_buffer v ob1, RawMemory_dtor (new_data\<lparr>buffer_m := nb2\<rparr>) s3)
                                 | Some i \<Rightarrow>
                                     (failure r, with_buffer v ob1,
                                      RawMemory_dtor (new_data\<lparr>buffer_m := destroy_at nb2 i\<rparr>) s3)))
                       | (r, nb1, s2) \<Rightarrow> (failure r, v, RawMemory_dtor (new_data\<lparr>buffer_m := nb1\<rparr>) s2)))
             | (r, s1) \<Rightarrow> (failure r, v, s1))
          else
            (let index = pos - begin_it v in
             case call (T_ctor T a) s of
               (ok, s1) \<Rightarrow>
                 if \<not> ok then (Thrown element_exception, v, s1)
                 else
                   (let temp_elem = arg_value a in
                    if size_m v = 0 then (Violated, v, s1)
                    else
                      (case (end_it v, RawMemory_index (data_m v) (size_m v - 1)) of
                         (Some e1, Some l) \<Rightarrow>
                           (case obj_at (buf v) l of
                              None \<Rightarrow> (Violated, v, s1)
                            | Some x \<Rightarrow>
                                (case placement_new T (buf v) e1 (ByMove x) s1 of
                                   (Returned u, b1, s2) \<Rightarrow>
                                     (let b2 = b1[l := Obj (moved_from T x)] in
                                      if e1 - 1 < begin_it v + index then (Violated, with_buffer v b2, s2)
                                      else
                                        (case move_backward T b2 (begin_it v + index) (e1 - 1 - (begin_it v + index)) e1 s2 of
                                           (Returned u', b3, s3) \<Rightarrow>
                                             (case RawMemory_index (data_m v) index of
                                                None \<Rightarrow> (Violated, with_buffer v b3, s3)
                                              | Some i \<Rightarrow>
                                                  (case obj_at b3 i of
                                                     None \<Rightarrow> (Violated, with_buffer v b3, s3)
                                                   | Some y \<Rightarrow>
                                                       (case call (move_assign_ok T y temp_elem) s3 of
                                                          (ok1, s4) \<Rightarrow>
                                                            if ok1 then
                                                              (Returned (begin_it v + index),
                                                               (with_buffer v (b3[i := Obj temp_elem]))\<lparr>size_m := size_m v + 1\<rparr>,
                                                               s4)
                                                            else (Thrown element_exception, with_buffer v b3, s4))))
                                         | (r, b3, s3) \<Rightarrow> (failure r, with_buffer v b3, s3)))
                                 | (r, b1, s2) \<Rightarrow> (failure r, with_buffer v b1, s2)))
                       | _ \<Rightarrow> (Violated, v, s1)))))"

text \<open>
  \<^verbatim>\<open>Erase(pos)\<close>: \<^verbatim>\<open>std::move(begin() + index + 1, end(), begin() + index)\<close>, then the
  destructor of the last slot, then \<^verbatim>\<open>--size_\<close>.
\<close>

definition Erase ::
  "('a, 'w) element_type \<Rightarrow> nat \<Rightarrow> 'a Vector \<Rightarrow> ('a, 'w) machine
    \<Rightarrow> nat outcome \<times> 'a Vector \<times> ('a, 'w) machine" where
  "Erase T pos v s =
     (if \<not> size_m v > 0 then (Violated, v, s)
      else
        (let index = pos - begin_it v in
         case end_it v of
           None \<Rightarrow> (Violated, v, s)
         | Some e \<Rightarrow>
             if e < begin_it v + index + 1 then (Violated, v, s)
             else
               (case move_range T (buf v) (begin_it v + index + 1) (e - (begin_it v + index + 1)) (begin_it v + index) s of
                  (Returned u, b, s1) \<Rightarrow>
                    (case RawMemory_index (data_m v) (size_m v - 1) of
                       None \<Rightarrow> (Violated, with_buffer v b, s1)
                     | Some l \<Rightarrow>
                         (Returned (begin_it v + index),
                          (with_buffer v (destroy_at b l))\<lparr>size_m := size_m v - 1\<rparr>, s1))
                | (r, b, s1) \<Rightarrow> (failure r, with_buffer v b, s1))))"

definition Insert_copy ::
  "('a, 'w) element_type \<Rightarrow> nat \<Rightarrow> 'a \<Rightarrow> 'a Vector \<Rightarrow> ('a, 'w) machine
    \<Rightarrow> nat outcome \<times> 'a Vector \<times> ('a, 'w) machine" where
  "Insert_copy T pos value v s = Emplace T pos (ByCopy value) v s"

definition Insert_move ::
  "('a, 'w) element_type \<Rightarrow> nat \<Rightarrow> 'a \<Rightarrow> 'a Vector \<Rightarrow> ('a, 'w) machine
    \<Rightarrow> nat outcome \<times> 'a Vector \<times> ('a, 'w) machine" where
  "Insert_move T pos value v s = Emplace T pos (ByMove value) v s"

text \<open>\<^verbatim>\<open>operator[]\<close> gives a reference; the embedding reads the object there.\<close>

definition at_index :: "'a Vector \<Rightarrow> nat \<Rightarrow> 'a outcome" where
  "at_index v index =
     (if \<not> index < size_m v then Violated
      else case RawMemory_index (data_m v) index of
        None \<Rightarrow> Violated
      | Some i \<Rightarrow> (case obj_at (buf v) i of None \<Rightarrow> Violated | Some x \<Rightarrow> Returned x))"

section \<open>Well-formed containers and element types\<close>

text \<open>
  \<open>holds v xs\<close>: the container \<open>v\<close> satisfies the invariant of the class and its elements
  are \<open>xs\<close>: \<open>size_ \<le> capacity_\<close>, the block has \<open>capacity_\<close> slots, the slots
  \<open>[0, size_)\<close> are the live objects \<open>xs\<close> and the slots \<open>[size_, capacity_)\<close> are
  uninitialized. \<open>wf v\<close> is the invariant alone.
\<close>

definition holds :: "'a Vector \<Rightarrow> 'a list \<Rightarrow> bool" where
  "holds v xs \<longleftrightarrow>
     size_m v = length xs \<and> length xs \<le> Capacity v \<and>
     buf v = map Obj xs @ replicate (Capacity v - length xs) Raw"


text \<open>
  What the type traits promise: a type that answers \<^verbatim>\<open>is_nothrow_move_constructible\<close> has
  a move constructor that never throws.
\<close>

definition nothrow_move_ctor :: "('a, 'w) element_type \<Rightarrow> bool" where
  "nothrow_move_ctor T \<longleftrightarrow> (\<forall>x w. fst (move_ctor_ok T x w))"

definition nothrow_copy_ctor :: "('a, 'w) element_type \<Rightarrow> bool" where
  "nothrow_copy_ctor T \<longleftrightarrow> (\<forall>x w. fst (copy_ctor_ok T x w))"

definition nothrow_ctor :: "('a, 'w) element_type \<Rightarrow> 'a args \<Rightarrow> bool" where
  "nothrow_ctor T a \<longleftrightarrow> (\<forall>w. fst (T_ctor T a w))"


definition nothrow_copy_assign :: "('a, 'w) element_type \<Rightarrow> bool" where
  "nothrow_copy_assign T \<longleftrightarrow> (\<forall>y x w. fst (copy_assign_ok T y x w))"

definition nothrow_move_assign :: "('a, 'w) element_type \<Rightarrow> bool" where
  "nothrow_move_assign T \<longleftrightarrow> (\<forall>y x w. fst (move_assign_ok T y x w))"

definition nothrow_alloc :: "('a, 'w) element_type \<Rightarrow> bool" where
  "nothrow_alloc T \<longleftrightarrow> (\<forall>n w. fst (alloc_ok T n w))"

definition wf_type :: "('a, 'w) element_type \<Rightarrow> bool" where
  "wf_type T \<longleftrightarrow> (nothrow_move_constructible T \<longrightarrow> nothrow_move_ctor T)"

text \<open>The migration of \<^verbatim>\<open>CopyOrMove\<close> copies exactly for these types.\<close>

definition migrates_by_copy :: "('a, 'w) element_type \<Rightarrow> bool" where
  "migrates_by_copy T \<longleftrightarrow> \<not> (nothrow_move_constructible T \<or> \<not> copy_constructible T)"

section \<open>Runs of operations and example element types\<close>

text \<open>
  A run of consecutive appends, each by one of the three append functions, stopping at the
  first one that does not return.
\<close>

datatype 'a append = push_back_copy 'a | push_back_move 'a | emplace_back "'a args"

fun discard :: "'r outcome \<Rightarrow> unit outcome" where
  "discard (Returned i) = Returned ()"
| "discard (Thrown e) = Thrown e"
| "discard Violated = Violated"

fun append1 ::
  "('a, 'w) element_type \<Rightarrow> 'a append \<Rightarrow> 'a Vector \<Rightarrow> ('a, 'w) machine
    \<Rightarrow> unit outcome \<times> 'a Vector \<times> ('a, 'w) machine" where
  "append1 T (push_back_copy x) v s = PushBack_copy T x v s"
| "append1 T (push_back_move x) v s = PushBack_move T x v s"
| "append1 T (emplace_back a) v s =
     (case EmplaceBack T a v s of (r, v1, s1) \<Rightarrow> (discard r, v1, s1))"

fun appended :: "'a append \<Rightarrow> 'a" where
  "appended (push_back_copy x) = x"
| "appended (push_back_move x) = x"
| "appended (emplace_back a) = arg_value a"

fun appends ::
  "('a, 'w) element_type \<Rightarrow> 'a append list \<Rightarrow> 'a Vector \<Rightarrow> ('a, 'w) machine
    \<Rightarrow> unit outcome \<times> 'a Vector \<times> ('a, 'w) machine" where
  "appends T [] v s = (Returned (), v, s)"
| "appends T (ap # aps) v s =
     (case append1 T ap v s of
        (Returned u, v1, s1) \<Rightarrow> appends T aps v1 s1
      | (r, v1, s1) \<Rightarrow> (r, v1, s1))"

text \<open>
  Three element types for concrete runs. \<open>int_type\<close> is \<^verbatim>\<open>int\<close>: nothing throws, a
  moved-from \<^verbatim>\<open>int\<close> keeps its value. The other two take their faults from a budget: the
  surroundings hold the number of operations of \<^verbatim>\<open>T\<close> that still succeed, and the next
  one after that throws. \<open>copy_type\<close> can be copied and its move constructor may throw, so
  it migrates by copy; \<open>move_only_type\<close> cannot be copied and its move constructor may
  throw, so it migrates by move; a moved-from object of either holds \<open>0\<close>.
\<close>

definition int_type :: "(int, unit) element_type" where
  "int_type =
     \<lparr>nothrow_move_constructible = True, copy_constructible = True, value_init = 0,
      moved_from = (\<lambda>x. x), alloc_ok = (\<lambda>n w. (True, w)), value_ctor_ok = (\<lambda>w. (True, w)),
      args_ctor_ok = (\<lambda>x w. (True, w)), copy_ctor_ok = (\<lambda>x w. (True, w)),
      move_ctor_ok = (\<lambda>x w. (True, w)), copy_assign_ok = (\<lambda>y x w. (True, w)),
      move_assign_ok = (\<lambda>y x w. (True, w))\<rparr>"

definition budget :: "nat \<Rightarrow> bool \<times> nat" where
  "budget w = (w \<noteq> 0, w - 1)"

definition copy_type :: "(int, nat) element_type" where
  "copy_type =
     \<lparr>nothrow_move_constructible = False, copy_constructible = True, value_init = 0,
      moved_from = (\<lambda>x. 0), alloc_ok = (\<lambda>n w. (True, w)), value_ctor_ok = budget,
      args_ctor_ok = (\<lambda>x. budget), copy_ctor_ok = (\<lambda>x. budget), move_ctor_ok = (\<lambda>x. budget),
      copy_assign_ok = (\<lambda>y x. budget), move_assign_ok = (\<lambda>y x. budget)\<rparr>"

definition move_only_type :: "(int, nat) element_type" where
  "move_only_type =
     \<lparr>nothrow_move_constructible = False, copy_constructible = False, value_init = 0,
      moved_from = (\<lambda>x. 0), alloc_ok = (\<lambda>n w. (True, w)), value_ctor_ok = budget,
      args_ctor_ok = (\<lambda>x. budget), copy_ctor_ok = (\<lambda>x. budget), move_ctor_ok = (\<lambda>x. budget),
      copy_assign_ok = (\<lambda>y x. budget), move_assign_ok = (\<lambda>y x. budget)\<rparr>"

text \<open>The container with elements \<open>xs\<close> and \<open>k\<close> spare slots, and a fresh machine.\<close>

definition vec :: "'a list \<Rightarrow> nat \<Rightarrow> 'a Vector" where
  "vec xs k =
     \<lparr>data_m = \<lparr>buffer_m = map Obj xs @ replicate k Raw, capacity_m = length xs + k\<rparr>,
      size_m = length xs\<rparr>"

definition start :: "'w \<Rightarrow> ('a, 'w) machine" where
  "start w = \<lparr>world = w, freed = []\<rparr>"







section \<open>What the standard algorithms do on a range\<close>

lemma call_freed: "call f s = (ok, s1) \<Longrightarrow> freed s1 = freed s"
  by (auto simp: call_def split: prod.splits)

lemma call_False: "call f s = (False, s1) \<Longrightarrow> \<exists>w. \<not> fst (f w)"
  by (auto simp: call_def split: prod.splits intro: exI[of _ "world s"])

lemma obj_at_mid: "obj_at (P @ Obj x # Q) (length P) = Some x"
  by (simp add: obj_at_def)

lemma destroy_at_mid: "destroy_at (A @ y # B) (length A) = A @ Raw # B"
  by (simp add: destroy_at_def)

lemma destroy_n_mid:
  "destroy_n (A @ ys @ B) (length A) (length ys) = A @ replicate (length ys) Raw @ B"
proof (induction ys arbitrary: A)
  case Nil
  show ?case by simp
next
  case (Cons y ys)
  have "destroy_n ((A @ [Raw]) @ ys @ B) (length (A @ [Raw])) (length ys)
          = (A @ [Raw]) @ replicate (length ys) Raw @ B"
    by (rule Cons.IH)
  then show ?case by (simp add: destroy_at_mid)
qed

lemma placement_new_mid:
  "placement_new T (A @ y # B) (length A) a s = (r, blk, s1) \<Longrightarrow>
     freed s1 = freed s \<and>
     ((r = Returned () \<and> blk = A @ Obj (arg_value a) # B) \<or>
      (r = Thrown element_exception \<and> blk = A @ y # B \<and> \<not> nothrow_ctor T a))"
  by (auto simp: placement_new_def nothrow_ctor_def split: prod.splits if_splits
           dest: call_freed call_False)

lemma uninitialized_copy_n_mid:
  "uninitialized_copy_n T (P @ map Obj xs @ Q) (length P) (length xs)
         (A @ replicate (length xs) Raw @ B) (length A) s = (r, dst1, s1) \<Longrightarrow>
   freed s1 = freed s \<and>
     ((r = Returned () \<and> dst1 = A @ map Obj xs @ B)
      \<or> (r = Thrown element_exception \<and> dst1 = A @ replicate (length xs) Raw @ B \<and>
          \<not> nothrow_copy_ctor T))"
proof (induction xs arbitrary: P A s r dst1 s1)
  case Nil
  then show ?case by auto
next
  case (Cons x xs)
  obtain r0 blk s0 where pn:
    "placement_new T (A @ Raw # replicate (length xs) Raw @ B) (length A) (ByCopy x) s = (r0, blk, s0)"
    by (metis prod_cases3)
  note c = placement_new_mid[OF pn]
  show ?case
  proof (cases "r0 = Returned ()")
    case False
    with c Cons.prems pn show ?thesis
      by (auto simp: obj_at_mid nothrow_ctor_def nothrow_copy_ctor_def)
  next
    case True
    obtain r2 dst2 s2 where rec:
      "uninitialized_copy_n T ((P @ [Obj x]) @ map Obj xs @ Q) (length (P @ [Obj x])) (length xs)
          ((A @ [Obj x]) @ replicate (length xs) Raw @ B) (length (A @ [Obj x])) s0 = (r2, dst2, s2)"
      by (metis prod_cases3)
    note ih = Cons.IH[OF rec]
    from True c pn rec Cons.prems have res: "(r, dst1, s1) =
       (case r2 of Returned u \<Rightarrow> (Returned (), dst2, s2) | _ \<Rightarrow> (r2, destroy_at dst2 (length A), s2))"
      by (auto simp: obj_at_mid split: outcome.splits)
    from ih res c show ?thesis
      by (auto simp: destroy_at_mid)
  qed
qed

lemma uninitialized_move_n_mid:
  "uninitialized_move_n T (P @ map Obj xs @ Q) (length P) (length xs)
         (A @ replicate (length xs) Raw @ B) (length A) s = (r, src1, dst1, s1) \<Longrightarrow>
   freed s1 = freed s \<and>
     ((r = Returned () \<and> src1 = P @ map Obj (map (moved_from T) xs) @ Q \<and> dst1 = A @ map Obj xs @ B)
      \<or> (r = Thrown element_exception \<and> dst1 = A @ replicate (length xs) Raw @ B \<and>
          \<not> nothrow_move_ctor T \<and>
          (\<exists>ys. length ys = length xs \<and> src1 = P @ map Obj ys @ Q)))"
proof (induction xs arbitrary: P A s r src1 dst1 s1)
  case Nil
  then show ?case by auto
next
  case (Cons x xs)
  obtain r0 blk s0 where pn:
    "placement_new T (A @ Raw # replicate (length xs) Raw @ B) (length A) (ByMove x) s = (r0, blk, s0)"
    by (metis prod_cases3)
  note c = placement_new_mid[OF pn]
  show ?case
  proof (cases "r0 = Returned ()")
    case False
    with c Cons.prems pn show ?thesis
      by (auto simp: obj_at_mid nothrow_ctor_def nothrow_move_ctor_def intro: exI[of _ "x # xs"])
  next
    case True
    obtain r2 src2 dst2 s2 where rec:
      "uninitialized_move_n T ((P @ [Obj (moved_from T x)]) @ map Obj xs @ Q) (length (P @ [Obj (moved_from T x)])) (length xs)
          ((A @ [Obj x]) @ replicate (length xs) Raw @ B) (length (A @ [Obj x])) s0 = (r2, src2, dst2, s2)"
      by (metis prod_cases4)
    note ih = Cons.IH[OF rec]
    from True c pn rec Cons.prems have res: "(r, src1, dst1, s1) =
       (case r2 of Returned u \<Rightarrow> (Returned (), src2, dst2, s2) | _ \<Rightarrow> (r2, src2, destroy_at dst2 (length A), s2))"
      by (auto simp: obj_at_mid split: outcome.splits)
    from ih show ?thesis
    proof (elim conjE disjE exE)
      assume "freed s2 = freed s0" "r2 = Returned ()"
        "src2 = (P @ [Obj (moved_from T x)]) @ map Obj (map (moved_from T) xs) @ Q"
        "dst2 = (A @ [Obj x]) @ map Obj xs @ B"
      with res c show ?thesis by auto
    next
      fix ys assume "freed s2 = freed s0" "r2 = Thrown element_exception"
        "dst2 = (A @ [Obj x]) @ replicate (length xs) Raw @ B" "\<not> nothrow_move_ctor T"
        "length ys = length xs" "src2 = (P @ [Obj (moved_from T x)]) @ map Obj ys @ Q"
      with res c show ?thesis
        by (auto simp: destroy_at_mid intro: exI[of _ "moved_from T x # ys"])
    qed
  qed
qed


lemma ex_live_Cons:
  "length zs = n \<Longrightarrow> \<exists>zsa. length zsa = Suc n \<and> Obj x # map Obj zs = map Obj zsa"
  by (rule exI[of _ "x # zs"]) simp

lemma ex_live_Cons_app:
  "length zs = n \<Longrightarrow> \<exists>zsa. length zsa = Suc n \<and> Obj x # map Obj zs @ B = map Obj zsa @ B"
  by (rule exI[of _ "x # zs"]) simp

lemma ex_live_snoc:
  "length zs = n \<Longrightarrow> \<exists>zsa. length zsa = Suc n \<and> map Obj zs @ Obj y # B = map Obj zsa @ B"
  by (rule exI[of _ "zs @ [y]"]) simp

lemma copy_n_mid:
  "length ys = length xs \<Longrightarrow>
   copy_n T (P @ map Obj xs @ Q) (length P) (length xs) (A @ map Obj ys @ B) (length A) s = (r, dst1, s1) \<Longrightarrow>
   freed s1 = freed s \<and>
     ((r = Returned (length A + length xs) \<and> dst1 = A @ map Obj xs @ B)
      \<or> (r = Thrown element_exception \<and> \<not> nothrow_copy_assign T \<and>
          (\<exists>zs. length zs = length xs \<and> dst1 = A @ map Obj zs @ B)))"
proof (induction xs arbitrary: ys P A s r dst1 s1)
  case Nil
  then show ?case by auto
next
  case (Cons x xs)
  then obtain y ys' where ys: "ys = y # ys'" "length ys' = length xs"
    by (cases ys) auto
  obtain ok s0 where cl: "call (copy_assign_ok T y x) s = (ok, s0)" by (metis surj_pair)
  note f0 = call_freed[OF cl]
  show ?case
  proof (cases ok)
    case False
    with cl Cons.prems f0 ys call_False[of "copy_assign_ok T y x" s s0] show ?thesis
      by (auto simp: obj_at_mid nothrow_copy_assign_def intro: exI[of _ "y # ys'"])
  next
    case True
    with cl Cons.prems ys have rec:
      "copy_n T ((P @ [Obj x]) @ map Obj xs @ Q) (length (P @ [Obj x])) (length xs)
          ((A @ [Obj x]) @ map Obj ys' @ B) (length (A @ [Obj x])) s0 = (r, dst1, s1)"
      by (auto simp: obj_at_mid)
    from Cons.IH[OF ys(2) rec] show ?thesis
    proof (elim conjE disjE exE, goal_cases)
      case 1
      with f0 show ?case by simp
    next
      case (2 zs)
      with f0 show ?case by (intro conjI disjI2) (auto intro!: ex_live_Cons)
    qed
  qed
qed

lemma move_assign_at_left:
  "move_assign_at T (A @ Obj y # Obj x # B) (length A) (Suc (length A)) s = (r, blk1, s1) \<Longrightarrow>
   freed s1 = freed s \<and>
     ((r = Returned () \<and> blk1 = A @ Obj x # Obj (moved_from T x) # B)
      \<or> (r = Thrown element_exception \<and> blk1 = A @ Obj y # Obj x # B \<and> \<not> nothrow_move_assign T))"
proof -
  assume a: "move_assign_at T (A @ Obj y # Obj x # B) (length A) (Suc (length A)) s = (r, blk1, s1)"
  have o1: "obj_at (A @ Obj y # Obj x # B) (Suc (length A)) = Some x"
    using obj_at_mid[of "A @ [Obj y]" x B] by simp
  have o2: "obj_at (A @ Obj y # Obj x # B) (length A) = Some y"
    by (rule obj_at_mid)
  have u: "(A @ Obj y # Obj x # B)[Suc (length A) := Obj (moved_from T x), length A := Obj x]
             = A @ Obj x # Obj (moved_from T x) # B"
    by (simp add: list_update_append)
  obtain ok s0 where cl: "call (move_assign_ok T y x) s = (ok, s0)" by (metis surj_pair)
  from a cl o1 o2 u call_freed[OF cl] call_False[of "move_assign_ok T y x" s s0] show ?thesis
    by (cases ok) (auto simp: move_assign_at_def nothrow_move_assign_def)
qed

lemma move_assign_at_right:
  "move_assign_at T (A @ Obj x # Obj y # B) (Suc (length A)) (length A) s = (r, blk1, s1) \<Longrightarrow>
   freed s1 = freed s \<and>
     ((r = Returned () \<and> blk1 = A @ Obj (moved_from T x) # Obj x # B)
      \<or> (r = Thrown element_exception \<and> blk1 = A @ Obj x # Obj y # B \<and> \<not> nothrow_move_assign T))"
proof -
  assume a: "move_assign_at T (A @ Obj x # Obj y # B) (Suc (length A)) (length A) s = (r, blk1, s1)"
  have o1: "obj_at (A @ Obj x # Obj y # B) (Suc (length A)) = Some y"
    using obj_at_mid[of "A @ [Obj x]" y B] by simp
  have o2: "obj_at (A @ Obj x # Obj y # B) (length A) = Some x"
    by (rule obj_at_mid)
  have u: "(A @ Obj x # Obj y # B)[length A := Obj (moved_from T x), Suc (length A) := Obj x]
             = A @ Obj (moved_from T x) # Obj x # B"
    by (simp add: list_update_append)
  obtain ok s0 where cl: "call (move_assign_ok T y x) s = (ok, s0)" by (metis surj_pair)
  from a cl o1 o2 u call_freed[OF cl] call_False[of "move_assign_ok T y x" s s0] show ?thesis
    by (cases ok) (auto simp: move_assign_at_def nothrow_move_assign_def)
qed

lemma move_range_mid:
  "move_range T (A @ Obj a # map Obj ys @ B) (Suc (length A)) (length ys) (length A) s = (r, blk1, s1) \<Longrightarrow>
   freed s1 = freed s \<and>
     ((r = Returned () \<and> (\<exists>c. blk1 = A @ map Obj ys @ Obj c # B))
      \<or> (r = Thrown element_exception \<and> \<not> nothrow_move_assign T \<and>
          (\<exists>zs. length zs = Suc (length ys) \<and> blk1 = A @ map Obj zs @ B)))"
proof (induction ys arbitrary: A a s r blk1 s1)
  case Nil
  then show ?case by (auto intro: exI[of _ "[a]"])
next
  case (Cons y ys)
  obtain r0 blk0 s0 where ma:
    "move_assign_at T (A @ Obj a # Obj y # map Obj ys @ B) (length A) (Suc (length A)) s = (r0, blk0, s0)"
    by (metis prod_cases3)
  note c = move_assign_at_left[OF ma]
  show ?case
  proof (cases "r0 = Returned ()")
    case False
    with c ma Cons.prems show ?thesis
      by (auto intro: exI[of _ "a # y # ys"])
  next
    case True
    with c ma Cons.prems have rec:
      "move_range T ((A @ [Obj y]) @ Obj (moved_from T y) # map Obj ys @ B) (Suc (length (A @ [Obj y])))
          (length ys) (length (A @ [Obj y])) s0 = (r, blk1, s1)"
      by auto
    from Cons.IH[OF rec] show ?thesis
    proof (elim conjE disjE exE, goal_cases)
      case (1 c')
      with c show ?case by auto
    next
      case (2 zs)
      with c show ?case by (intro conjI disjI2) (auto intro!: ex_live_Cons)
    qed
  qed
qed

lemma move_backward_mid:
  "move_backward T (A @ map Obj ys @ Obj h # B) (length A) (length ys) (Suc (length A + length ys)) s = (r, blk1, s1) \<Longrightarrow>
   freed s1 = freed s \<and>
     ((r = Returned () \<and> (\<exists>c. blk1 = A @ Obj c # map Obj ys @ B))
      \<or> (r = Thrown element_exception \<and> \<not> nothrow_move_assign T \<and>
          (\<exists>zs. length zs = Suc (length ys) \<and> blk1 = A @ map Obj zs @ B)))"
proof (induction ys arbitrary: h B s r blk1 s1 rule: rev_induct)
  case Nil
  then show ?case by (auto intro: exI[of _ "[h]"])
next
  case (snoc y ys)
  obtain r0 blk0 s0 where ma:
    "move_assign_at T ((A @ map Obj ys) @ Obj y # Obj h # B) (Suc (length (A @ map Obj ys))) (length (A @ map Obj ys)) s = (r0, blk0, s0)"
    by (metis prod_cases3)
  note c = move_assign_at_right[OF ma]
  show ?case
  proof (cases "r0 = Returned ()")
    case False
    with c ma snoc.prems show ?thesis
      by (auto intro: exI[of _ "ys @ [y, h]"])
  next
    case True
    with c ma snoc.prems have rec:
      "move_backward T (A @ map Obj ys @ Obj (moved_from T y) # (Obj y # B)) (length A)
          (length ys) (Suc (length A + length ys)) s0 = (r, blk1, s1)"
      by auto
    from snoc.IH[OF rec] show ?thesis
    proof (elim conjE disjE exE, goal_cases)
      case (1 c')
      with c show ?case by auto
    next
      case (2 zs)
      with c show ?case by (intro conjI disjI2) (auto intro!: ex_live_snoc[where B="[]", simplified])
    qed
  qed
qed

lemma CopyOrMove_mid:
  "CopyOrMove T (P @ map Obj xs @ Q) (length P) (length xs)
         (A @ replicate (length xs) Raw @ B) (length A) s = (r, src1, dst1, s1) \<Longrightarrow>
   freed s1 = freed s \<and>
     ((r = Returned () \<and> src1 = P @ replicate (length xs) Raw @ Q \<and> dst1 = A @ map Obj xs @ B)
      \<or> (r = Thrown element_exception \<and> dst1 = A @ replicate (length xs) Raw @ B \<and>
          (\<exists>ys. length ys = length xs \<and> src1 = P @ map Obj ys @ Q) \<and>
          (if migrates_by_copy T then src1 = P @ map Obj xs @ Q \<and> \<not> nothrow_copy_ctor T
           else \<not> nothrow_move_ctor T)))"
proof (cases "migrates_by_copy T")
  case True
  assume a: "CopyOrMove T (P @ map Obj xs @ Q) (length P) (length xs)
         (A @ replicate (length xs) Raw @ B) (length A) s = (r, src1, dst1, s1)"
  obtain r0 dst0 s0 where uc: "uninitialized_copy_n T (P @ map Obj xs @ Q) (length P) (length xs)
         (A @ replicate (length xs) Raw @ B) (length A) s = (r0, dst0, s0)"
    by (metis prod_cases3)
  from uninitialized_copy_n_mid[OF uc] a uc True
    destroy_n_mid[of P "map Obj xs" Q]
  show ?thesis
    by (auto simp: CopyOrMove_def migrates_by_copy_def)
next
  case False
  assume a: "CopyOrMove T (P @ map Obj xs @ Q) (length P) (length xs)
         (A @ replicate (length xs) Raw @ B) (length A) s = (r, src1, dst1, s1)"
  obtain r0 src0 dst0 s0 where um: "uninitialized_move_n T (P @ map Obj xs @ Q) (length P) (length xs)
         (A @ replicate (length xs) Raw @ B) (length A) s = (r0, src0, dst0, s0)"
    by (metis prod_cases4)
  from uninitialized_move_n_mid[OF um] a um False
    destroy_n_mid[of P "map Obj (map (moved_from T) xs)" Q]
  show ?thesis
    by (auto simp: CopyOrMove_def migrates_by_copy_def)
qed

section \<open>Appending\<close>

lemma RawMemory_sized_cases:
  "RawMemory_sized T n s = (r, s1) \<Longrightarrow>
     freed s1 = freed s \<and>
     (r = Returned \<lparr>buffer_m = replicate n Raw, capacity_m = n\<rparr>
      \<or> (r = Thrown bad_alloc \<and> \<not> nothrow_alloc T))"
proof -
  assume a: "RawMemory_sized T n s = (r, s1)"
  show ?thesis
  proof (cases "n = 0")
    case True
    with a show ?thesis by (auto simp: RawMemory_sized_def Allocate_def)
  next
    case False
    obtain ok s0 where cl: "call (alloc_ok T n) s = (ok, s0)" by (metis surj_pair)
    from a cl False call_freed[OF cl] call_False[of "alloc_ok T n" s s0] show ?thesis
      by (cases ok) (auto simp: RawMemory_sized_def Allocate_def nothrow_alloc_def)
  qed
qed

lemma holds_buf: "holds v xs \<Longrightarrow> buf v = map Obj xs @ replicate (Capacity v - length xs) Raw"
  by (simp add: holds_def)

lemma holds_size: "holds v xs \<Longrightarrow> size_m v = length xs"
  by (simp add: holds_def)

lemma holds_le: "holds v xs \<Longrightarrow> length xs \<le> Capacity v"
  by (simp add: holds_def)

lemma with_buffer_same: "buf v = b \<Longrightarrow> with_buffer v b = v"
  by (simp add: with_buffer_def buf_def)

lemma holds_with_buffer:
  "holds v xs \<Longrightarrow> length ys = length xs \<Longrightarrow>
   holds (with_buffer v (map Obj ys @ replicate (Capacity v - length xs) Raw)) ys"
  by (simp add: holds_def with_buffer_def buf_def Capacity_def)

text \<open>The reallocating branch shared by the three append functions and by Reserve.\<close>

lemma replicate_split:
  "k < n \<Longrightarrow> replicate n Raw = replicate k Raw @ Raw # replicate (n - Suc k) Raw"
  by (metis Suc_diff_Suc add_Suc_right le_add_diff_inverse less_imp_le_nat replicate_add replicate_Suc)

lemma placement_new_fresh:
  assumes "k < n" "placement_new T (replicate n Raw) k a s = (r, blk, s1)"
  shows "freed s1 = freed s \<and>
     ((r = Returned () \<and> blk = replicate k Raw @ Obj (arg_value a) # replicate (n - Suc k) Raw) \<or>
      (r = Thrown element_exception \<and> blk = replicate n Raw \<and> \<not> nothrow_ctor T a))"
proof -
  have e: "replicate n Raw = replicate k Raw @ Raw # replicate (n - Suc k) Raw"
    using assms(1) by (rule replicate_split)
  have "placement_new T (replicate k Raw @ Raw # replicate (n - Suc k) Raw) (length (replicate k (Raw::'a slot))) a s = (r, blk, s1)"
    by (simp only: e[symmetric] length_replicate assms(2))
  from placement_new_mid[OF this] show ?thesis
    by (simp only: e[symmetric])
qed

lemma CopyOrMove_whole:
  assumes "CopyOrMove T (map Obj xs @ Q) 0 (length xs) (replicate (length xs) Raw @ B) 0 s = (r, src1, dst1, s1)"
  shows "freed s1 = freed s \<and>
     ((r = Returned () \<and> src1 = replicate (length xs) Raw @ Q \<and> dst1 = map Obj xs @ B)
      \<or> (r = Thrown element_exception \<and> dst1 = replicate (length xs) Raw @ B \<and>
          (\<exists>ys. length ys = length xs \<and> src1 = map Obj ys @ Q) \<and>
          (if migrates_by_copy T then src1 = map Obj xs @ Q \<and> \<not> nothrow_copy_ctor T
           else \<not> nothrow_move_ctor T)))"
proof -
  from assms have "CopyOrMove T ([] @ map Obj xs @ Q) (length ([]::'a slot list)) (length xs)
      ([] @ replicate (length xs) Raw @ B) (length ([]::'a slot list)) s = (r, src1, dst1, s1)"
    by simp
  from CopyOrMove_mid[OF this] show ?thesis by (simp cong: if_cong)
qed

lemma EmplaceBack_cases:
  assumes h: "holds v xs" and e: "EmplaceBack T a v s = (r, v', s')"
  shows "(r = Returned (length xs) \<and> holds v' (xs @ [arg_value a]) \<and>
          Capacity v' = (if length xs = Capacity v then (if length xs = 0 then 1 else length xs * 2) else Capacity v))
       \<or> ((\<exists>ex. r = Thrown ex) \<and> Capacity v' = Capacity v \<and>
           (\<exists>ys. length ys = length xs \<and> holds v' ys) \<and>
           (copy_constructible T \<and> wf_type T \<longrightarrow> v' = v) \<and>
           (\<not> nothrow_alloc T \<or> \<not> nothrow_ctor T a \<or> \<not> nothrow_copy_ctor T \<or> \<not> nothrow_move_ctor T))"
proof (cases "size_m v = Capacity v")
  case True
  let ?n = "if size_m v = 0 then 1 else size_m v * 2"
  have sz: "size_m v = length xs" and cap: "Capacity v = length xs" and bv: "buf v = map Obj xs @ []"
    using h True by (auto simp: holds_def)
  have lt: "length xs < ?n" using sz by auto
  obtain r0 s1 where rs: "RawMemory_sized T ?n s = (r0, s1)" by (metis surj_pair)
  from RawMemory_sized_cases[OF rs] show ?thesis
  proof (elim conjE disjE, goal_cases)
    case 2
    with e rs True h show ?case
      by (auto simp: EmplaceBack_def)
  next
    case 1
    obtain r1 nb1 s2 where pn: "placement_new T (replicate ?n Raw) (length xs) a s1 = (r1, nb1, s2)"
      by (metis prod_cases3)
    from placement_new_fresh[OF lt pn] show ?case
    proof (elim conjE disjE, goal_cases)
      case 2
      with e rs pn 1 True h sz lt show ?case
        by (auto simp: EmplaceBack_def RawMemory_plus_def split: if_splits)
    next
      case 3: 1
      obtain r2 ob nb2 s3 where cm:
        "CopyOrMove T (map Obj xs @ []) 0 (length xs) (replicate (length xs) Raw @ Obj (arg_value a) # replicate (?n - Suc (length xs)) Raw) 0 s2 = (r2, ob, nb2, s3)"
        by (metis prod_cases4)
      from CopyOrMove_whole[OF cm] show ?case
      proof (elim conjE disjE exE, goal_cases)
        case 1
        with e rs pn 3 \<open>r0 = _\<close> True cm sz lt bv cap have
          "r = Returned (length xs) \<and> v' = v\<lparr>data_m := \<lparr>buffer_m = map Obj xs @ Obj (arg_value a) # replicate (?n - Suc (length xs)) Raw, capacity_m = ?n\<rparr>, size_m := length xs + 1\<rparr>"
          by (auto simp: EmplaceBack_def RawMemory_plus_def RawMemory_Swap_def RawMemory_index_def Let_def split: if_splits)
        moreover have "xs \<noteq> [] \<Longrightarrow> Suc 0 \<le> length xs" by (cases xs) auto
        ultimately show ?case using sz cap
          by (auto simp: holds_def Capacity_def buf_def)
      next
        case (2 ys)
        with e rs pn 3 \<open>r0 = _\<close> True cm sz lt bv cap have
          rv: "r = Thrown element_exception \<and> v' = with_buffer v (map Obj ys @ [])"
          by (auto simp: EmplaceBack_def RawMemory_plus_def split: if_splits)
        have hy: "holds v' ys" using rv h 2 cap holds_with_buffer[of v xs ys] by simp
        have same: "copy_constructible T \<and> wf_type T \<longrightarrow> v' = v"
        proof
          assume cw: "copy_constructible T \<and> wf_type T"
          show "v' = v"
          proof (cases "migrates_by_copy T")
            case True
            with 2 rv bv show ?thesis by (simp add: with_buffer_same)
          next
            case False
            with cw have "nothrow_move_ctor T" by (auto simp: migrates_by_copy_def wf_type_def)
            with 2 False show ?thesis by simp
          qed
        qed
        from rv hy same 2 show ?case
          by (auto simp: Capacity_def with_buffer_def split: if_splits)
      qed
    qed
  qed
next
  case False
  have sz: "size_m v = length xs" and lt: "length xs < Capacity v"
    using h False by (auto simp: holds_def)
  have k: "Capacity v - length xs = Suc (Capacity v - Suc (length xs))"
    using lt by simp
  have bv: "buf v = map Obj xs @ Raw # replicate (Capacity v - Suc (length xs)) Raw"
    using holds_buf[OF h] by (simp only: k replicate_Suc)
  obtain r1 b s1 where pn: "placement_new T (map Obj xs @ Raw # replicate (Capacity v - Suc (length xs)) Raw)
      (length (map Obj xs)) a s = (r1, b, s1)"
    by (metis prod_cases3)
  from placement_new_mid[OF pn] show ?thesis
  proof (elim conjE disjE, goal_cases)
    case 1
    with e pn False sz lt bv have
      "r = Returned (length xs) \<and> v' = (with_buffer v (map Obj xs @ Obj (arg_value a) # replicate (Capacity v - Suc (length xs)) Raw))\<lparr>size_m := length xs + 1\<rparr>"
      by (auto simp: EmplaceBack_def RawMemory_plus_def RawMemory_index_def Let_def Capacity_def with_buffer_def)
    then show ?case using sz lt False
      by (auto simp: holds_def Capacity_def buf_def with_buffer_def)
  next
    case 2
    with e pn False sz lt bv have "r = Thrown element_exception \<and> v' = with_buffer v (buf v)"
      by (auto simp: EmplaceBack_def RawMemory_plus_def Capacity_def)
    then have "r = Thrown element_exception \<and> v' = v" by (simp add: with_buffer_same)
    with h 2 show ?case by auto
  qed
qed

lemma PushBack_copy_cases:
  assumes h: "holds v xs" and e: "PushBack_copy T x v s = (r, v', s')"
  shows "(r = Returned () \<and> holds v' (xs @ [arg_value (ByCopy x)]) \<and>
          Capacity v' = (if length xs = Capacity v then (if length xs = 0 then 1 else length xs * 2) else Capacity v))
       \<or> ((\<exists>ex. r = Thrown ex) \<and> Capacity v' = Capacity v \<and>
           (\<exists>ys. length ys = length xs \<and> holds v' ys) \<and>
           (copy_constructible T \<and> wf_type T \<longrightarrow> v' = v) \<and>
           (\<not> nothrow_alloc T \<or> \<not> nothrow_ctor T (ByCopy x) \<or> \<not> nothrow_copy_ctor T \<or> \<not> nothrow_move_ctor T))"
proof (cases "size_m v = Capacity v")
  case True
  let ?n = "if size_m v = 0 then 1 else size_m v * 2"
  have sz: "size_m v = length xs" and cap: "Capacity v = length xs" and bv: "buf v = map Obj xs @ []"
    using h True by (auto simp: holds_def)
  have lt: "length xs < ?n" using sz by auto
  obtain r0 s1 where rs: "RawMemory_sized T ?n s = (r0, s1)" by (metis surj_pair)
  from RawMemory_sized_cases[OF rs] show ?thesis
  proof (elim conjE disjE, goal_cases)
    case 2
    with e rs True h show ?case
      by (auto simp: PushBack_copy_def)
  next
    case 1
    obtain r1 nb1 s2 where pn: "placement_new T (replicate ?n Raw) (length xs) (ByCopy x) s1 = (r1, nb1, s2)"
      by (metis prod_cases3)
    from placement_new_fresh[OF lt pn] show ?case
    proof (elim conjE disjE, goal_cases)
      case 2
      with e rs pn 1 True h sz lt show ?case
        by (auto simp: PushBack_copy_def RawMemory_plus_def split: if_splits)
    next
      case 3: 1
      obtain r2 ob nb2 s3 where cm:
        "CopyOrMove T (map Obj xs @ []) 0 (length xs) (replicate (length xs) Raw @ Obj (arg_value (ByCopy x)) # replicate (?n - Suc (length xs)) Raw) 0 s2 = (r2, ob, nb2, s3)"
        by (metis prod_cases4)
      from CopyOrMove_whole[OF cm] show ?case
      proof (elim conjE disjE exE, goal_cases)
        case 1
        with e rs pn 3 \<open>r0 = _\<close> True cm sz lt bv cap have
          "r = Returned () \<and> v' = v\<lparr>data_m := \<lparr>buffer_m = map Obj xs @ Obj (arg_value (ByCopy x)) # replicate (?n - Suc (length xs)) Raw, capacity_m = ?n\<rparr>, size_m := length xs + 1\<rparr>"
          by (auto simp: PushBack_copy_def RawMemory_plus_def RawMemory_Swap_def RawMemory_index_def Let_def split: if_splits)
        moreover have "xs \<noteq> [] \<Longrightarrow> Suc 0 \<le> length xs" by (cases xs) auto
        ultimately show ?case using sz cap
          by (auto simp: holds_def Capacity_def buf_def)
      next
        case (2 ys)
        with e rs pn 3 \<open>r0 = _\<close> True cm sz lt bv cap have
          rv: "r = Thrown element_exception \<and> v' = with_buffer v (map Obj ys @ [])"
          by (auto simp: PushBack_copy_def RawMemory_plus_def split: if_splits)
        have hy: "holds v' ys" using rv h 2 cap holds_with_buffer[of v xs ys] by simp
        have same: "copy_constructible T \<and> wf_type T \<longrightarrow> v' = v"
        proof
          assume cw: "copy_constructible T \<and> wf_type T"
          show "v' = v"
          proof (cases "migrates_by_copy T")
            case True
            with 2 rv bv show ?thesis by (simp add: with_buffer_same)
          next
            case False
            with cw have "nothrow_move_ctor T" by (auto simp: migrates_by_copy_def wf_type_def)
            with 2 False show ?thesis by simp
          qed
        qed
        from rv hy same 2 show ?case
          by (auto simp: Capacity_def with_buffer_def split: if_splits)
      qed
    qed
  qed
next
  case False
  have sz: "size_m v = length xs" and lt: "length xs < Capacity v"
    using h False by (auto simp: holds_def)
  have k: "Capacity v - length xs = Suc (Capacity v - Suc (length xs))"
    using lt by simp
  have bv: "buf v = map Obj xs @ Raw # replicate (Capacity v - Suc (length xs)) Raw"
    using holds_buf[OF h] by (simp only: k replicate_Suc)
  obtain r1 b s1 where pn: "placement_new T (map Obj xs @ Raw # replicate (Capacity v - Suc (length xs)) Raw)
      (length (map Obj xs)) (ByCopy x) s = (r1, b, s1)"
    by (metis prod_cases3)
  from placement_new_mid[OF pn] show ?thesis
  proof (elim conjE disjE, goal_cases)
    case 1
    with e pn False sz lt bv have
      "r = Returned () \<and> v' = (with_buffer v (map Obj xs @ Obj (arg_value (ByCopy x)) # replicate (Capacity v - Suc (length xs)) Raw))\<lparr>size_m := length xs + 1\<rparr>"
      by (auto simp: PushBack_copy_def RawMemory_plus_def RawMemory_index_def Let_def Capacity_def with_buffer_def)
    then show ?case using sz lt False
      by (auto simp: holds_def Capacity_def buf_def with_buffer_def)
  next
    case 2
    with e pn False sz lt bv have "r = Thrown element_exception \<and> v' = with_buffer v (buf v)"
      by (auto simp: PushBack_copy_def RawMemory_plus_def Capacity_def)
    then have "r = Thrown element_exception \<and> v' = v" by (simp add: with_buffer_same)
    with h 2 show ?case by auto
  qed
qed

lemma PushBack_move_cases:
  assumes h: "holds v xs" and e: "PushBack_move T x v s = (r, v', s')"
  shows "(r = Returned () \<and> holds v' (xs @ [arg_value (ByMove x)]) \<and>
          Capacity v' = (if length xs = Capacity v then (if length xs = 0 then 1 else length xs * 2) else Capacity v))
       \<or> ((\<exists>ex. r = Thrown ex) \<and> Capacity v' = Capacity v \<and>
           (\<exists>ys. length ys = length xs \<and> holds v' ys) \<and>
           (copy_constructible T \<and> wf_type T \<longrightarrow> v' = v) \<and>
           (\<not> nothrow_alloc T \<or> \<not> nothrow_ctor T (ByMove x) \<or> \<not> nothrow_copy_ctor T \<or> \<not> nothrow_move_ctor T))"
proof (cases "size_m v = Capacity v")
  case True
  let ?n = "if size_m v = 0 then 1 else size_m v * 2"
  have sz: "size_m v = length xs" and cap: "Capacity v = length xs" and bv: "buf v = map Obj xs @ []"
    using h True by (auto simp: holds_def)
  have lt: "length xs < ?n" using sz by auto
  obtain r0 s1 where rs: "RawMemory_sized T ?n s = (r0, s1)" by (metis surj_pair)
  from RawMemory_sized_cases[OF rs] show ?thesis
  proof (elim conjE disjE, goal_cases)
    case 2
    with e rs True h show ?case
      by (auto simp: PushBack_move_def)
  next
    case 1
    obtain r1 nb1 s2 where pn: "placement_new T (replicate ?n Raw) (length xs) (ByMove x) s1 = (r1, nb1, s2)"
      by (metis prod_cases3)
    from placement_new_fresh[OF lt pn] show ?case
    proof (elim conjE disjE, goal_cases)
      case 2
      with e rs pn 1 True h sz lt show ?case
        by (auto simp: PushBack_move_def RawMemory_plus_def split: if_splits)
    next
      case 3: 1
      obtain r2 ob nb2 s3 where cm:
        "CopyOrMove T (map Obj xs @ []) 0 (length xs) (replicate (length xs) Raw @ Obj (arg_value (ByMove x)) # replicate (?n - Suc (length xs)) Raw) 0 s2 = (r2, ob, nb2, s3)"
        by (metis prod_cases4)
      from CopyOrMove_whole[OF cm] show ?case
      proof (elim conjE disjE exE, goal_cases)
        case 1
        with e rs pn 3 \<open>r0 = _\<close> True cm sz lt bv cap have
          "r = Returned () \<and> v' = v\<lparr>data_m := \<lparr>buffer_m = map Obj xs @ Obj (arg_value (ByMove x)) # replicate (?n - Suc (length xs)) Raw, capacity_m = ?n\<rparr>, size_m := length xs + 1\<rparr>"
          by (auto simp: PushBack_move_def RawMemory_plus_def RawMemory_Swap_def RawMemory_index_def Let_def split: if_splits)
        moreover have "xs \<noteq> [] \<Longrightarrow> Suc 0 \<le> length xs" by (cases xs) auto
        ultimately show ?case using sz cap
          by (auto simp: holds_def Capacity_def buf_def)
      next
        case (2 ys)
        with e rs pn 3 \<open>r0 = _\<close> True cm sz lt bv cap have
          rv: "r = Thrown element_exception \<and> v' = with_buffer v (map Obj ys @ [])"
          by (auto simp: PushBack_move_def RawMemory_plus_def split: if_splits)
        have hy: "holds v' ys" using rv h 2 cap holds_with_buffer[of v xs ys] by simp
        have same: "copy_constructible T \<and> wf_type T \<longrightarrow> v' = v"
        proof
          assume cw: "copy_constructible T \<and> wf_type T"
          show "v' = v"
          proof (cases "migrates_by_copy T")
            case True
            with 2 rv bv show ?thesis by (simp add: with_buffer_same)
          next
            case False
            with cw have "nothrow_move_ctor T" by (auto simp: migrates_by_copy_def wf_type_def)
            with 2 False show ?thesis by simp
          qed
        qed
        from rv hy same 2 show ?case
          by (auto simp: Capacity_def with_buffer_def split: if_splits)
      qed
    qed
  qed
next
  case False
  have sz: "size_m v = length xs" and lt: "length xs < Capacity v"
    using h False by (auto simp: holds_def)
  have k: "Capacity v - length xs = Suc (Capacity v - Suc (length xs))"
    using lt by simp
  have bv: "buf v = map Obj xs @ Raw # replicate (Capacity v - Suc (length xs)) Raw"
    using holds_buf[OF h] by (simp only: k replicate_Suc)
  obtain r1 b s1 where pn: "placement_new T (map Obj xs @ Raw # replicate (Capacity v - Suc (length xs)) Raw)
      (length (map Obj xs)) (ByMove x) s = (r1, b, s1)"
    by (metis prod_cases3)
  from placement_new_mid[OF pn] show ?thesis
  proof (elim conjE disjE, goal_cases)
    case 1
    with e pn False sz lt bv have
      "r = Returned () \<and> v' = (with_buffer v (map Obj xs @ Obj (arg_value (ByMove x)) # replicate (Capacity v - Suc (length xs)) Raw))\<lparr>size_m := length xs + 1\<rparr>"
      by (auto simp: PushBack_move_def RawMemory_plus_def RawMemory_index_def Let_def Capacity_def with_buffer_def)
    then show ?case using sz lt False
      by (auto simp: holds_def Capacity_def buf_def with_buffer_def)
  next
    case 2
    with e pn False sz lt bv have "r = Thrown element_exception \<and> v' = with_buffer v (buf v)"
      by (auto simp: PushBack_move_def RawMemory_plus_def Capacity_def)
    then have "r = Thrown element_exception \<and> v' = v" by (simp add: with_buffer_same)
    with h 2 show ?case by auto
  qed
qed

lemma EmplaceBack_Returned:
  assumes "holds v xs" "EmplaceBack T a v s = (Returned i, v', s')"
  shows "i = length xs \<and> holds v' (xs @ [arg_value a]) \<and>
         Capacity v' = (if length xs = Capacity v then (if length xs = 0 then 1 else length xs * 2) else Capacity v)"
  using EmplaceBack_cases[OF assms] by simp

lemma EmplaceBack_Thrown:
  assumes "holds v xs" "EmplaceBack T a v s = (Thrown ex, v', s')"
  shows "Capacity v' = Capacity v \<and> (\<exists>ys. length ys = length xs \<and> holds v' ys) \<and>
         (copy_constructible T \<and> wf_type T \<longrightarrow> v' = v) \<and>
         (\<not> nothrow_alloc T \<or> \<not> nothrow_ctor T a \<or> \<not> nothrow_copy_ctor T \<or> \<not> nothrow_move_ctor T)"
  using EmplaceBack_cases[OF assms] by simp


lemma PushBack_copy_Returned:
  assumes "holds v xs" "PushBack_copy T x v s = (Returned u, v', s')"
  shows "holds v' (xs @ [x]) \<and>
         Capacity v' = (if length xs = Capacity v then (if length xs = 0 then 1 else length xs * 2) else Capacity v)"
  using PushBack_copy_cases[OF assms] by simp

lemma PushBack_copy_Thrown:
  assumes "holds v xs" "PushBack_copy T x v s = (Thrown ex, v', s')"
  shows "Capacity v' = Capacity v \<and> (\<exists>ys. length ys = length xs \<and> holds v' ys) \<and>
         (copy_constructible T \<and> wf_type T \<longrightarrow> v' = v) \<and>
         (\<not> nothrow_alloc T \<or> \<not> nothrow_ctor T (ByCopy x) \<or> \<not> nothrow_copy_ctor T \<or> \<not> nothrow_move_ctor T)"
  using PushBack_copy_cases[OF assms] by simp


lemma PushBack_move_Returned:
  assumes "holds v xs" "PushBack_move T x v s = (Returned u, v', s')"
  shows "holds v' (xs @ [x]) \<and>
         Capacity v' = (if length xs = Capacity v then (if length xs = 0 then 1 else length xs * 2) else Capacity v)"
  using PushBack_move_cases[OF assms] by simp

lemma PushBack_move_Thrown:
  assumes "holds v xs" "PushBack_move T x v s = (Thrown ex, v', s')"
  shows "Capacity v' = Capacity v \<and> (\<exists>ys. length ys = length xs \<and> holds v' ys) \<and>
         (copy_constructible T \<and> wf_type T \<longrightarrow> v' = v) \<and>
         (\<not> nothrow_alloc T \<or> \<not> nothrow_ctor T (ByMove x) \<or> \<not> nothrow_copy_ctor T \<or> \<not> nothrow_move_ctor T)"
  using PushBack_move_cases[OF assms] by simp


lemma append1_Returned:
  assumes h: "holds v xs" and e: "append1 T ap v s = (Returned u, v', s')"
  shows "holds v' (xs @ [appended ap]) \<and>
         Capacity v' = (if length xs = Capacity v then (if length xs = 0 then 1 else length xs * 2) else Capacity v)"
proof (cases ap)
  case (push_back_copy x)
  with e PushBack_copy_Returned[OF h, of T x s u v' s'] show ?thesis by simp
next
  case (push_back_move x)
  with e PushBack_move_Returned[OF h, of T x s u v' s'] show ?thesis by simp
next
  case (emplace_back a)
  with e obtain r0 where eb: "EmplaceBack T a v s = (r0, v', s')" and r: "discard r0 = Returned ()"
    by (auto split: prod.splits)
  from r obtain i where "r0 = Returned i" by (cases r0) auto
  with eb EmplaceBack_Returned[OF h, of T a s i v' s'] emplace_back show ?thesis by simp
qed

lemma append1_Thrown:
  assumes h: "holds v xs" and e: "append1 T ap v s = (Thrown ex, v', s')"
  shows "Capacity v' = Capacity v \<and> (\<exists>ys. length ys = length xs \<and> holds v' ys) \<and>
         (copy_constructible T \<and> wf_type T \<longrightarrow> v' = v)"
proof (cases ap)
  case (push_back_copy x)
  with e PushBack_copy_Thrown[OF h, of T x s ex v' s'] show ?thesis by simp
next
  case (push_back_move x)
  with e PushBack_move_Thrown[OF h, of T x s ex v' s'] show ?thesis by simp
next
  case (emplace_back a)
  with e obtain r0 where eb: "EmplaceBack T a v s = (r0, v', s')" and r: "discard r0 = Thrown ex"
    by (auto split: prod.splits)
  from r have "r0 = Thrown ex" by (cases r0) auto
  with eb EmplaceBack_Thrown[OF h, of T a s ex v' s'] emplace_back show ?thesis by simp
qed

section \<open>Growth of the capacity\<close>

lemma appends_run:
  assumes "holds v xs"
    and "(length xs = 0 \<and> Capacity v = 0) \<or>
         ((\<exists>k. Capacity v = 2 ^ k) \<and> length xs \<le> Capacity v \<and> Capacity v < 2 * length xs)"
    and "appends T aps v s = (Returned (), v', s')"
  shows "holds v' (xs @ map appended aps) \<and>
         ((length xs + length aps = 0 \<and> Capacity v' = 0) \<or>
          ((\<exists>k. Capacity v' = 2 ^ k) \<and> length xs + length aps \<le> Capacity v' \<and>
           Capacity v' < 2 * (length xs + length aps)))"
  using assms
proof (induction aps arbitrary: v xs s)
  case Nil
  then show ?case by simp
next
  case (Cons ap aps)
  obtain r1 v1 s1 where a1: "append1 T ap v s = (r1, v1, s1)" by (metis prod_cases3)
  with Cons.prems(3) have r1: "r1 = Returned ()" and rest: "appends T aps v1 s1 = (Returned (), v', s')"
    by (auto split: outcome.splits)
  from append1_Returned[OF Cons.prems(1) a1[unfolded r1]] have h1: "holds v1 (xs @ [appended ap])"
    and c1: "Capacity v1 = (if length xs = Capacity v then (if length xs = 0 then 1 else length xs * 2) else Capacity v)"
    by auto
  have inv1: "(length (xs @ [appended ap]) = 0 \<and> Capacity v1 = 0) \<or>
         ((\<exists>k. Capacity v1 = 2 ^ k) \<and> length (xs @ [appended ap]) \<le> Capacity v1 \<and>
          Capacity v1 < 2 * length (xs @ [appended ap]))"
  proof (cases "length xs = Capacity v")
    case True
    show ?thesis
    proof (cases "length xs = 0")
      case True
      with \<open>length xs = Capacity v\<close> c1 have "Capacity v1 = 2 ^ 0" by simp
      then have "\<exists>k. Capacity v1 = 2 ^ k" by (rule exI)
      moreover have "Capacity v1 = 1" using True \<open>length xs = Capacity v\<close> c1 by simp
      ultimately show ?thesis using True by simp
    next
      case False
      with True Cons.prems(2) obtain k where k: "Capacity v = 2 ^ k" by auto
      from True False c1 have "Capacity v1 = 2 * length xs" by simp
      then have c2: "Capacity v1 = 2 * length xs" .
      from True False c1 k have "Capacity v1 = 2 ^ Suc k" by simp
      then have "\<exists>k. Capacity v1 = 2 ^ k" by (rule exI)
      with c2 False show ?thesis by (cases xs) auto
    qed
  next
    case False
    with c1 Cons.prems(1,2) show ?thesis by (auto simp: holds_def)
  qed
  from Cons.IH[OF h1 inv1 rest] show ?case by simp
qed

lemma least_power_of_two:
  assumes "c = (2::nat) ^ k" "c < 2 * n" "n \<le> 2 ^ j"
  shows "c \<le> 2 ^ j"
proof -
  from assms have "(2::nat) ^ k < 2 ^ Suc j" by simp
  then have "k < Suc j" by (rule power_less_imp_less_exp[rotated]) simp
  then have "k \<le> j" by simp
  then show ?thesis using assms(1) by (simp add: power_increasing)
qed

lemma holds_default: "holds Vector_default []"
  by (simp add: holds_def Vector_default_def RawMemory_default_def Capacity_def buf_def)

text \<open>
  Claim C2. A container built from the empty one by \<open>N \<ge> 1\<close> consecutive appends (any
  mix of the three append functions, each returning normally) has size \<open>N\<close> and a capacity
  that is a power of two, is at least \<open>N\<close>, and is the smallest such power. The lemma
  \<open>append1_Returned\<close> is the single step: capacity \<open>1\<close> on the first append, doubled
  whenever the size has reached the capacity, unchanged otherwise.
\<close>

theorem capacity_after_appends:
  assumes "appends T aps Vector_default s = (Returned (), v, s')" and "aps \<noteq> []"
  shows "Size v = length aps \<and>
         (\<exists>k. Capacity v = 2 ^ k \<and> length aps \<le> 2 ^ k \<and> (\<forall>j. length aps \<le> 2 ^ j \<longrightarrow> (2::nat) ^ k \<le> 2 ^ j))"
proof -
  have c0: "Capacity (Vector_default :: 'a Vector) = 0"
    by (simp add: Vector_default_def RawMemory_default_def Capacity_def)
  from appends_run[OF holds_default _ assms(1)] c0
  have h: "holds v (map appended aps)"
    and "(length aps = 0 \<and> Capacity v = 0) \<or>
          ((\<exists>k. Capacity v = 2 ^ k) \<and> length aps \<le> Capacity v \<and> Capacity v < 2 * length aps)"
    by auto
  with assms(2) obtain k where k: "Capacity v = 2 ^ k" "length aps \<le> Capacity v" "Capacity v < 2 * length aps"
    by auto
  have "\<forall>j. length aps \<le> 2 ^ j \<longrightarrow> (2::nat) ^ k \<le> 2 ^ j"
    using least_power_of_two[OF k(1) k(3)] k(1) by auto
  with k h show ?thesis by (auto simp: Size_def holds_def)
qed

theorem capacity_after_appends_witness:
  "appends int_type [push_back_copy 1, push_back_move 2, emplace_back (ByArgs 3)] Vector_default (start ())
     = (Returned (), vec [1, 2, 3] 1, \<lparr>world = (), freed = [[Raw], [Raw, Raw]]\<rparr>) \<and>
   Size (vec [1, 2, 3 :: int] 1) = 3 \<and> Capacity (vec [1, 2, 3 :: int] 1) = 4 \<and>
   (\<exists>k. Capacity (vec [1, 2, 3 :: int] 1) = 2 ^ k \<and> (3::nat) \<le> 2 ^ k \<and>
        (\<forall>j. (3::nat) \<le> 2 ^ j \<longrightarrow> (2::nat) ^ k \<le> 2 ^ j))"
proof -
  have run: "appends int_type [push_back_copy 1, push_back_move 2, emplace_back (ByArgs 3)] Vector_default (start ())
     = (Returned (), vec [1, 2, 3] 1, \<lparr>world = (), freed = [[Raw], [Raw, Raw]]\<rparr>)"
    by code_simp
  have "Capacity (vec [1, 2, 3 :: int] 1) = 4"
    by (simp add: Capacity_def vec_def)
  moreover have "Size (vec [1, 2, 3 :: int] 1) = 3"
    by (simp add: Size_def vec_def)
  moreover from capacity_after_appends[OF run]
  have "\<exists>k. Capacity (vec [1, 2, 3 :: int] 1) = 2 ^ k \<and> (3::nat) \<le> 2 ^ k \<and>
        (\<forall>j. (3::nat) \<le> 2 ^ j \<longrightarrow> (2::nat) ^ k \<le> 2 ^ j)"
    by (simp add: numeral_3_eq_3)
  ultimately show ?thesis using run by (intro conjI)
qed

section \<open>Copy construction\<close>

lemma at_index_holds:
  assumes "holds v xs" "i < length xs"
  shows "at_index v i = Returned (xs ! i)"
  using assms
  by (simp add: at_index_def holds_def RawMemory_index_def Capacity_def obj_at_def nth_append)

lemma uninitialized_copy_n_whole:
  assumes "uninitialized_copy_n T (map Obj xs @ Q) 0 (length xs) (replicate (length xs) Raw @ B) 0 s = (r, dst1, s1)"
  shows "freed s1 = freed s \<and>
     ((r = Returned () \<and> dst1 = map Obj xs @ B)
      \<or> (r = Thrown element_exception \<and> dst1 = replicate (length xs) Raw @ B \<and> \<not> nothrow_copy_ctor T))"
proof -
  from assms have "uninitialized_copy_n T ([] @ map Obj xs @ Q) (length ([]::'a slot list)) (length xs)
      ([] @ replicate (length xs) Raw @ B) (length ([]::'a slot list)) s = (r, dst1, s1)"
    by simp
  from uninitialized_copy_n_mid[OF this] show ?thesis by simp
qed

lemma Vector_copy_cases:
  assumes h: "holds v xs" and e: "Vector_copy T v s = (r, s')"
  shows "(\<exists>c. r = Returned c \<and> holds c xs \<and> Capacity c = length xs \<and> freed s' = freed s)
       \<or> ((\<exists>ex. r = Thrown ex) \<and> (\<not> nothrow_alloc T \<or> \<not> nothrow_copy_ctor T))"
proof -
  have sz: "size_m v = length xs" and bv: "buf v = map Obj xs @ replicate (Capacity v - length xs) Raw"
    using h by (auto simp: holds_def)
  obtain r0 s1 where rs: "RawMemory_sized T (length xs) s = (r0, s1)" by (metis surj_pair)
  from RawMemory_sized_cases[OF rs] show ?thesis
  proof (elim conjE disjE, goal_cases)
    case 2
    with e rs sz show ?case by (auto simp: Vector_copy_def)
  next
    case 1
    obtain r1 b s2 where uc:
      "uninitialized_copy_n T (map Obj xs @ replicate (Capacity v - length xs) Raw) 0 (length xs)
          (replicate (length xs) Raw @ []) 0 s1 = (r1, b, s2)"
      by (metis prod_cases3)
    from uninitialized_copy_n_whole[OF uc] show ?case
    proof (elim conjE disjE, goal_cases)
      case 1
      with e rs uc sz bv \<open>r0 = _\<close> \<open>freed s1 = freed s\<close>
      have "r = Returned \<lparr>data_m = \<lparr>buffer_m = map Obj xs, capacity_m = length xs\<rparr>, size_m = length xs\<rparr> \<and> freed s' = freed s"
        by (auto simp: Vector_copy_def)
      then show ?case by (auto simp: holds_def Capacity_def buf_def)
    next
      case 2
      with e rs uc sz bv \<open>r0 = _\<close> show ?case
        by (auto simp: Vector_copy_def)
    qed
  qed
qed

text \<open>
  Claim C10. A copy-constructed container has the elements of its source, index by index,
  and a capacity equal to the source's size; when the source has spare capacity the copy's
  capacity is smaller. The copy constructor returns whenever neither the allocation nor a
  copy constructor of \<^verbatim>\<open>T\<close> throws.
\<close>

theorem copy_construct_capacity_is_size:
  assumes h: "holds v xs"
  shows "(\<forall>c s'. Vector_copy T v s = (Returned c, s') \<longrightarrow>
            holds c xs \<and> Size c = Size v \<and> Capacity c = Size v \<and>
            (\<forall>i < Size v. at_index c i = at_index v i) \<and>
            (Size v < Capacity v \<longrightarrow> Capacity c < Capacity v)) \<and>
         (nothrow_alloc T \<and> nothrow_copy_ctor T \<longrightarrow> (\<exists>c s'. Vector_copy T v s = (Returned c, s')))"
proof (intro conjI)
  show "\<forall>c s'. Vector_copy T v s = (Returned c, s') \<longrightarrow>
            holds c xs \<and> Size c = Size v \<and> Capacity c = Size v \<and>
            (\<forall>i < Size v. at_index c i = at_index v i) \<and>
            (Size v < Capacity v \<longrightarrow> Capacity c < Capacity v)"
  proof (intro allI impI)
    fix c s' assume e: "Vector_copy T v s = (Returned c, s')"
    from Vector_copy_cases[OF h e] have hc: "holds c xs" and cc: "Capacity c = length xs" by auto
    have sv: "Size v = length xs" using h by (simp add: Size_def holds_def)
    have sc: "Size c = length xs" using hc by (simp add: Size_def holds_def)
    have ix: "\<forall>i < Size v. at_index c i = at_index v i"
      using at_index_holds[OF hc] at_index_holds[OF h] sv by simp
    from hc cc sv sc ix show "holds c xs \<and> Size c = Size v \<and> Capacity c = Size v \<and>
            (\<forall>i < Size v. at_index c i = at_index v i) \<and>
            (Size v < Capacity v \<longrightarrow> Capacity c < Capacity v)"
      by simp
  qed
next
  show "nothrow_alloc T \<and> nothrow_copy_ctor T \<longrightarrow> (\<exists>c s'. Vector_copy T v s = (Returned c, s'))"
  proof
    assume n: "nothrow_alloc T \<and> nothrow_copy_ctor T"
    obtain r s' where e: "Vector_copy T v s = (r, s')" by (metis surj_pair)
    from Vector_copy_cases[OF h e] n e show "\<exists>c s'. Vector_copy T v s = (Returned c, s')" by auto
  qed
qed

theorem copy_construct_capacity_is_size_witness:
  "holds (vec [1, 2, 3 :: int] 4) [1, 2, 3] \<and>
   Vector_copy int_type (vec [1, 2, 3] 4) (start ()) = (Returned (vec [1, 2, 3] 0), start ()) \<and>
   nothrow_alloc int_type \<and> nothrow_copy_ctor int_type \<and>
   Size (vec [1, 2, 3 :: int] 4) = 3 \<and> Capacity (vec [1, 2, 3 :: int] 4) = 7 \<and>
   Capacity (vec [1, 2, 3 :: int] 0) = 3 \<and>
   at_index (vec [1, 2, 3 :: int] 0) 1 = at_index (vec [1, 2, 3] 4) 1"
proof -
  have h: "holds (vec [1, 2, 3 :: int] 4) [1, 2, 3]"
    by (simp add: holds_def vec_def Capacity_def buf_def)
  have run: "Vector_copy int_type (vec [1, 2, 3] 4) (start ()) = (Returned (vec [1, 2, 3] 0), start ())"
    by code_simp
  have n: "nothrow_alloc int_type \<and> nothrow_copy_ctor int_type"
    by (simp add: nothrow_alloc_def nothrow_copy_ctor_def int_type_def)
  have s: "Size (vec [1, 2, 3 :: int] 4) = 3" "Capacity (vec [1, 2, 3 :: int] 4) = 7"
    by (simp_all add: Size_def Capacity_def vec_def)
  from copy_construct_capacity_is_size[OF h, of int_type "start ()"] run s
  have "Capacity (vec [1, 2, 3 :: int] 0) = 3 \<and>
        at_index (vec [1, 2, 3 :: int] 0) 1 = at_index (vec [1, 2, 3] 4) 1"
    by simp
  with h run n s show ?thesis by simp
qed

section \<open>The strong guarantee of the appends\<close>

lemma EmplaceBack_ctor_throws:
  assumes h: "holds v xs" and c: "size_m v = Capacity v"
    and rs: "RawMemory_sized T (if size_m v = 0 then 1 else size_m v * 2) s = (Returned new_data, s1)"
    and pn: "placement_new T (buffer_m new_data) (size_m v) a s1 = (Thrown ex, nb, s2)"
  shows "EmplaceBack T a v s = (Thrown ex, v, RawMemory_dtor (new_data\<lparr>buffer_m := nb\<rparr>) s2)"
proof -
  from RawMemory_sized_cases[OF rs]
  have "capacity_m new_data = (if size_m v = 0 then 1 else size_m v * 2)" by auto
  then have "RawMemory_plus new_data (size_m v) = Some (size_m v)"
    by (simp add: RawMemory_plus_def)
  with c rs pn show ?thesis by (simp add: EmplaceBack_def)
qed

lemma PushBack_copy_ctor_throws:
  assumes h: "holds v xs" and c: "size_m v = Capacity v"
    and rs: "RawMemory_sized T (if size_m v = 0 then 1 else size_m v * 2) s = (Returned new_data, s1)"
    and pn: "placement_new T (buffer_m new_data) (size_m v) (ByCopy x) s1 = (Thrown ex, nb, s2)"
  shows "PushBack_copy T x v s = (Thrown ex, v, RawMemory_dtor (new_data\<lparr>buffer_m := nb\<rparr>) s2)"
proof -
  from RawMemory_sized_cases[OF rs]
  have "capacity_m new_data = (if size_m v = 0 then 1 else size_m v * 2)" by auto
  then have "RawMemory_plus new_data (size_m v) = Some (size_m v)"
    by (simp add: RawMemory_plus_def)
  with c rs pn show ?thesis by (simp add: PushBack_copy_def)
qed

lemma PushBack_move_ctor_throws:
  assumes h: "holds v xs" and c: "size_m v = Capacity v"
    and rs: "RawMemory_sized T (if size_m v = 0 then 1 else size_m v * 2) s = (Returned new_data, s1)"
    and pn: "placement_new T (buffer_m new_data) (size_m v) (ByMove x) s1 = (Thrown ex, nb, s2)"
  shows "PushBack_move T x v s = (Thrown ex, v, RawMemory_dtor (new_data\<lparr>buffer_m := nb\<rparr>) s2)"
proof -
  from RawMemory_sized_cases[OF rs]
  have "capacity_m new_data = (if size_m v = 0 then 1 else size_m v * 2)" by auto
  then have "RawMemory_plus new_data (size_m v) = Some (size_m v)"
    by (simp add: RawMemory_plus_def)
  with c rs pn show ?thesis by (simp add: PushBack_move_def)
qed

text \<open>
  Claim C1, as amended. Let the container be full, so that the append reallocates.
  (1) For every element type: when the constructor of the new element throws in the new
  block, the append throws the same exception and the container is the one before the call
  (same size, same capacity, same block, same elements).
  (2) For an element type that can be copied (and whose traits are honest): whatever throws
  during the append (the allocation, the construction of the new element, or the migration
  of the existing elements) the container is the one before the call.
\<close>

theorem append_strong_guarantee:
  assumes h: "holds v xs" and c: "size_m v = Capacity v"
  shows
    "(\<forall>new_data s1 ex nb s2.
        RawMemory_sized T (if size_m v = 0 then 1 else size_m v * 2) s = (Returned new_data, s1) \<longrightarrow>
        (placement_new T (buffer_m new_data) (size_m v) a s1 = (Thrown ex, nb, s2) \<longrightarrow>
           (\<exists>s'. EmplaceBack T a v s = (Thrown ex, v, s'))) \<and>
        (placement_new T (buffer_m new_data) (size_m v) (ByCopy x) s1 = (Thrown ex, nb, s2) \<longrightarrow>
           (\<exists>s'. PushBack_copy T x v s = (Thrown ex, v, s'))) \<and>
        (placement_new T (buffer_m new_data) (size_m v) (ByMove x) s1 = (Thrown ex, nb, s2) \<longrightarrow>
           (\<exists>s'. PushBack_move T x v s = (Thrown ex, v, s')))) \<and>
     (copy_constructible T \<and> wf_type T \<longrightarrow>
        (\<forall>ex v' s'.
           (EmplaceBack T a v s = (Thrown ex, v', s') \<longrightarrow> v' = v) \<and>
           (PushBack_copy T x v s = (Thrown ex, v', s') \<longrightarrow> v' = v) \<and>
           (PushBack_move T x v s = (Thrown ex, v', s') \<longrightarrow> v' = v)))"
proof (intro conjI)
  show "\<forall>new_data s1 ex nb s2.
        RawMemory_sized T (if size_m v = 0 then 1 else size_m v * 2) s = (Returned new_data, s1) \<longrightarrow>
        (placement_new T (buffer_m new_data) (size_m v) a s1 = (Thrown ex, nb, s2) \<longrightarrow>
           (\<exists>s'. EmplaceBack T a v s = (Thrown ex, v, s'))) \<and>
        (placement_new T (buffer_m new_data) (size_m v) (ByCopy x) s1 = (Thrown ex, nb, s2) \<longrightarrow>
           (\<exists>s'. PushBack_copy T x v s = (Thrown ex, v, s'))) \<and>
        (placement_new T (buffer_m new_data) (size_m v) (ByMove x) s1 = (Thrown ex, nb, s2) \<longrightarrow>
           (\<exists>s'. PushBack_move T x v s = (Thrown ex, v, s')))"
  proof (intro allI impI conjI)
    fix new_data s1 ex nb s2
    assume rs: "RawMemory_sized T (if size_m v = 0 then 1 else size_m v * 2) s = (Returned new_data, s1)"
      and pn: "placement_new T (buffer_m new_data) (size_m v) a s1 = (Thrown ex, nb, s2)"
    from EmplaceBack_ctor_throws[OF h c rs pn]
    show "\<exists>s'. EmplaceBack T a v s = (Thrown ex, v, s')" by (rule exI)
  next
    fix new_data s1 ex nb s2
    assume rs: "RawMemory_sized T (if size_m v = 0 then 1 else size_m v * 2) s = (Returned new_data, s1)"
      and pn: "placement_new T (buffer_m new_data) (size_m v) (ByCopy x) s1 = (Thrown ex, nb, s2)"
    from PushBack_copy_ctor_throws[OF h c rs pn]
    show "\<exists>s'. PushBack_copy T x v s = (Thrown ex, v, s')" by (rule exI)
  next
    fix new_data s1 ex nb s2
    assume rs: "RawMemory_sized T (if size_m v = 0 then 1 else size_m v * 2) s = (Returned new_data, s1)"
      and pn: "placement_new T (buffer_m new_data) (size_m v) (ByMove x) s1 = (Thrown ex, nb, s2)"
    from PushBack_move_ctor_throws[OF h c rs pn]
    show "\<exists>s'. PushBack_move T x v s = (Thrown ex, v, s')" by (rule exI)
  qed
next
  show "copy_constructible T \<and> wf_type T \<longrightarrow>
        (\<forall>ex v' s'.
           (EmplaceBack T a v s = (Thrown ex, v', s') \<longrightarrow> v' = v) \<and>
           (PushBack_copy T x v s = (Thrown ex, v', s') \<longrightarrow> v' = v) \<and>
           (PushBack_move T x v s = (Thrown ex, v', s') \<longrightarrow> v' = v))"
    using EmplaceBack_Thrown[OF h] PushBack_copy_Thrown[OF h] PushBack_move_Thrown[OF h]
    by blast
qed

theorem append_strong_guarantee_witness:
  "holds (vec [10, 20 :: int] 0) [10, 20] \<and> size_m (vec [10, 20 :: int] 0) = Capacity (vec [10, 20 :: int] 0) \<and>
   copy_constructible copy_type \<and> wf_type copy_type \<and>
   fst (PushBack_copy copy_type 15 (vec [10, 20] 0) (start 2)) = Thrown element_exception \<and>
   fst (snd (PushBack_copy copy_type 15 (vec [10, 20] 0) (start 2))) = vec [10, 20] 0 \<and>
   RawMemory_sized copy_type 4 (start 0) = (Returned \<lparr>buffer_m = replicate 4 Raw, capacity_m = 4\<rparr>, start 0) \<and>
   placement_new copy_type (replicate 4 Raw) 2 (ByCopy 15) (start 0) = (Thrown element_exception, replicate 4 Raw, start 0) \<and>
   (\<exists>s'. PushBack_copy copy_type 15 (vec [10, 20] 0) (start 0) = (Thrown element_exception, vec [10, 20] 0, s'))"
proof -
  have h: "holds (vec [10, 20 :: int] 0) [10, 20]"
    by (simp add: holds_def vec_def Capacity_def buf_def)
  have c: "size_m (vec [10, 20 :: int] 0) = Capacity (vec [10, 20 :: int] 0)"
    by (simp add: vec_def Capacity_def)
  have t: "copy_constructible copy_type \<and> wf_type copy_type"
    by (simp add: copy_type_def wf_type_def)
  have f: "fst (PushBack_copy copy_type 15 (vec [10, 20] 0) (start 2)) = Thrown element_exception"
    by code_simp
  then have run: "PushBack_copy copy_type 15 (vec [10, 20] 0) (start 2)
     = (Thrown element_exception, fst (snd (PushBack_copy copy_type 15 (vec [10, 20] 0) (start 2))),
        snd (snd (PushBack_copy copy_type 15 (vec [10, 20] 0) (start 2))))"
    by (metis prod.collapse)
  have rs: "RawMemory_sized copy_type (if size_m (vec [10, 20 :: int] 0) = 0 then 1 else size_m (vec [10, 20 :: int] 0) * 2) (start 0)
      = (Returned \<lparr>buffer_m = replicate 4 Raw, capacity_m = 4\<rparr>, start 0)"
    by code_simp
  have pn: "placement_new copy_type (buffer_m \<lparr>buffer_m = replicate 4 Raw, capacity_m = 4\<rparr>) (size_m (vec [10, 20 :: int] 0)) (ByCopy 15) (start 0)
      = (Thrown element_exception, replicate 4 Raw, start 0)"
    by code_simp
  note inst2 = append_strong_guarantee[OF h c, of copy_type "start 2" "ByCopy 15" 15]
  note inst0 = append_strong_guarantee[OF h c, of copy_type "start 0" "ByCopy 15" 15]
  from inst2 t run
  have same: "fst (snd (PushBack_copy copy_type 15 (vec [10, 20] 0) (start 2))) = vec [10, 20] 0"
    by blast
  from inst0 rs pn have "\<exists>s'. PushBack_copy copy_type 15 (vec [10, 20] 0) (start 0) = (Thrown element_exception, vec [10, 20] 0, s')"
    by blast
  moreover have "RawMemory_sized copy_type 4 (start 0) = (Returned \<lparr>buffer_m = replicate 4 Raw, capacity_m = 4\<rparr>, start 0)"
    by code_simp
  moreover have "placement_new copy_type (replicate 4 Raw) 2 (ByCopy 15) (start 0) = (Thrown element_exception, replicate 4 Raw, start 0)"
    by code_simp
  ultimately show ?thesis using h c t f same by (intro conjI) simp_all
qed

text \<open>
  The claim as stated fails for an element type that cannot be copied and whose move
  constructor may throw: \<^verbatim>\<open>CopyOrMove\<close> then moves, and when the second move throws the
  first element of the old block is already moved-from.
\<close>

theorem append_strong_guarantee_counterexample:
  "holds (vec [10, 20 :: int] 0) [10, 20] \<and> size_m (vec [10, 20 :: int] 0) = Capacity (vec [10, 20 :: int] 0) \<and>
   wf_type move_only_type \<and>
   PushBack_move move_only_type 15 (vec [10, 20] 0) (start 2)
     = (Thrown element_exception, vec [0, 20] 0, \<lparr>world = 0, freed = [[Raw, Raw, Obj 15, Raw]]\<rparr>) \<and>
   vec [0, 20 :: int] 0 \<noteq> vec [10, 20] 0"
proof -
  have "PushBack_move move_only_type 15 (vec [10, 20] 0) (start 2)
     = (Thrown element_exception, vec [0, 20] 0, \<lparr>world = 0, freed = [[Raw, Raw, Obj 15, Raw]]\<rparr>)"
    by code_simp
  then show ?thesis
    by (simp add: holds_def vec_def Capacity_def buf_def wf_type_def move_only_type_def)
qed

section \<open>Reserve\<close>










section \<open>Erase\<close>

lemma split_at:
  "i < length xs \<Longrightarrow> map Obj xs = map Obj (take i xs) @ Obj (xs ! i) # map Obj (drop (Suc i) xs)"
  by (metis Cons_nth_drop_Suc append_take_drop_id list.simps(9) map_append)

lemma Erase_steps:
  assumes sz: "0 < size_m v" "size_m v \<le> Capacity v" "pos < size_m v"
    and mr: "move_range T (buf v) (pos + 1) (size_m v - (pos + 1)) pos s = (Returned (), b, s1)"
  shows "Erase T pos v s = (Returned pos, (with_buffer v (destroy_at b (size_m v - 1)))\<lparr>size_m := size_m v - 1\<rparr>, s1)"
  using assms
  by (simp add: Erase_def end_it_def begin_it_def RawMemory_plus_def RawMemory_index_def Capacity_def Let_def)

lemma Erase_throws:
  assumes sz: "0 < size_m v" "size_m v \<le> Capacity v" "pos < size_m v"
    and mr: "move_range T (buf v) (pos + 1) (size_m v - (pos + 1)) pos s = (Thrown ex, b, s1)"
  shows "Erase T pos v s = (Thrown ex, with_buffer v b, s1)"
  using assms
  by (simp add: Erase_def end_it_def begin_it_def RawMemory_plus_def RawMemory_index_def Capacity_def Let_def)

lemma Erase_cases:
  assumes h: "holds v xs" and i: "pos < length xs" and e: "Erase T pos v s = (r, v', s')"
  shows "(r = Returned pos \<and> holds v' (take pos xs @ drop (Suc pos) xs) \<and> Capacity v' = Capacity v)
       \<or> (r = Thrown element_exception \<and> \<not> nothrow_move_assign T \<and> Capacity v' = Capacity v \<and>
           (\<exists>ys. length ys = length xs \<and> holds v' ys))"
proof -
  let ?A = "map Obj (take pos xs)" and ?ys = "drop (Suc pos) xs"
  let ?B = "replicate (Capacity v - length xs) (Raw :: 'a slot)"
  have sz: "size_m v = length xs" and le: "length xs \<le> Capacity v"
    and bv: "buf v = map Obj xs @ ?B"
    using h by (auto simp: holds_def)
  have bv2: "buf v = ?A @ Obj (xs ! pos) # map Obj ?ys @ ?B"
    using bv split_at[OF i] by simp
  have lA: "length ?A = pos" using i by simp
  have ly: "length ?ys = length xs - (pos + 1)" by simp
  obtain r0 b s1 where mr:
    "move_range T (?A @ Obj (xs ! pos) # map Obj ?ys @ ?B) (Suc (length ?A)) (length ?ys) (length ?A) s = (r0, b, s1)"
    by (metis prod_cases3)
  have mr': "move_range T (buf v) (pos + 1) (size_m v - (pos + 1)) pos s = (r0, b, s1)"
    using mr bv2 lA ly sz by simp
  from move_range_mid[OF mr] show ?thesis
  proof (elim conjE disjE exE, goal_cases)
    case (1 c)
    from mr' 1 have "move_range T (buf v) (pos + 1) (size_m v - (pos + 1)) pos s = (Returned (), b, s1)"
      by simp
    moreover have "0 < size_m v" "size_m v \<le> Capacity v" "pos < size_m v"
      using sz le i by auto
    ultimately have "Erase T pos v s = (Returned pos, (with_buffer v (destroy_at b (size_m v - 1)))\<lparr>size_m := size_m v - 1\<rparr>, s1)"
      by (intro Erase_steps)
    with sz e
    have r: "r = Returned pos" and v': "v' = (with_buffer v (destroy_at b (length xs - 1)))\<lparr>size_m := length xs - 1\<rparr>"
      by auto
    have "length (?A @ map Obj ?ys) = length xs - 1" using i by simp
    then have "destroy_at b (length xs - 1) = (?A @ map Obj ?ys) @ Raw # ?B"
      using 1 destroy_at_mid[of "?A @ map Obj ?ys" "Obj c" ?B] by simp
    with v' have "v' = (with_buffer v (map Obj (take pos xs @ ?ys) @ Raw # ?B))\<lparr>size_m := length xs - 1\<rparr>"
      by simp
    moreover have "Raw # ?B = replicate (Capacity v - (length xs - 1)) Raw"
      using i le by (simp add: Suc_diff_le flip: replicate_Suc)
    ultimately have "holds v' (take pos xs @ ?ys) \<and> Capacity v' = Capacity v"
      using i le by (simp add: holds_def with_buffer_def buf_def Capacity_def min_def)
    with r show ?case by simp
  next
    case (2 zs)
    from mr' 2 have "move_range T (buf v) (pos + 1) (size_m v - (pos + 1)) pos s = (Thrown element_exception, b, s1)"
      by simp
    moreover have "0 < size_m v" "size_m v \<le> Capacity v" "pos < size_m v"
      using sz le i by auto
    ultimately have "Erase T pos v s = (Thrown element_exception, with_buffer v b, s1)"
      by (intro Erase_throws)
    with e 2 have rv: "r = Thrown element_exception \<and> v' = with_buffer v (map Obj (take pos xs @ zs) @ ?B)"
      by simp
    have lz: "length (take pos xs @ zs) = length xs" using 2 i by simp
    have "holds v' (take pos xs @ zs)" using rv h lz holds_with_buffer[of v xs "take pos xs @ zs"] by simp
    with lz have ex: "\<exists>ys. length ys = length xs \<and> holds v' ys" by blast
    have cap: "Capacity v' = Capacity v" using rv by (simp add: Capacity_def with_buffer_def)
    from rv have "r = Thrown element_exception" by simp
    with ex cap \<open>\<not> nothrow_move_assign T\<close> show ?case by blast
  qed
qed

lemma Erase_Returned:
  assumes "holds v xs" "pos < length xs" "Erase T pos v s = (Returned r, v', s')"
  shows "r = pos \<and> holds v' (take pos xs @ drop (Suc pos) xs) \<and> Capacity v' = Capacity v"
  using Erase_cases[OF assms] by simp



text \<open>
  Claim C5. For a container with elements \<open>xs\<close> and a position \<open>pos\<close> in \<open>[begin, end)\<close>:
  when \<^verbatim>\<open>Erase(pos)\<close> returns, it returns \<open>pos\<close>, the elements are \<open>xs\<close> without the one at
  \<open>pos\<close> in the same order, the size is one less, the last slot of the old range is
  uninitialized again and the capacity is unchanged; erasing the only element leaves the
  empty container. The result is the move loop over \<open>[pos + 1, end)\<close> onto \<open>pos\<close>, then
  the destruction of the last slot, then the decrement of the size. It returns whenever the
  move assignment of \<^verbatim>\<open>T\<close> does not throw.
\<close>

theorem erase_contract:
  assumes h: "holds v xs" and i: "pos < length xs"
  shows
    "(\<forall>r v' s'. Erase T pos v s = (Returned r, v', s') \<longrightarrow>
        r = pos \<and> holds v' (take pos xs @ drop (Suc pos) xs) \<and> Size v' = Size v - 1 \<and>
        Capacity v' = Capacity v \<and> (length xs = 1 \<longrightarrow> holds v' [] \<and> Size v' = 0)) \<and>
     (\<forall>b s1. move_range T (buf v) (pos + 1) (Size v - (pos + 1)) pos s = (Returned (), b, s1) \<longrightarrow>
        Erase T pos v s
          = (Returned pos, (with_buffer v (destroy_at b (Size v - 1)))\<lparr>size_m := Size v - 1\<rparr>, s1)) \<and>
     (nothrow_move_assign T \<longrightarrow> (\<exists>v' s'. Erase T pos v s = (Returned pos, v', s')))"
proof (intro conjI)
  show "\<forall>r v' s'. Erase T pos v s = (Returned r, v', s') \<longrightarrow>
        r = pos \<and> holds v' (take pos xs @ drop (Suc pos) xs) \<and> Size v' = Size v - 1 \<and>
        Capacity v' = Capacity v \<and> (length xs = 1 \<longrightarrow> holds v' [] \<and> Size v' = 0)"
  proof (intro allI impI)
    fix r v' s' assume e: "Erase T pos v s = (Returned r, v', s')"
    note er = Erase_Returned[OF h i e]
    from er have hv: "holds v' (take pos xs @ drop (Suc pos) xs)" by simp
    have sv: "Size v = length xs" using h by (simp add: Size_def holds_def)
    have sv': "Size v' = length xs - 1" using hv i by (simp add: Size_def holds_def)
    have one: "length xs = 1 \<longrightarrow> holds v' [] \<and> Size v' = 0"
    proof
      assume l: "length xs = 1"
      with i have e0: "take pos xs @ drop (Suc pos) xs = []" by simp
      from hv have "holds v' []" unfolding e0 .
      moreover from sv' l have "Size v' = 0" by simp
      ultimately show "holds v' [] \<and> Size v' = 0" by (rule conjI)
    qed
    from er sv sv' one show "r = pos \<and> holds v' (take pos xs @ drop (Suc pos) xs) \<and> Size v' = Size v - 1 \<and>
        Capacity v' = Capacity v \<and> (length xs = 1 \<longrightarrow> holds v' [] \<and> Size v' = 0)"
      by simp
  qed
next
  have "0 < size_m v" "size_m v \<le> Capacity v" "pos < size_m v"
    using h i by (auto simp: holds_def)
  then show "\<forall>b s1. move_range T (buf v) (pos + 1) (Size v - (pos + 1)) pos s = (Returned (), b, s1) \<longrightarrow>
        Erase T pos v s
          = (Returned pos, (with_buffer v (destroy_at b (Size v - 1)))\<lparr>size_m := Size v - 1\<rparr>, s1)"
    unfolding Size_def using Erase_steps[of v pos T s] by blast
next
  show "nothrow_move_assign T \<longrightarrow> (\<exists>v' s'. Erase T pos v s = (Returned pos, v', s'))"
  proof
    assume n: "nothrow_move_assign T"
    obtain r v' s' where e: "Erase T pos v s = (r, v', s')" by (metis prod_cases3)
    from Erase_cases[OF h i e] n have "r = Returned pos" by auto
    with e show "\<exists>v' s'. Erase T pos v s = (Returned pos, v', s')" by auto
  qed
qed

theorem erase_contract_witness:
  "holds (vec [1, 2, 3, 4 :: int] 0) [1, 2, 3, 4] \<and> (1::nat) < length [1, 2, 3, 4 :: int] \<and>
   Erase int_type 1 (vec [1, 2, 3, 4] 0) (start ()) = (Returned 1, vec [1, 3, 4] 1, start ()) \<and>
   holds (vec [1, 3, 4 :: int] 1) [1, 3, 4] \<and> Size (vec [1, 3, 4 :: int] 1) = 3 \<and>
   Capacity (vec [1, 3, 4 :: int] 1) = 4 \<and>
   holds (vec [7 :: int] 0) [7] \<and>
   Erase int_type 0 (vec [7] 0) (start ()) = (Returned 0, vec [] 1, start ()) \<and>
   holds (vec ([] :: int list) 1) [] \<and> Size (vec ([] :: int list) 1) = 0 \<and>
   nothrow_move_assign int_type \<and>
   (\<exists>v' s'. Erase int_type 1 (vec [1, 2, 3, 4] 0) (start ()) = (Returned 1, v', s'))"
proof -
  have h: "holds (vec [1, 2, 3, 4 :: int] 0) [1, 2, 3, 4]"
    by (simp add: holds_def vec_def Capacity_def buf_def)
  have i: "(1::nat) < length [1, 2, 3, 4 :: int]" by simp
  have run: "Erase int_type 1 (vec [1, 2, 3, 4] 0) (start ()) = (Returned 1, vec [1, 3, 4] 1, start ())"
    by code_simp
  have h1: "holds (vec [7 :: int] 0) [7]"
    by (simp add: holds_def vec_def Capacity_def buf_def)
  have i1: "(0::nat) < length [7 :: int]" by simp
  have run1: "Erase int_type 0 (vec [7] 0) (start ()) = (Returned 0, vec [] 1, start ())"
    by code_simp
  have n: "nothrow_move_assign int_type"
    by (simp add: nothrow_move_assign_def int_type_def)
  have c4: "Capacity (vec [1, 2, 3, 4 :: int] 0) = 4" "Size (vec [1, 2, 3, 4 :: int] 0) = 4"
    by (simp_all add: Capacity_def Size_def vec_def)
  from erase_contract[OF h i, of int_type "start ()"] run c4
  have a: "holds (vec [1, 3, 4 :: int] 1) [1, 3, 4] \<and> Size (vec [1, 3, 4 :: int] 1) = 3 \<and>
           Capacity (vec [1, 3, 4 :: int] 1) = 4"
    by simp
  have l1: "length [7 :: int] = 1" by simp
  from erase_contract[OF h1 i1, of int_type "start ()"] run1 l1
  have b: "holds (vec ([] :: int list) 1) [] \<and> Size (vec ([] :: int list) 1) = 0"
    by blast
  from erase_contract[OF h i, of int_type "start ()"] n
  have c: "\<exists>v' s'. Erase int_type 1 (vec [1, 2, 3, 4] 0) (start ()) = (Returned 1, v', s')"
    by blast
  from h i run a h1 run1 b n c show ?thesis by (intro conjI) simp_all
qed

section \<open>Emplace\<close>

lemma end_it_holds: "holds v xs \<Longrightarrow> end_it v = Some (length xs)"
  by (simp add: end_it_def RawMemory_plus_def holds_def Capacity_def)

lemma Emplace_at_end:
  assumes "holds v xs" "pos = length xs"
  shows "Emplace T pos a v s = EmplaceBack T a v s"
  using end_it_holds[OF assms(1)] assms(2) by (simp add: Emplace_def)

text \<open>The branch without reallocation, step by step.\<close>

lemma Emplace_inplace_steps:
  assumes e: "end_it v = Some (size_m v)" and p: "pos < size_m v" and c: "size_m v < Capacity v"
    and ct: "call (T_ctor T a) s = (True, s1)"
    and l: "obj_at (buf v) (size_m v - 1) = Some x"
    and pn: "placement_new T (buf v) (size_m v) (ByMove x) s1 = (Returned (), b1, s2)"
    and mb: "move_backward T (b1[size_m v - 1 := Obj (moved_from T x)]) pos (size_m v - 1 - pos) (size_m v) s2
               = (Returned (), b3, s3)"
    and y: "obj_at b3 pos = Some y"
    and ma: "call (move_assign_ok T y (arg_value a)) s3 = (True, s4)"
  shows "Emplace T pos a v s
           = (Returned pos, (with_buffer v (b3[pos := Obj (arg_value a)]))\<lparr>size_m := size_m v + 1\<rparr>, s4)"
proof -
  have i1: "RawMemory_index (data_m v) (size_m v - 1) = Some (size_m v - 1)"
    using p c by (simp add: RawMemory_index_def Capacity_def)
  have i2: "RawMemory_index (data_m v) pos = Some pos"
    using p c by (simp add: RawMemory_index_def Capacity_def)
  have n: "\<not> size_m v - 1 < pos" "size_m v \<noteq> 0" "pos \<noteq> size_m v" "size_m v \<noteq> Capacity v"
    using p c by auto
  show ?thesis
    unfolding Emplace_def
    by (simp add: e n i1 i2 ct l pn mb y ma begin_it_def Let_def del: One_nat_def diff_diff_left)
qed


lemma Emplace_inplace_unfold:
  assumes e: "end_it v = Some (size_m v)" and p: "pos < size_m v" and c: "size_m v < Capacity v"
  shows "Emplace T pos a v s =
     (case call (T_ctor T a) s of
        (ok, s1) \<Rightarrow>
          if \<not> ok then (Thrown element_exception, v, s1)
          else
            (case obj_at (buf v) (size_m v - 1) of
               None \<Rightarrow> (Violated, v, s1)
             | Some x \<Rightarrow>
                 (case placement_new T (buf v) (size_m v) (ByMove x) s1 of
                    (Returned u, b1, s2) \<Rightarrow>
                      (case move_backward T (b1[size_m v - 1 := Obj (moved_from T x)]) pos
                              (size_m v - 1 - pos) (size_m v) s2 of
                         (Returned u', b3, s3) \<Rightarrow>
                           (case obj_at b3 pos of
                              None \<Rightarrow> (Violated, with_buffer v b3, s3)
                            | Some y \<Rightarrow>
                                (case call (move_assign_ok T y (arg_value a)) s3 of
                                   (ok1, s4) \<Rightarrow>
                                     if ok1 then
                                       (Returned pos,
                                        (with_buffer v (b3[pos := Obj (arg_value a)]))\<lparr>size_m := size_m v + 1\<rparr>,
                                        s4)
                                     else (Thrown element_exception, with_buffer v b3, s4)))
                       | (r, b3, s3) \<Rightarrow> (failure r, with_buffer v b3, s3))
                  | (r, b1, s2) \<Rightarrow> (failure r, with_buffer v b1, s2))))"
proof -
  have i1: "RawMemory_index (data_m v) (size_m v - 1) = Some (size_m v - 1)"
    using p c by (simp add: RawMemory_index_def Capacity_def)
  have i2: "RawMemory_index (data_m v) pos = Some pos"
    using p c by (simp add: RawMemory_index_def Capacity_def)
  have n: "\<not> size_m v - 1 < pos" "size_m v \<noteq> 0" "pos \<noteq> size_m v" "size_m v \<noteq> Capacity v"
    using p c by auto
  show ?thesis
    unfolding Emplace_def
    by (simp add: e n i1 i2 begin_it_def Let_def del: One_nat_def diff_diff_left
             cong: prod.case_cong option.case_cong outcome.case_cong if_cong)
qed

lemma butlast_split:
  assumes "pos < length xs"
  shows "map Obj xs = map Obj (take pos xs) @ map Obj (drop pos (butlast xs)) @ [Obj (last xs)]"
proof -
  from assms have ne: "xs \<noteq> []" by auto
  have "take pos xs = take pos (butlast xs)"
    using assms by (simp add: take_butlast)
  then have "take pos xs @ drop pos (butlast xs) @ [last xs] = butlast xs @ [last xs]"
    by simp
  also have "\<dots> = xs" using ne by simp
  finally have "xs = take pos xs @ drop pos (butlast xs) @ [last xs]" by simp
  then have "map Obj xs = map Obj (take pos xs @ drop pos (butlast xs) @ [last xs])" by simp
  then show ?thesis by simp
qed

lemma drop_butlast_last:
  assumes "pos < length xs"
  shows "drop pos (butlast xs) @ [last xs] = drop pos xs"
proof -
  from assms have ne: "xs \<noteq> []" by auto
  have "drop pos (butlast xs @ [last xs]) = drop pos (butlast xs) @ [last xs]"
    using assms by simp
  then show ?thesis using ne by simp
qed

lemma nothrow_move_ctor_ByMove: "nothrow_move_ctor T \<Longrightarrow> nothrow_ctor T (ByMove x)"
  by (simp add: nothrow_move_ctor_def nothrow_ctor_def)

lemma nothrow_copy_ctor_ByCopy: "nothrow_copy_ctor T \<Longrightarrow> nothrow_ctor T (ByCopy x)"
  by (simp add: nothrow_copy_ctor_def nothrow_ctor_def)

lemma Emplace_inplace_cases:
  assumes h: "holds v xs" and p: "pos < length xs" and c: "length xs < Capacity v"
    and e: "Emplace T pos a v s = (r, v', s')"
  shows "(r = Returned pos \<and> holds v' (take pos xs @ arg_value a # drop pos xs) \<and> Capacity v' = Capacity v)
       \<or> (r = Thrown element_exception \<and> Capacity v' = Capacity v \<and> size_m v' = size_m v \<and>
           (\<not> nothrow_ctor T a \<or> \<not> nothrow_move_ctor T \<or> \<not> nothrow_move_assign T))"
proof -
  let ?A = "map Obj (take pos xs)" and ?ys = "drop pos (butlast xs)"
  let ?l = "last xs"
  let ?R = "replicate (Capacity v - Suc (length xs)) (Raw :: 'a slot)"
  have sz: "size_m v = length xs" using h by (simp add: holds_def)
  have k: "Capacity v - length xs = Suc (Capacity v - Suc (length xs))" using c by simp
  have bv: "buf v = map Obj xs @ Raw # ?R"
    using holds_buf[OF h] by (simp only: k replicate_Suc)
  have bv2: "buf v = (?A @ map Obj ?ys) @ Obj ?l # Raw # ?R"
    using bv butlast_split[OF p] by simp
  have lA: "length (?A @ map Obj ?ys) = size_m v - 1" using p sz by simp
  have uf: "Emplace T pos a v s =
     (case call (T_ctor T a) s of
        (ok, s1) \<Rightarrow>
          if \<not> ok then (Thrown element_exception, v, s1)
          else
            (case obj_at (buf v) (size_m v - 1) of
               None \<Rightarrow> (Violated, v, s1)
             | Some x \<Rightarrow>
                 (case placement_new T (buf v) (size_m v) (ByMove x) s1 of
                    (Returned u, b1, s2) \<Rightarrow>
                      (case move_backward T (b1[size_m v - 1 := Obj (moved_from T x)]) pos
                              (size_m v - 1 - pos) (size_m v) s2 of
                         (Returned u', b3, s3) \<Rightarrow>
                           (case obj_at b3 pos of
                              None \<Rightarrow> (Violated, with_buffer v b3, s3)
                            | Some y \<Rightarrow>
                                (case call (move_assign_ok T y (arg_value a)) s3 of
                                   (ok1, s4) \<Rightarrow>
                                     if ok1 then
                                       (Returned pos,
                                        (with_buffer v (b3[pos := Obj (arg_value a)]))\<lparr>size_m := size_m v + 1\<rparr>,
                                        s4)
                                     else (Thrown element_exception, with_buffer v b3, s4)))
                       | (r, b3, s3) \<Rightarrow> (failure r, with_buffer v b3, s3))
                  | (r, b1, s2) \<Rightarrow> (failure r, with_buffer v b1, s2))))"
    using end_it_holds[OF h] p c sz by (intro Emplace_inplace_unfold) simp_all
  have cap_wb: "Capacity (with_buffer v b) = Capacity v \<and> size_m (with_buffer v b) = size_m v" for b
    by (simp add: Capacity_def with_buffer_def)
  obtain ok s1 where ct: "call (T_ctor T a) s = (ok, s1)" by (metis surj_pair)
  show ?thesis
  proof (cases ok)
    case False
    from call_False[of "T_ctor T a" s s1] ct False have "\<not> nothrow_ctor T a"
      by (auto simp: nothrow_ctor_def)
    moreover from e uf ct False have "r = Thrown element_exception \<and> v' = v" by simp
    ultimately show ?thesis by simp
  next
    case True
    have l: "obj_at (buf v) (size_m v - 1) = Some ?l"
      using obj_at_mid[of "?A @ map Obj ?ys" ?l "Raw # ?R"] bv2 lA by simp
    obtain r1 b1 s2 where pn0: "placement_new T (map Obj xs @ Raw # ?R) (length (map Obj xs)) (ByMove ?l) s1 = (r1, b1, s2)"
      by (metis prod_cases3)
    then have pn: "placement_new T (buf v) (size_m v) (ByMove ?l) s1 = (r1, b1, s2)"
      using bv sz by simp
    from placement_new_mid[OF pn0] show ?thesis
    proof (elim conjE disjE, goal_cases)
      case 2
      then have "\<not> nothrow_move_ctor T" using nothrow_move_ctor_ByMove[of T "last xs"] by blast
      moreover from e uf ct True l pn 2 have "r = Thrown element_exception \<and> v' = with_buffer v b1"
        by simp
      ultimately show ?case using cap_wb by simp
    next
      case 1
      have b1: "b1 = (?A @ map Obj ?ys) @ Obj ?l # Obj ?l # ?R"
        using 1 butlast_split[OF p] by simp
      have b2: "b1[size_m v - 1 := Obj (moved_from T ?l)] = ?A @ map Obj ?ys @ Obj (moved_from T ?l) # (Obj ?l # ?R)"
      proof -
        have "b1[size_m v - 1 := Obj (moved_from T ?l)]
                = ((?A @ map Obj ?ys) @ Obj ?l # Obj ?l # ?R)[length (?A @ map Obj ?ys) := Obj (moved_from T ?l)]"
          unfolding b1 lA ..
        also have "\<dots> = (?A @ map Obj ?ys) @ Obj (moved_from T ?l) # Obj ?l # ?R"
          by (rule list_update_length)
        finally show ?thesis by simp
      qed
      have d: "size_m v = Suc (length ?A + length ?ys)" "size_m v - 1 - pos = length ?ys" "pos = length ?A"
        using p sz by auto
      obtain r3 b3 s3 where mb0:
        "move_backward T (?A @ map Obj ?ys @ Obj (moved_from T ?l) # (Obj ?l # ?R)) (length ?A) (length ?ys)
            (Suc (length ?A + length ?ys)) s2 = (r3, b3, s3)"
        by (metis prod_cases3)
      have mb: "move_backward T (b1[size_m v - 1 := Obj (moved_from T ?l)]) pos (size_m v - 1 - pos) (size_m v) s2 = (r3, b3, s3)"
      proof -
        have "Suc (length xs - Suc 0) = length xs" using p by simp
        with mb0 p sz show ?thesis unfolding b2 by (simp add: min_def)
      qed
      from move_backward_mid[OF mb0] show ?case
      proof (elim conjE disjE exE, goal_cases)
        case (2 zs)
        from e uf ct True l pn \<open>r1 = Returned ()\<close> mb 2
        have "r = Thrown element_exception \<and> v' = with_buffer v b3"
          by (simp del: One_nat_def diff_diff_left)
        with 2 cap_wb show ?case by simp
      next
        case (1 y)
        have y: "obj_at b3 pos = Some y"
          using 1 obj_at_mid[of ?A y "map Obj ?ys @ Obj ?l # ?R"] p by simp
        obtain ok1 s4 where ma: "call (move_assign_ok T y (arg_value a)) s3 = (ok1, s4)"
          by (metis surj_pair)
        show ?case
        proof (cases ok1)
          case False
          from call_False[of "move_assign_ok T y (arg_value a)" s3 s4] ma False
          have "\<not> nothrow_move_assign T" by (auto simp: nothrow_move_assign_def)
          moreover from e uf ct True l pn \<open>r1 = Returned ()\<close> mb 1 y ma False
          have "r = Thrown element_exception \<and> v' = with_buffer v b3"
            by (simp del: One_nat_def diff_diff_left)
          ultimately show ?thesis using cap_wb by simp
        next
          case ok: True
          from e uf ct True l pn \<open>r1 = Returned ()\<close> mb 1 y ma ok
          have rv: "r = Returned pos \<and> v' = (with_buffer v (b3[pos := Obj (arg_value a)]))\<lparr>size_m := size_m v + 1\<rparr>"
            by (simp del: One_nat_def diff_diff_left)
          have "b3[pos := Obj (arg_value a)] = ?A @ Obj (arg_value a) # map Obj ?ys @ Obj ?l # ?R"
            using 1 p by (simp add: list_update_append)
          also have "\<dots> = map Obj (take pos xs @ arg_value a # (?ys @ [?l])) @ ?R"
            by simp
          also have "\<dots> = map Obj (take pos xs @ arg_value a # drop pos xs) @ ?R"
            by (simp only: drop_butlast_last[OF p])
          finally have b: "b3[pos := Obj (arg_value a)] = map Obj (take pos xs @ arg_value a # drop pos xs) @ ?R" .
          have "holds v' (take pos xs @ arg_value a # drop pos xs) \<and> Capacity v' = Capacity v"
            using rv b p c sz
            by (simp add: holds_def with_buffer_def buf_def Capacity_def min_def)
          with rv show ?thesis by simp
        qed
      qed
    qed
  qed
qed

lemma RawMemory_dtor_nonempty:
  "b \<noteq> [] \<Longrightarrow> RawMemory_dtor (m\<lparr>buffer_m := b\<rparr>) s = s\<lparr>freed := freed s @ [b]\<rparr>"
  by (simp add: RawMemory_dtor_def Deallocate_def)

lemma Emplace_realloc_unfold:
  assumes e: "end_it v = Some (size_m v)" and p: "pos < size_m v" and c: "size_m v = Capacity v"
  shows "Emplace T pos a v s =
     (case RawMemory_sized T (size_m v * 2) s of
        (Returned new_data, s1) \<Rightarrow>
          (case RawMemory_plus new_data pos of
             None \<Rightarrow> (Violated, v, RawMemory_dtor new_data s1)
           | Some p0 \<Rightarrow>
               (case placement_new T (buffer_m new_data) p0 a s1 of
                  (Returned u, nb1, s2) \<Rightarrow>
                    (case CopyOrMove T (buf v) 0 pos nb1 0 s2 of
                       (Returned u', ob1, nb2, s3) \<Rightarrow>
                         (case RawMemory_plus new_data (pos + 1) of
                            None \<Rightarrow> (Violated, with_buffer v ob1, RawMemory_dtor (new_data\<lparr>buffer_m := nb2\<rparr>) s3)
                          | Some to \<Rightarrow>
                              (case CopyOrMove T ob1 pos (size_m v - pos) nb2 to s3 of
                                 (Returned u'', ob2, nb3, s4) \<Rightarrow>
                                   (Returned pos,
                                    v\<lparr>data_m := (data_m v)\<lparr>buffer_m := nb3, capacity_m := capacity_m new_data\<rparr>,
                                      size_m := size_m v + 1\<rparr>,
                                    RawMemory_dtor (new_data\<lparr>buffer_m := ob2, capacity_m := capacity_m (data_m v)\<rparr>) s4)
                               | (r, ob2, nb3, s4) \<Rightarrow>
                                   (failure r, with_buffer v ob2,
                                    RawMemory_dtor (new_data\<lparr>buffer_m := destroy_n nb3 0 (pos + 1)\<rparr>) s4)))
                     | (r, ob1, nb2, s3) \<Rightarrow>
                         (case RawMemory_index new_data pos of
                            None \<Rightarrow> (Violated, with_buffer v ob1, RawMemory_dtor (new_data\<lparr>buffer_m := nb2\<rparr>) s3)
                          | Some i \<Rightarrow>
                              (failure r, with_buffer v ob1,
                               RawMemory_dtor (new_data\<lparr>buffer_m := destroy_at nb2 i\<rparr>) s3)))
                | (r, nb1, s2) \<Rightarrow> (failure r, v, RawMemory_dtor (new_data\<lparr>buffer_m := nb1\<rparr>) s2)))
      | (r, s1) \<Rightarrow> (failure r, v, s1))"
proof -
  have n: "size_m v \<noteq> 0" "pos \<noteq> size_m v" "\<not> size_m v < pos" "pos \<le> Capacity v"
    using p c by auto
  have i: "RawMemory_plus (data_m v) pos = Some pos"
    using n by (simp add: RawMemory_plus_def Capacity_def)
  show ?thesis
    unfolding Emplace_def
    by (simp add: e n c[symmetric] i begin_it_def Let_def RawMemory_Swap_def with_buffer_def
             del: One_nat_def
             cong: prod.case_cong option.case_cong outcome.case_cong if_cong)
qed


lemma Emplace_realloc_stages:
  assumes h: "holds v xs" and p: "pos < length xs" and c: "length xs = Capacity v"
  shows
    "(\<forall>ex s1. RawMemory_sized T (length xs * 2) s = (Thrown ex, s1) \<longrightarrow>
        Emplace T pos a v s = (Thrown ex, v, s1) \<and> freed s1 = freed s \<and> \<not> nothrow_alloc T) \<and>
     (\<forall>nd s1. RawMemory_sized T (length xs * 2) s = (Returned nd, s1) \<longrightarrow>
        buffer_m nd = replicate (length xs * 2) Raw \<and> freed s1 = freed s \<and>
        (\<forall>nb1 s2. placement_new T (buffer_m nd) pos a s1 \<noteq> (Violated, nb1, s2)) \<and>
        (\<forall>ex nb1 s2. placement_new T (buffer_m nd) pos a s1 = (Thrown ex, nb1, s2) \<longrightarrow>
           Emplace T pos a v s = (Thrown ex, v, s2\<lparr>freed := freed s @ [replicate (length xs * 2) Raw]\<rparr>) \<and>
           \<not> nothrow_ctor T a) \<and>
        (\<forall>nb1 s2. placement_new T (buffer_m nd) pos a s1 = (Returned (), nb1, s2) \<longrightarrow>
           (\<forall>ob1 nb2 s3. CopyOrMove T (buf v) 0 pos nb1 0 s2 \<noteq> (Violated, ob1, nb2, s3)) \<and>
           (\<forall>ex ob1 nb2 s3. CopyOrMove T (buf v) 0 pos nb1 0 s2 = (Thrown ex, ob1, nb2, s3) \<longrightarrow>
              Emplace T pos a v s
                = (Thrown ex, with_buffer v ob1, s3\<lparr>freed := freed s @ [replicate (length xs * 2) Raw]\<rparr>) \<and>
              (\<exists>ys. length ys = length xs \<and> ob1 = map Obj ys) \<and>
              (if migrates_by_copy T then ob1 = buf v \<and> \<not> nothrow_copy_ctor T else \<not> nothrow_move_ctor T)) \<and>
           (\<forall>ob1 nb2 s3. CopyOrMove T (buf v) 0 pos nb1 0 s2 = (Returned (), ob1, nb2, s3) \<longrightarrow>
              (\<forall>ob2 nb3 s4.
                 CopyOrMove T ob1 pos (size_m v - pos) nb2 (pos + 1) s3 \<noteq> (Violated, ob2, nb3, s4)) \<and>
              (\<forall>ex ob2 nb3 s4.
                 CopyOrMove T ob1 pos (size_m v - pos) nb2 (pos + 1) s3 = (Thrown ex, ob2, nb3, s4) \<longrightarrow>
                 Emplace T pos a v s
                   = (Thrown ex, with_buffer v ob2, s4\<lparr>freed := freed s @ [replicate (length xs * 2) Raw]\<rparr>) \<and>
                 (\<exists>ys. length ys = length xs - pos \<and> ob2 = replicate pos Raw @ map Obj ys) \<and>
                 (if migrates_by_copy T
                  then ob2 = replicate pos Raw @ map Obj (drop pos xs) \<and> \<not> nothrow_copy_ctor T
                  else \<not> nothrow_move_ctor T)) \<and>
              (\<forall>ob2 nb3 s4.
                 CopyOrMove T ob1 pos (size_m v - pos) nb2 (pos + 1) s3 = (Returned (), ob2, nb3, s4) \<longrightarrow>
                 (\<exists>v'. Emplace T pos a v s
                          = (Returned pos, v', s4\<lparr>freed := freed s @ [replicate (length xs) Raw]\<rparr>) \<and>
                       holds v' (take pos xs @ arg_value a # drop pos xs) \<and>
                       Capacity v' = length xs * 2)))))"
proof -
  let ?N = "length xs * 2" and ?x = "arg_value a"
  let ?pre = "take pos xs" and ?suf = "drop pos xs"
  have sz: "size_m v = length xs" and bv: "buf v = map Obj xs"
    using h c by (auto simp: holds_def)
  have cap: "capacity_m (data_m v) = length xs" using c by (simp add: Capacity_def)
  have lt: "pos < ?N" "pos + 1 \<le> ?N" "0 < length xs" using p by auto
  have bvs: "map Obj xs = map Obj ?pre @ map Obj ?suf"
    by (simp flip: map_append)
  have lp: "length ?pre = pos" using p by simp
  have ls: "length ?suf = length xs - pos" by simp
  have uf: "Emplace T pos a v s =
     (case RawMemory_sized T (length xs * 2) s of
        (Returned new_data, s1) \<Rightarrow>
          (case RawMemory_plus new_data pos of
             None \<Rightarrow> (Violated, v, RawMemory_dtor new_data s1)
           | Some p0 \<Rightarrow>
               (case placement_new T (buffer_m new_data) p0 a s1 of
                  (Returned u, nb1, s2) \<Rightarrow>
                    (case CopyOrMove T (buf v) 0 pos nb1 0 s2 of
                       (Returned u', ob1, nb2, s3) \<Rightarrow>
                         (case RawMemory_plus new_data (pos + 1) of
                            None \<Rightarrow> (Violated, with_buffer v ob1, RawMemory_dtor (new_data\<lparr>buffer_m := nb2\<rparr>) s3)
                          | Some to \<Rightarrow>
                              (case CopyOrMove T ob1 pos (size_m v - pos) nb2 to s3 of
                                 (Returned u'', ob2, nb3, s4) \<Rightarrow>
                                   (Returned pos,
                                    v\<lparr>data_m := (data_m v)\<lparr>buffer_m := nb3, capacity_m := capacity_m new_data\<rparr>,
                                      size_m := size_m v + 1\<rparr>,
                                    RawMemory_dtor (new_data\<lparr>buffer_m := ob2, capacity_m := capacity_m (data_m v)\<rparr>) s4)
                               | (r, ob2, nb3, s4) \<Rightarrow>
                                   (failure r, with_buffer v ob2,
                                    RawMemory_dtor (new_data\<lparr>buffer_m := destroy_n nb3 0 (pos + 1)\<rparr>) s4)))
                     | (r, ob1, nb2, s3) \<Rightarrow>
                         (case RawMemory_index new_data pos of
                            None \<Rightarrow> (Violated, with_buffer v ob1, RawMemory_dtor (new_data\<lparr>buffer_m := nb2\<rparr>) s3)
                          | Some i \<Rightarrow>
                              (failure r, with_buffer v ob1,
                               RawMemory_dtor (new_data\<lparr>buffer_m := destroy_at nb2 i\<rparr>) s3)))
                | (r, nb1, s2) \<Rightarrow> (failure r, v, RawMemory_dtor (new_data\<lparr>buffer_m := nb1\<rparr>) s2)))
      | (r, s1) \<Rightarrow> (failure r, v, s1))"
    using Emplace_realloc_unfold[of v pos T a s] end_it_holds[OF h] p c sz by simp
  have neN: "replicate ?N (Raw :: 'a slot) \<noteq> []" and neL: "replicate (length xs) (Raw :: 'a slot) \<noteq> []"
    using lt by auto
  show ?thesis
  proof (intro conjI allI impI)
    fix ex s1 assume rs: "RawMemory_sized T ?N s = (Thrown ex, s1)"
    from uf rs show "Emplace T pos a v s = (Thrown ex, v, s1)" by simp
    from RawMemory_sized_cases[OF rs] show "freed s1 = freed s" "\<not> nothrow_alloc T" by auto
  next
    fix nd s1 assume rs: "RawMemory_sized T ?N s = (Returned nd, s1)"
    from RawMemory_sized_cases[OF rs]
    have nd: "nd = \<lparr>buffer_m = replicate ?N Raw, capacity_m = ?N\<rparr>" and f1: "freed s1 = freed s"
      by auto
    from nd show "buffer_m nd = replicate ?N Raw" by simp
    from f1 show "freed s1 = freed s" .
    have ix: "RawMemory_plus nd pos = Some pos" "RawMemory_plus nd (pos + 1) = Some (pos + 1)"
      "RawMemory_index nd pos = Some pos"
      using nd lt by (simp_all add: RawMemory_plus_def RawMemory_index_def)
    {
      fix nb1 s2
      show "placement_new T (buffer_m nd) pos a s1 \<noteq> (Violated, nb1, s2)"
        using placement_new_fresh[OF lt(1), of T a s1 Violated nb1 s2] nd by auto
    }
    {
      fix ex nb1 s2 assume pn: "placement_new T (buffer_m nd) pos a s1 = (Thrown ex, nb1, s2)"
      then have pn': "placement_new T (replicate ?N Raw) pos a s1 = (Thrown ex, nb1, s2)"
        using nd by simp
      from placement_new_fresh[OF lt(1) pn']
      have f2: "freed s2 = freed s1" and nb1: "nb1 = replicate ?N Raw" and nt: "\<not> nothrow_ctor T a"
        by auto
      from uf rs ix pn have "Emplace T pos a v s = (Thrown ex, v, RawMemory_dtor (nd\<lparr>buffer_m := nb1\<rparr>) s2)"
        by simp
      then show "Emplace T pos a v s = (Thrown ex, v, s2\<lparr>freed := freed s @ [replicate ?N Raw]\<rparr>)"
        using nb1 f2 f1 neN by (simp add: RawMemory_dtor_nonempty)
      from nt show "\<not> nothrow_ctor T a" .
    }
    {
      fix nb1 s2 assume pn: "placement_new T (buffer_m nd) pos a s1 = (Returned (), nb1, s2)"
      then have pn': "placement_new T (replicate ?N Raw) pos a s1 = (Returned (), nb1, s2)"
        using nd by simp
      from placement_new_fresh[OF lt(1) pn']
      have f2: "freed s2 = freed s1" and nb1: "nb1 = replicate pos Raw @ Obj ?x # replicate (?N - Suc pos) Raw"
        by auto
      have split1: "replicate ?N (Raw :: 'a slot) = replicate pos Raw @ Raw # replicate (?N - Suc pos) Raw"
        using lt(1) by (rule replicate_split)
      {
        fix r2 ob1 nb2 s3 assume cm: "CopyOrMove T (buf v) 0 pos nb1 0 s2 = (r2, ob1, nb2, s3)"
        then have "CopyOrMove T (map Obj ?pre @ map Obj ?suf) 0 (length ?pre)
                     (replicate (length ?pre) Raw @ Obj ?x # replicate (?N - Suc pos) Raw) 0 s2 = (r2, ob1, nb2, s3)"
          using bv bvs nb1 lp by simp
        note CopyOrMove_whole[OF this]
      } note stage1 = this
      {
        fix ob1 nb2 s3
        show "CopyOrMove T (buf v) 0 pos nb1 0 s2 \<noteq> (Violated, ob1, nb2, s3)"
          using stage1[of Violated ob1 nb2 s3] by auto
      }
      {
        fix ex ob1 nb2 s3 assume cm: "CopyOrMove T (buf v) 0 pos nb1 0 s2 = (Thrown ex, ob1, nb2, s3)"
        from stage1[OF cm] obtain ys where
          f3: "freed s3 = freed s2" and exe: "ex = element_exception"
          and nb2: "nb2 = replicate pos Raw @ Obj ?x # replicate (?N - Suc pos) Raw"
          and ys: "length ys = pos" "ob1 = map Obj ys @ map Obj ?suf"
          and mode: "if migrates_by_copy T then ob1 = map Obj ?pre @ map Obj ?suf \<and> \<not> nothrow_copy_ctor T
                     else \<not> nothrow_move_ctor T"
          using lp by auto
        have "destroy_at nb2 pos = replicate pos Raw @ Raw # replicate (?N - Suc pos) Raw"
          unfolding nb2 using destroy_at_mid[of "replicate pos Raw" "Obj ?x" "replicate (?N - Suc pos) Raw"]
          by simp
        then have d: "destroy_at nb2 pos = replicate ?N Raw" using split1 by simp
        from uf rs ix pn cm have
          "Emplace T pos a v s = (Thrown ex, with_buffer v ob1, RawMemory_dtor (nd\<lparr>buffer_m := destroy_at nb2 pos\<rparr>) s3)"
          by simp
        then show "Emplace T pos a v s
                = (Thrown ex, with_buffer v ob1, s3\<lparr>freed := freed s @ [replicate ?N Raw]\<rparr>)"
          using d f3 f2 f1 neN by (simp add: RawMemory_dtor_nonempty)
        have "length (ys @ ?suf) = length xs \<and> ob1 = map Obj (ys @ ?suf)"
          using ys p by simp
        then show "\<exists>ys. length ys = length xs \<and> ob1 = map Obj ys" by blast
        show "if migrates_by_copy T then ob1 = buf v \<and> \<not> nothrow_copy_ctor T else \<not> nothrow_move_ctor T"
          using mode bv bvs by (simp split: if_splits)
      }
      {
        fix ob1 nb2 s3 assume cm: "CopyOrMove T (buf v) 0 pos nb1 0 s2 = (Returned (), ob1, nb2, s3)"
        from stage1[OF cm] have f3: "freed s3 = freed s2"
          and ob1: "ob1 = replicate pos Raw @ map Obj ?suf"
          and nb2: "nb2 = map Obj ?pre @ Obj ?x # replicate (?N - Suc pos) Raw"
          using lp by auto
        have split2: "replicate (?N - Suc pos) (Raw :: 'a slot)
                        = replicate (length ?suf) Raw @ replicate (?N - Suc (length xs)) Raw"
          using p by (simp flip: replicate_add)
        let ?A = "map Obj ?pre @ [Obj ?x]" and ?B = "replicate (?N - Suc (length xs)) (Raw :: 'a slot)"
        have lA: "length ?A = pos + 1" using lp by simp
        {
          fix r4 ob2 nb3 s4
          assume cm2: "CopyOrMove T ob1 pos (size_m v - pos) nb2 (pos + 1) s3 = (r4, ob2, nb3, s4)"
          have "CopyOrMove T (replicate pos Raw @ map Obj ?suf @ []) (length (replicate pos (Raw :: 'a slot)))
                  (length ?suf) (?A @ replicate (length ?suf) Raw @ ?B) (length ?A) s3 = (r4, ob2, nb3, s4)"
            using cm2 ob1 nb2 split2 sz lA by simp
          note CopyOrMove_mid[OF this]
        } note stage2 = this
        {
          fix ob2 nb3 s4
          show "CopyOrMove T ob1 pos (size_m v - pos) nb2 (pos + 1) s3 \<noteq> (Violated, ob2, nb3, s4)"
            using stage2[of Violated ob2 nb3 s4] by auto
        }
        {
          fix ex ob2 nb3 s4
          assume cm2: "CopyOrMove T ob1 pos (size_m v - pos) nb2 (pos + 1) s3 = (Thrown ex, ob2, nb3, s4)"
          from stage2[OF cm2] obtain ys where
            f4: "freed s4 = freed s3" and nb3: "nb3 = ?A @ replicate (length ?suf) Raw @ ?B"
            and ys: "length ys = length ?suf" "ob2 = replicate pos Raw @ map Obj ys @ []"
            and mode: "if migrates_by_copy T
                       then ob2 = replicate pos Raw @ map Obj ?suf @ [] \<and> \<not> nothrow_copy_ctor T
                       else \<not> nothrow_move_ctor T"
            by auto
          have "destroy_n ([] @ ?A @ (replicate (length ?suf) Raw @ ?B)) (length ([] :: 'a slot list)) (length ?A)
                  = [] @ replicate (length ?A) Raw @ (replicate (length ?suf) Raw @ ?B)"
            by (rule destroy_n_mid)
          then have "destroy_n nb3 0 (pos + 1) = replicate (pos + 1) Raw @ replicate (?N - Suc pos) Raw"
            using nb3 lA split2 by simp
          also have "\<dots> = replicate ((pos + 1) + (?N - Suc pos)) Raw"
            by (simp only: replicate_add)
          also have "(pos + 1) + (?N - Suc pos) = ?N" using lt by simp
          finally have d: "destroy_n nb3 0 (pos + 1) = replicate ?N Raw" .
          from uf rs ix pn cm cm2 have
            "Emplace T pos a v s
               = (Thrown ex, with_buffer v ob2, RawMemory_dtor (nd\<lparr>buffer_m := destroy_n nb3 0 (pos + 1)\<rparr>) s4)"
            by simp
          then show "Emplace T pos a v s
                   = (Thrown ex, with_buffer v ob2, s4\<lparr>freed := freed s @ [replicate ?N Raw]\<rparr>)"
            using d f4 f3 f2 f1 neN by (simp add: RawMemory_dtor_nonempty)
          from ys show "\<exists>ys. length ys = length xs - pos \<and> ob2 = replicate pos Raw @ map Obj ys"
            by auto
          show "if migrates_by_copy T
                  then ob2 = replicate pos Raw @ map Obj (drop pos xs) \<and> \<not> nothrow_copy_ctor T
                  else \<not> nothrow_move_ctor T"
            using mode by (simp split: if_splits)
        }
        {
          fix ob2 nb3 s4
          assume cm2: "CopyOrMove T ob1 pos (size_m v - pos) nb2 (pos + 1) s3 = (Returned (), ob2, nb3, s4)"
          from stage2[OF cm2] have f4: "freed s4 = freed s3"
            and ob2: "ob2 = replicate pos Raw @ replicate (length ?suf) Raw @ []"
            and nb3: "nb3 = ?A @ map Obj ?suf @ ?B"
            by auto
          have ob2': "ob2 = replicate (length xs) Raw"
            using ob2 p by (simp flip: replicate_add)
          let ?v' = "v\<lparr>data_m := (data_m v)\<lparr>buffer_m := nb3, capacity_m := capacity_m nd\<rparr>,
                        size_m := size_m v + 1\<rparr>"
          from uf rs ix pn cm cm2 have
            "Emplace T pos a v s
               = (Returned pos, ?v', RawMemory_dtor (nd\<lparr>buffer_m := ob2, capacity_m := capacity_m (data_m v)\<rparr>) s4)"
            by simp
          moreover have "RawMemory_dtor (nd\<lparr>buffer_m := ob2, capacity_m := capacity_m (data_m v)\<rparr>) s4
                           = s4\<lparr>freed := freed s @ [replicate (length xs) Raw]\<rparr>"
            using ob2' neL f4 f3 f2 f1 by (simp add: RawMemory_dtor_def Deallocate_def)
          moreover have "holds ?v' (?pre @ ?x # ?suf) \<and> Capacity ?v' = ?N"
            using nb3 nd sz p by (simp add: holds_def Capacity_def buf_def)
          ultimately show "\<exists>v'. Emplace T pos a v s
                          = (Returned pos, v', s4\<lparr>freed := freed s @ [replicate (length xs) Raw]\<rparr>) \<and>
                       holds v' (take pos xs @ arg_value a # drop pos xs) \<and>
                       Capacity v' = length xs * 2"
            by auto
        }
      }
    }
  qed
qed


lemma RawMemory_sized_not_Violated: "RawMemory_sized T n s \<noteq> (Violated, s1)"
  using RawMemory_sized_cases[of T n s Violated s1] by auto

lemma Emplace_realloc_cases:
  assumes h: "holds v xs" and p: "pos < length xs" and c: "length xs = Capacity v"
    and e: "Emplace T pos a v s = (r, v', s')"
  shows "(r = Returned pos \<and> holds v' (take pos xs @ arg_value a # drop pos xs) \<and>
          Capacity v' = length xs * 2)
       \<or> ((\<exists>ex. r = Thrown ex) \<and> Capacity v' = Capacity v \<and> size_m v' = size_m v \<and>
           (\<not> nothrow_alloc T \<or> \<not> nothrow_ctor T a \<or> \<not> nothrow_copy_ctor T \<or> \<not> nothrow_move_ctor T))"
proof -
  note st = Emplace_realloc_stages[OF h p c, of T s a]
  have cap_wb: "Capacity (with_buffer v b) = Capacity v \<and> size_m (with_buffer v b) = size_m v" for b
    by (simp add: Capacity_def with_buffer_def)
  obtain r0 s1 where rs: "RawMemory_sized T (length xs * 2) s = (r0, s1)" by (metis surj_pair)
  show ?thesis
  proof (cases r0)
    case Violated
    with rs RawMemory_sized_not_Violated[of T "length xs * 2" s s1] show ?thesis by simp
  next
    case (Thrown ex)
    with rs have rs': "RawMemory_sized T (length xs * 2) s = (Thrown ex, s1)" by simp
    from st[THEN conjunct1, rule_format, OF rs'] e
    have "r = Thrown ex \<and> v' = v \<and> \<not> nothrow_alloc T" by simp
    then show ?thesis by simp
  next
    case (Returned nd)
    with rs have rs': "RawMemory_sized T (length xs * 2) s = (Returned nd, s1)" by simp
    note st1 = st[THEN conjunct2, rule_format, OF rs']
    note nv1 = st1[THEN conjunct2, THEN conjunct2, THEN conjunct1, rule_format]
    note thr1 = st1[THEN conjunct2, THEN conjunct2, THEN conjunct2, THEN conjunct1, rule_format]
    obtain r1 nb1 s2 where pn: "placement_new T (buffer_m nd) pos a s1 = (r1, nb1, s2)"
      by (metis prod_cases3)
    show ?thesis
    proof (cases r1)
      case Violated
      with pn nv1[of nb1 s2] show ?thesis by simp
    next
      case (Thrown ex)
      with pn have pn': "placement_new T (buffer_m nd) pos a s1 = (Thrown ex, nb1, s2)" by simp
      from thr1[OF pn'] e have "r = Thrown ex \<and> v' = v \<and> \<not> nothrow_ctor T a" by simp
      then show ?thesis by simp
    next
      case (Returned u)
      with pn have pn': "placement_new T (buffer_m nd) pos a s1 = (Returned (), nb1, s2)" by simp
      note st2 = st1[THEN conjunct2, THEN conjunct2, THEN conjunct2, THEN conjunct2, rule_format, OF pn']
      note nv2 = st2[THEN conjunct1, rule_format]
      note thr2 = st2[THEN conjunct2, THEN conjunct1, rule_format]
      obtain r2 ob1 nb2 s3 where cm: "CopyOrMove T (buf v) 0 pos nb1 0 s2 = (r2, ob1, nb2, s3)"
        by (metis prod_cases4)
      show ?thesis
      proof (cases r2)
        case Violated
        with cm nv2[of ob1 nb2 s3] show ?thesis by simp
      next
        case (Thrown ex)
        with cm have cm': "CopyOrMove T (buf v) 0 pos nb1 0 s2 = (Thrown ex, ob1, nb2, s3)" by simp
        note t = thr2[OF cm']
        from t e have "r = Thrown ex \<and> v' = with_buffer v ob1" by simp
        moreover from t have "\<not> nothrow_copy_ctor T \<or> \<not> nothrow_move_ctor T"
          by (auto split: if_splits)
        ultimately show ?thesis using cap_wb[of ob1] by auto
      next
        case (Returned u')
        with cm have cm': "CopyOrMove T (buf v) 0 pos nb1 0 s2 = (Returned (), ob1, nb2, s3)" by simp
        note st3 = st2[THEN conjunct2, THEN conjunct2, rule_format, OF cm']
        note nv3 = st3[THEN conjunct1, rule_format]
        note thr3 = st3[THEN conjunct2, THEN conjunct1, rule_format]
        note ret3 = st3[THEN conjunct2, THEN conjunct2, rule_format]
        obtain r4 ob2 nb3 s4 where cm2: "CopyOrMove T ob1 pos (size_m v - pos) nb2 (pos + 1) s3 = (r4, ob2, nb3, s4)"
          by (metis prod_cases4)
        show ?thesis
        proof (cases r4)
          case Violated
          with cm2 nv3[of ob2 nb3 s4] show ?thesis by simp
        next
          case (Thrown ex)
          with cm2 have cm2': "CopyOrMove T ob1 pos (size_m v - pos) nb2 (pos + 1) s3 = (Thrown ex, ob2, nb3, s4)"
            by simp
          note t = thr3[OF cm2']
          from t e have "r = Thrown ex \<and> v' = with_buffer v ob2" by simp
          moreover from t have "\<not> nothrow_copy_ctor T \<or> \<not> nothrow_move_ctor T"
            by (auto split: if_splits)
          ultimately show ?thesis using cap_wb[of ob2] by auto
        next
          case (Returned u'')
          with cm2 have cm2': "CopyOrMove T ob1 pos (size_m v - pos) nb2 (pos + 1) s3 = (Returned (), ob2, nb3, s4)"
            by simp
          from ret3[OF cm2'] e show ?thesis by auto
        qed
      qed
    qed
  qed
qed

lemma Emplace_cases:
  assumes h: "holds v xs" and p: "pos \<le> length xs" and e: "Emplace T pos a v s = (r, v', s')"
  shows "(r = Returned pos \<and> holds v' (take pos xs @ arg_value a # drop pos xs) \<and>
          Capacity v \<le> Capacity v')
       \<or> ((\<exists>ex. r = Thrown ex) \<and> Capacity v' = Capacity v \<and> size_m v' = size_m v \<and>
           (\<not> nothrow_alloc T \<or> \<not> nothrow_ctor T a \<or> \<not> nothrow_copy_ctor T \<or>
            \<not> nothrow_move_ctor T \<or> \<not> nothrow_move_assign T))"
proof (cases "pos = length xs")
  case True
  with e Emplace_at_end[OF h True, of T a s] have eb: "EmplaceBack T a v s = (r, v', s')" by simp
  from EmplaceBack_cases[OF h eb] show ?thesis
  proof (elim disjE conjE exE, goal_cases)
    case 1
    then show ?case using True h by (auto simp: holds_def)
  next
    case (2 ex ys)
    then have "size_m v' = size_m v" using h by (simp add: holds_def)
    with 2 show ?case by blast
  next
    case (3 ex ys)
    then have "size_m v' = size_m v" using h by (simp add: holds_def)
    with 3 show ?case by blast
  next
    case (4 ex ys)
    then have "size_m v' = size_m v" using h by (simp add: holds_def)
    with 4 show ?case by blast
  next
    case (5 ex ys)
    then have "size_m v' = size_m v" using h by (simp add: holds_def)
    with 5 show ?case by blast
  qed
next
  case False
  with p have lt: "pos < length xs" by simp
  show ?thesis
  proof (cases "length xs = Capacity v")
    case True
    from Emplace_realloc_cases[OF h lt True e] True show ?thesis by auto
  next
    case False
    with h have "length xs < Capacity v" by (simp add: holds_def)
    from Emplace_inplace_cases[OF h lt this e] show ?thesis by auto
  qed
qed

lemma Emplace_Returned:
  assumes "holds v xs" "pos \<le> length xs" "Emplace T pos a v s = (Returned r, v', s')"
  shows "r = pos \<and> holds v' (take pos xs @ arg_value a # drop pos xs) \<and> Capacity v \<le> Capacity v'"
  using Emplace_cases[OF assms] by simp



lemma inserted_nth:
  assumes "pos \<le> length xs"
  shows "(take pos xs @ x # drop pos xs) ! pos = x"
    and "i < pos \<Longrightarrow> (take pos xs @ x # drop pos xs) ! i = xs ! i"
    and "pos \<le> i \<Longrightarrow> i < length xs \<Longrightarrow> (take pos xs @ x # drop pos xs) ! (i + 1) = xs ! i"
  using assms by (auto simp: nth_append min_def)

text \<open>
  Claim C4. For a container with elements \<open>xs\<close> and a position \<open>pos\<close> in \<open>[begin, end]\<close>:
  when \<^verbatim>\<open>Emplace(pos, args...)\<close> returns, it returns \<open>pos\<close>, the new element is at index
  \<open>pos\<close>, the size has grown by one, the elements before \<open>pos\<close> are where they were and the
  elements from \<open>pos\<close> on are one index further, in the same order. Both \<^verbatim>\<open>Insert\<close>
  overloads are \<^verbatim>\<open>Emplace\<close>. \<^verbatim>\<open>Emplace\<close> returns whenever no operation of \<^verbatim>\<open>T\<close> and no
  allocation throws.
\<close>

theorem emplace_places_element:
  assumes h: "holds v xs" and p: "pos \<le> length xs"
  shows
    "(\<forall>r v' s'. Emplace T pos a v s = (Returned r, v', s') \<longrightarrow>
        r = pos \<and> holds v' (take pos xs @ arg_value a # drop pos xs) \<and> Size v' = Size v + 1 \<and>
        at_index v' pos = Returned (arg_value a) \<and>
        (\<forall>i < pos. at_index v' i = at_index v i) \<and>
        (\<forall>i. pos \<le> i \<and> i < Size v \<longrightarrow> at_index v' (i + 1) = at_index v i)) \<and>
     Insert_copy T pos x v s = Emplace T pos (ByCopy x) v s \<and>
     Insert_move T pos x v s = Emplace T pos (ByMove x) v s \<and>
     (nothrow_alloc T \<and> nothrow_ctor T a \<and> nothrow_copy_ctor T \<and> nothrow_move_ctor T \<and>
      nothrow_move_assign T \<longrightarrow> (\<exists>v' s'. Emplace T pos a v s = (Returned pos, v', s')))"
proof (intro conjI)
  show "\<forall>r v' s'. Emplace T pos a v s = (Returned r, v', s') \<longrightarrow>
        r = pos \<and> holds v' (take pos xs @ arg_value a # drop pos xs) \<and> Size v' = Size v + 1 \<and>
        at_index v' pos = Returned (arg_value a) \<and>
        (\<forall>i < pos. at_index v' i = at_index v i) \<and>
        (\<forall>i. pos \<le> i \<and> i < Size v \<longrightarrow> at_index v' (i + 1) = at_index v i)"
  proof (intro allI impI)
    fix r v' s' assume e: "Emplace T pos a v s = (Returned r, v', s')"
    let ?ys = "take pos xs @ arg_value a # drop pos xs"
    from Emplace_Returned[OF h p e] have r: "r = pos" and hv: "holds v' ?ys" by auto
    have ly: "length ?ys = length xs + 1" using p by simp
    have sv: "Size v = length xs" using h by (simp add: Size_def holds_def)
    have sv': "Size v' = Size v + 1" using hv sv ly by (simp add: Size_def holds_def)
    have a1: "at_index v' pos = Returned (arg_value a)"
      using at_index_holds[OF hv, of pos] inserted_nth(1)[OF p] p ly by simp
    have a2: "\<forall>i < pos. at_index v' i = at_index v i"
    proof (intro allI impI)
      fix i assume i: "i < pos"
      with p ly have "i < length ?ys" "i < length xs" by auto
      with at_index_holds[OF hv, of i] at_index_holds[OF h, of i] inserted_nth(2)[OF p i]
      show "at_index v' i = at_index v i" by simp
    qed
    have a3: "\<forall>i. pos \<le> i \<and> i < Size v \<longrightarrow> at_index v' (i + 1) = at_index v i"
    proof (intro allI impI)
      fix i assume i: "pos \<le> i \<and> i < Size v"
      with sv ly have "i + 1 < length ?ys" "i < length xs" by auto
      with at_index_holds[OF hv, of "i + 1"] at_index_holds[OF h, of i] inserted_nth(3)[OF p, of i] i
      show "at_index v' (i + 1) = at_index v i" by simp
    qed
    from r hv sv' a1 a2 a3
    show "r = pos \<and> holds v' (take pos xs @ arg_value a # drop pos xs) \<and> Size v' = Size v + 1 \<and>
        at_index v' pos = Returned (arg_value a) \<and>
        (\<forall>i < pos. at_index v' i = at_index v i) \<and>
        (\<forall>i. pos \<le> i \<and> i < Size v \<longrightarrow> at_index v' (i + 1) = at_index v i)"
      by blast
  qed
next
  show "Insert_copy T pos x v s = Emplace T pos (ByCopy x) v s" by (simp add: Insert_copy_def)
next
  show "Insert_move T pos x v s = Emplace T pos (ByMove x) v s" by (simp add: Insert_move_def)
next
  show "nothrow_alloc T \<and> nothrow_ctor T a \<and> nothrow_copy_ctor T \<and> nothrow_move_ctor T \<and>
      nothrow_move_assign T \<longrightarrow> (\<exists>v' s'. Emplace T pos a v s = (Returned pos, v', s'))"
  proof
    assume n: "nothrow_alloc T \<and> nothrow_ctor T a \<and> nothrow_copy_ctor T \<and> nothrow_move_ctor T \<and>
      nothrow_move_assign T"
    obtain r v' s' where e: "Emplace T pos a v s = (r, v', s')" by (metis prod_cases3)
    from Emplace_cases[OF h p e] n have "r = Returned pos" by auto
    with e show "\<exists>v' s'. Emplace T pos a v s = (Returned pos, v', s')" by auto
  qed
qed

theorem emplace_places_element_witness:
  "holds (vec [1, 2, 4 :: int] 0) [1, 2, 4] \<and> (2::nat) \<le> length [1, 2, 4 :: int] \<and>
   Insert_copy int_type 2 3 (vec [1, 2, 4] 0) (start ())
     = (Returned 2, vec [1, 2, 3, 4] 2, \<lparr>world = (), freed = [[Raw, Raw, Raw]]\<rparr>) \<and>
   holds (vec [1, 2, 3, 4 :: int] 2) [1, 2, 3, 4] \<and> Size (vec [1, 2, 3, 4 :: int] 2) = 4 \<and>
   at_index (vec [1, 2, 3, 4 :: int] 2) 2 = Returned 3 \<and>
   holds (vec [1, 2, 4 :: int] 1) [1, 2, 4] \<and>
   Insert_move int_type 0 3 (vec [1, 2, 4] 1) (start ()) = (Returned 0, vec [3, 1, 2, 4] 0, start ()) \<and>
   holds (vec [3, 1, 2, 4 :: int] 0) [3, 1, 2, 4] \<and>
   nothrow_alloc int_type \<and> nothrow_ctor int_type (ByCopy 3) \<and> nothrow_copy_ctor int_type \<and>
   nothrow_move_ctor int_type \<and> nothrow_move_assign int_type \<and>
   (\<exists>v' s'. Emplace int_type 2 (ByCopy 3) (vec [1, 2, 4] 0) (start ()) = (Returned 2, v', s'))"
proof -
  have h: "holds (vec [1, 2, 4 :: int] 0) [1, 2, 4]"
    by (simp add: holds_def vec_def Capacity_def buf_def)
  have p: "(2::nat) \<le> length [1, 2, 4 :: int]" by simp
  have h1: "holds (vec [1, 2, 4 :: int] 1) [1, 2, 4]"
    by (simp add: holds_def vec_def Capacity_def buf_def)
  have p1: "(0::nat) \<le> length [1, 2, 4 :: int]" by simp
  have run: "Insert_copy int_type 2 3 (vec [1, 2, 4] 0) (start ())
     = (Returned 2, vec [1, 2, 3, 4] 2, \<lparr>world = (), freed = [[Raw, Raw, Raw]]\<rparr>)"
    by code_simp
  have run1: "Insert_move int_type 0 3 (vec [1, 2, 4] 1) (start ()) = (Returned 0, vec [3, 1, 2, 4] 0, start ())"
    by code_simp
  have n: "nothrow_alloc int_type \<and> nothrow_ctor int_type (ByCopy 3) \<and> nothrow_copy_ctor int_type \<and>
   nothrow_move_ctor int_type \<and> nothrow_move_assign int_type"
    by (simp add: nothrow_alloc_def nothrow_ctor_def nothrow_copy_ctor_def nothrow_move_ctor_def
          nothrow_move_assign_def int_type_def)
  have sv: "Size (vec [1, 2, 4 :: int] 0) = 3" by (simp add: Size_def vec_def)
  note t = emplace_places_element[OF h p, of int_type "ByCopy 3" "start ()" 3]
  from t run have e: "Emplace int_type 2 (ByCopy 3) (vec [1, 2, 4] 0) (start ())
     = (Returned 2, vec [1, 2, 3, 4] 2, \<lparr>world = (), freed = [[Raw, Raw, Raw]]\<rparr>)"
    by simp
  from t e sv have a: "holds (vec [1, 2, 3, 4 :: int] 2) [1, 2, 3, 4] \<and> Size (vec [1, 2, 3, 4 :: int] 2) = 4 \<and>
      at_index (vec [1, 2, 3, 4 :: int] 2) 2 = Returned 3"
    by simp
  note t1 = emplace_places_element[OF h1 p1, of int_type "ByMove 3" "start ()" 3]
  from t1 run1 have e1: "Emplace int_type 0 (ByMove 3) (vec [1, 2, 4] 1) (start ())
     = (Returned 0, vec [3, 1, 2, 4] 0, start ())"
    by simp
  from t1 e1 have b: "holds (vec [3, 1, 2, 4 :: int] 0) [3, 1, 2, 4]" by simp
  from t n have c: "\<exists>v' s'. Emplace int_type 2 (ByCopy 3) (vec [1, 2, 4] 0) (start ()) = (Returned 2, v', s')"
    by blast
  from h p run a h1 run1 b n c show ?thesis by (intro conjI) simp_all
qed






section \<open>Copy assignment\<close>

lemma Vector_copy_Returned:
  assumes "holds v xs" "Vector_copy T v s = (Returned c, s')"
  shows "holds c xs \<and> Capacity c = length xs \<and> freed s' = freed s"
  using Vector_copy_cases[OF assms] by simp

lemma Vector_copy_Thrown:
  assumes "holds v xs" "Vector_copy T v s = (Thrown ex, s')"
  shows "\<not> nothrow_alloc T \<or> \<not> nothrow_copy_ctor T"
  using Vector_copy_cases[OF assms] by simp

lemma Vector_copy_not_Violated:
  assumes "holds v xs" shows "Vector_copy T v s \<noteq> (Violated, s')"
  using Vector_copy_cases[OF assms, of T s Violated s'] by auto

lemma holds_Swap:
  assumes "holds v xs" "holds w ys" "Swap v w = (v1, w1)"
  shows "holds v1 ys \<and> holds w1 xs \<and> Capacity v1 = Capacity w \<and> Capacity w1 = Capacity v"
  using assms by (auto simp: Swap_def RawMemory_Swap_def holds_def Capacity_def buf_def)

lemma Vector_dtor_freed_some: "\<exists>bs. freed (Vector_dtor v s) = freed s @ bs"
  by (simp add: Vector_dtor_def RawMemory_dtor_def Deallocate_def)

lemma copy_assign_self: "copy_assign T True v rhs s = (Returned (), v, s)"
  by (simp add: copy_assign_def)

lemma copy_assign_realloc_cases:
  assumes h: "holds v xs" and hr: "holds rhs ys" and g: "Capacity v < length ys"
    and e: "copy_assign T False v rhs s = (r, v', s')"
  shows "(r = Returned () \<and> holds v' ys \<and> Capacity v' = length ys)
       \<or> ((\<exists>ex. r = Thrown ex) \<and> v' = v \<and> (\<not> nothrow_alloc T \<or> \<not> nothrow_copy_ctor T))"
proof -
  have sr: "size_m rhs = length ys" using hr by (simp add: holds_def)
  obtain r0 s1 where vc: "Vector_copy T rhs s = (r0, s1)" by (metis surj_pair)
  show ?thesis
  proof (cases r0)
    case Violated
    with vc Vector_copy_not_Violated[OF hr, of T s s1] show ?thesis by simp
  next
    case (Thrown ex)
    with vc e g sr Vector_copy_Thrown[OF hr, of T s ex s1] show ?thesis
      by (auto simp: copy_assign_def)
  next
    case (Returned copy)
    with vc have vc': "Vector_copy T rhs s = (Returned copy, s1)" by simp
    from Vector_copy_Returned[OF hr vc'] have hc: "holds copy ys" and cc: "Capacity copy = length ys"
      by auto
    obtain v1 copy1 where sw: "Swap v copy = (v1, copy1)" by (metis surj_pair)
    from holds_Swap[OF h hc sw] cc have "holds v1 ys \<and> Capacity v1 = length ys" by simp
    moreover from e vc' sw g sr have "r = Returned () \<and> v' = v1" by (simp add: copy_assign_def)
    ultimately show ?thesis by simp
  qed
qed

lemma copy_assign_inplace_unfold:
  assumes "size_m rhs \<le> Capacity v"
  shows "copy_assign T False v rhs s =
     (case copy_n T (buf rhs) 0 (min (size_m rhs) (size_m v)) (buf v) 0 s of
        (Returned e, b1, s1) \<Rightarrow>
          (if size_m rhs < size_m v then
             (Returned (), (with_buffer v (destroy_n b1 e (size_m v - size_m rhs)))\<lparr>size_m := size_m rhs\<rparr>, s1)
           else
             (case uninitialized_copy_n T (buf rhs) (size_m v) (size_m rhs - size_m v) b1 e s1 of
                (Returned u, b2, s2) \<Rightarrow> (Returned (), (with_buffer v b2)\<lparr>size_m := size_m rhs\<rparr>, s2)
              | (r, b2, s2) \<Rightarrow> (failure r, with_buffer v b2, s2)))
      | (r, b1, s1) \<Rightarrow> (failure r, with_buffer v b1, s1))"
proof -
  have m: "(if size_m rhs < size_m v then size_m rhs else size_m v) = min (size_m rhs) (size_m v)"
    by (simp add: min_def)
  show ?thesis
    using assms unfolding copy_assign_def Let_def m
    by (simp cong: prod.case_cong outcome.case_cong if_cong)
qed

lemma copy_assign_inplace_cases:
  assumes h: "holds v xs" and hr: "holds rhs ys" and g: "length ys \<le> Capacity v"
    and e: "copy_assign T False v rhs s = (r, v', s')"
  shows "freed s' = freed s \<and> Capacity v' = Capacity v \<and>
       ((r = Returned () \<and> holds v' ys)
        \<or> (r = Thrown element_exception \<and> (\<exists>zs. length zs = length xs \<and> holds v' zs) \<and>
            (\<not> nothrow_copy_assign T \<or> \<not> nothrow_copy_ctor T)))"
proof -
  let ?k = "min (length ys) (length xs)"
  let ?Rv = "replicate (Capacity v - length xs) (Raw :: 'a slot)"
  let ?Rr = "replicate (Capacity rhs - length ys) (Raw :: 'a slot)"
  have sz: "size_m v = length xs" and le: "length xs \<le> Capacity v"
    and bv: "buf v = map Obj xs @ ?Rv"
    using h by (auto simp: holds_def)
  have sr: "size_m rhs = length ys" and br: "buf rhs = map Obj ys @ ?Rr"
    using hr by (auto simp: holds_def)
  note uf = copy_assign_inplace_unfold[of rhs v T s, unfolded sr sz, OF g]
  have cap_wb: "Capacity (with_buffer v b) = Capacity v" "Capacity ((with_buffer v b)\<lparr>size_m := n\<rparr>) = Capacity v" for b n
    by (simp_all add: Capacity_def with_buffer_def)
  have brs: "buf rhs = [] @ map Obj (take ?k ys) @ (map Obj (drop ?k ys) @ ?Rr)"
    using br by (simp flip: map_append)
  have bvs: "buf v = [] @ map Obj (take ?k xs) @ (map Obj (drop ?k xs) @ ?Rv)"
    using bv by (simp flip: map_append)
  have lk: "length (take ?k xs) = length (take ?k ys)" "length (take ?k ys) = ?k" by simp_all
  obtain r0 b1 s1 where cn0:
    "copy_n T ([] @ map Obj (take ?k ys) @ (map Obj (drop ?k ys) @ ?Rr)) (length ([] :: 'a slot list))
        (length (take ?k ys)) ([] @ map Obj (take ?k xs) @ (map Obj (drop ?k xs) @ ?Rv))
        (length ([] :: 'a slot list)) s = (r0, b1, s1)"
    by (metis prod_cases3)
  have cn: "copy_n T (buf rhs) 0 ?k (buf v) 0 s = (r0, b1, s1)"
    using cn0 unfolding brs[symmetric] bvs[symmetric] lk by simp
  from copy_n_mid[OF lk(1) cn0] show ?thesis
  proof (elim conjE disjE exE, goal_cases)
    case (2 zs)
    from uf cn 2 e have rv: "r = Thrown element_exception" "v' = with_buffer v b1" "s' = s1" by simp_all
    have b1: "b1 = map Obj (zs @ drop ?k xs) @ ?Rv" using 2 by simp
    have lz: "length (zs @ drop ?k xs) = length xs" using 2 by simp
    have "holds v' (zs @ drop ?k xs)"
      using rv b1 lz holds_with_buffer[OF h lz] by simp
    with lz have "\<exists>zs. length zs = length xs \<and> holds v' zs" by blast
    with rv 2 cap_wb show ?case by simp
  next
    case 1
    have r0: "r0 = Returned ?k" and b1: "b1 = map Obj (take ?k ys) @ map Obj (drop ?k xs) @ ?Rv"
      and f1: "freed s1 = freed s"
      using 1 by simp_all
    show ?case
    proof (cases "length ys < length xs")
      case True
      then have k: "?k = length ys" by simp
      from uf cn r0 True e k
      have rv: "r = Returned ()" "v' = (with_buffer v (destroy_n b1 (length ys) (length xs - length ys)))\<lparr>size_m := length ys\<rparr>"
        "s' = s1" by simp_all
      have "destroy_n (map Obj ys @ map Obj (drop (length ys) xs) @ ?Rv) (length (map Obj ys))
              (length (map Obj (drop (length ys) xs)))
              = map Obj ys @ replicate (length (map Obj (drop (length ys) xs))) Raw @ ?Rv"
        by (rule destroy_n_mid)
      then have "destroy_n b1 (length ys) (length xs - length ys)
                   = map Obj ys @ replicate (length xs - length ys) Raw @ ?Rv"
        using b1 k by simp
      also have "replicate (length xs - length ys) Raw @ ?Rv = replicate (Capacity v - length ys) Raw"
        using True le by (simp flip: replicate_add)
      finally have "holds v' ys" using rv g
        by (simp add: holds_def with_buffer_def buf_def Capacity_def)
      with rv f1 cap_wb show ?thesis by simp
    next
      case False
      then have k: "?k = length xs" by simp
      let ?B = "replicate (Capacity v - length ys) (Raw :: 'a slot)"
      have b1': "b1 = map Obj (take (length xs) ys) @ replicate (length (drop (length xs) ys)) Raw @ ?B"
        using b1 k False g by (simp flip: replicate_add)
      have br': "buf rhs = map Obj (take (length xs) ys) @ map Obj (drop (length xs) ys) @ ?Rr"
        using br by (simp flip: map_append)
      have lt: "length (map Obj (take (length xs) ys)) = length xs" using False by simp
      obtain r2 b2 s2 where uc0:
        "uninitialized_copy_n T (map Obj (take (length xs) ys) @ map Obj (drop (length xs) ys) @ ?Rr)
            (length (map Obj (take (length xs) ys))) (length (drop (length xs) ys))
            (map Obj (take (length xs) ys) @ replicate (length (drop (length xs) ys)) Raw @ ?B)
            (length (map Obj (take (length xs) ys))) s1 = (r2, b2, s2)"
        by (metis prod_cases3)
      have uc: "uninitialized_copy_n T (buf rhs) (length xs) (length ys - length xs) b1 ?k s1 = (r2, b2, s2)"
        using uc0 unfolding br'[symmetric] b1'[symmetric] lt k by simp
      from uninitialized_copy_n_mid[OF uc0] show ?thesis
      proof (elim conjE disjE, goal_cases)
        case 1
        from uf cn r0 False e uc 1
        have rv: "r = Returned ()" "v' = (with_buffer v b2)\<lparr>size_m := length ys\<rparr>" "s' = s2" by simp_all
        have "b2 = map Obj ys @ ?B" using 1 by (simp flip: map_append)
        then have "holds v' ys" using rv g
          by (simp add: holds_def with_buffer_def buf_def Capacity_def)
        with rv f1 1 cap_wb show ?case by simp
      next
        case 2
        from uf cn r0 False e uc 2
        have rv: "r = Thrown element_exception" "v' = with_buffer v b2" "s' = s2" by simp_all
        have "b2 = b1" using 2 b1' by simp
        then have b2: "b2 = map Obj (take (length xs) ys) @ ?Rv" using b1 k by simp
        have lz: "length (take (length xs) ys) = length xs" using False by simp
        have "holds v' (take (length xs) ys)"
          using rv b2 holds_with_buffer[OF h lz] by simp
        with lz have "\<exists>zs. length zs = length xs \<and> holds v' zs" by blast
        with rv 2 f1 cap_wb show ?case by simp
      qed
    qed
  qed
qed


text \<open>
  Claim C6. Copy assignment from a different container \<open>rhs\<close> with elements \<open>ys\<close>: when it
  returns, the target has the size and the elements of \<open>rhs\<close>. When the source's size
  exceeds the target's capacity, the result is the copy-constructed copy swapped in (its
  capacity is the source's size), and when anything throws the target is the one before the
  call. Otherwise the storage is reused: the capacity is unchanged and nothing is freed,
  whatever the outcome; the result is \<^verbatim>\<open>copy_n\<close> over the common prefix, followed by
  \<^verbatim>\<open>destroy_n\<close> of the excess when the source is shorter, or by
  \<^verbatim>\<open>uninitialized_copy_n\<close> of the source's tail otherwise. Self-assignment changes nothing.
  The assignment returns whenever no allocation, copy constructor or copy assignment throws.
\<close>

theorem copy_assign_contract:
  assumes h: "holds v xs" and hr: "holds rhs ys"
  shows
    "(\<forall>v' s'. copy_assign T False v rhs s = (Returned (), v', s') \<longrightarrow>
        holds v' ys \<and> Size v' = Size rhs \<and> (\<forall>i < Size rhs. at_index v' i = at_index rhs i)) \<and>
     (Capacity v < Size rhs \<longrightarrow>
        (\<forall>c s1. Vector_copy T rhs s = (Returned c, s1) \<longrightarrow>
           copy_assign T False v rhs s = (Returned (), fst (Swap v c), Vector_dtor (snd (Swap v c)) s1)) \<and>
        (\<forall>v' s'. copy_assign T False v rhs s = (Returned (), v', s') \<longrightarrow> Capacity v' = Size rhs) \<and>
        (\<forall>ex v' s'. copy_assign T False v rhs s = (Thrown ex, v', s') \<longrightarrow> v' = v)) \<and>
     (Size rhs \<le> Capacity v \<longrightarrow>
        (\<forall>r v' s'. copy_assign T False v rhs s = (r, v', s') \<longrightarrow>
           Capacity v' = Capacity v \<and> freed s' = freed s) \<and>
        (\<forall>e b1 s1. copy_n T (buf rhs) 0 (min (Size rhs) (Size v)) (buf v) 0 s = (Returned e, b1, s1) \<longrightarrow>
           (Size rhs < Size v \<longrightarrow>
              copy_assign T False v rhs s
                = (Returned (), (with_buffer v (destroy_n b1 e (Size v - Size rhs)))\<lparr>size_m := Size rhs\<rparr>, s1)) \<and>
           (\<not> Size rhs < Size v \<longrightarrow>
              (\<forall>b2 s2. uninitialized_copy_n T (buf rhs) (Size v) (Size rhs - Size v) b1 e s1
                          = (Returned (), b2, s2) \<longrightarrow>
                 copy_assign T False v rhs s
                   = (Returned (), (with_buffer v b2)\<lparr>size_m := Size rhs\<rparr>, s2))))) \<and>
     copy_assign T True v rhs s = (Returned (), v, s) \<and>
     (nothrow_alloc T \<and> nothrow_copy_ctor T \<and> nothrow_copy_assign T \<longrightarrow>
        (\<exists>v' s'. copy_assign T False v rhs s = (Returned (), v', s')))"
proof -
  have sr: "Size rhs = length ys" "size_m rhs = length ys" using hr by (simp_all add: Size_def holds_def)
  have sv: "Size v = length xs" "size_m v = length xs" using h by (simp_all add: Size_def holds_def)
  have cases: "(r = Returned () \<and> holds v' ys \<and> (Capacity v < length ys \<longrightarrow> Capacity v' = length ys))
       \<or> ((\<exists>ex. r = Thrown ex) \<and> (Capacity v < length ys \<longrightarrow> v' = v) \<and>
           (\<not> nothrow_alloc T \<or> \<not> nothrow_copy_ctor T \<or> \<not> nothrow_copy_assign T))"
    if e: "copy_assign T False v rhs s = (r, v', s')" for r v' s'
  proof (cases "Capacity v < length ys")
    case True
    from copy_assign_realloc_cases[OF h hr True e] True show ?thesis by auto
  next
    case False
    then have "length ys \<le> Capacity v" by simp
    from copy_assign_inplace_cases[OF h hr this e] False show ?thesis by auto
  qed
  have p1: "\<forall>v' s'. copy_assign T False v rhs s = (Returned (), v', s') \<longrightarrow>
        holds v' ys \<and> Size v' = Size rhs \<and> (\<forall>i < Size rhs. at_index v' i = at_index rhs i)"
  proof (intro allI impI)
    fix v' s' assume e: "copy_assign T False v rhs s = (Returned (), v', s')"
    from cases[OF e] have hv: "holds v' ys" by simp
    then have "Size v' = Size rhs" using sr by (simp add: Size_def holds_def)
    moreover have "\<forall>i < Size rhs. at_index v' i = at_index rhs i"
      using at_index_holds[OF hv] at_index_holds[OF hr] sr by simp
    ultimately show "holds v' ys \<and> Size v' = Size rhs \<and> (\<forall>i < Size rhs. at_index v' i = at_index rhs i)"
      using hv by simp
  qed
  have p2: "Capacity v < Size rhs \<longrightarrow>
        (\<forall>c s1. Vector_copy T rhs s = (Returned c, s1) \<longrightarrow>
           copy_assign T False v rhs s = (Returned (), fst (Swap v c), Vector_dtor (snd (Swap v c)) s1)) \<and>
        (\<forall>v' s'. copy_assign T False v rhs s = (Returned (), v', s') \<longrightarrow> Capacity v' = Size rhs) \<and>
        (\<forall>ex v' s'. copy_assign T False v rhs s = (Thrown ex, v', s') \<longrightarrow> v' = v)"
  proof (intro impI conjI allI)
    fix c s1 assume "Capacity v < Size rhs" "Vector_copy T rhs s = (Returned c, s1)"
    then show "copy_assign T False v rhs s = (Returned (), fst (Swap v c), Vector_dtor (snd (Swap v c)) s1)"
      using sr by (simp add: copy_assign_def split: prod.splits)
  next
    fix v' s' assume "Capacity v < Size rhs" "copy_assign T False v rhs s = (Returned (), v', s')"
    with cases[of "Returned ()" v' s'] sr show "Capacity v' = Size rhs" by simp
  next
    fix ex v' s' assume "Capacity v < Size rhs" "copy_assign T False v rhs s = (Thrown ex, v', s')"
    with cases[of "Thrown ex" v' s'] sr show "v' = v" by simp
  qed
  have p3: "Size rhs \<le> Capacity v \<longrightarrow>
        (\<forall>r v' s'. copy_assign T False v rhs s = (r, v', s') \<longrightarrow>
           Capacity v' = Capacity v \<and> freed s' = freed s) \<and>
        (\<forall>e b1 s1. copy_n T (buf rhs) 0 (min (Size rhs) (Size v)) (buf v) 0 s = (Returned e, b1, s1) \<longrightarrow>
           (Size rhs < Size v \<longrightarrow>
              copy_assign T False v rhs s
                = (Returned (), (with_buffer v (destroy_n b1 e (Size v - Size rhs)))\<lparr>size_m := Size rhs\<rparr>, s1)) \<and>
           (\<not> Size rhs < Size v \<longrightarrow>
              (\<forall>b2 s2. uninitialized_copy_n T (buf rhs) (Size v) (Size rhs - Size v) b1 e s1
                          = (Returned (), b2, s2) \<longrightarrow>
                 copy_assign T False v rhs s
                   = (Returned (), (with_buffer v b2)\<lparr>size_m := Size rhs\<rparr>, s2))))"
  proof (intro impI conjI allI)
    fix r v' s' assume g: "Size rhs \<le> Capacity v" and e: "copy_assign T False v rhs s = (r, v', s')"
    from g sr have "length ys \<le> Capacity v" by simp
    from copy_assign_inplace_cases[OF h hr this e]
    show "Capacity v' = Capacity v" "freed s' = freed s" by simp_all
  next
    fix e b1 s1
    assume g: "Size rhs \<le> Capacity v"
      and cn: "copy_n T (buf rhs) 0 (min (Size rhs) (Size v)) (buf v) 0 s = (Returned e, b1, s1)"
      and lt: "Size rhs < Size v"
    from g have "size_m rhs \<le> Capacity v" by (simp add: Size_def)
    from copy_assign_inplace_unfold[OF this, of T s] cn lt
    show "copy_assign T False v rhs s
                = (Returned (), (with_buffer v (destroy_n b1 e (Size v - Size rhs)))\<lparr>size_m := Size rhs\<rparr>, s1)"
      by (simp add: Size_def)
  next
    fix e b1 s1 b2 s2
    assume g: "Size rhs \<le> Capacity v"
      and cn: "copy_n T (buf rhs) 0 (min (Size rhs) (Size v)) (buf v) 0 s = (Returned e, b1, s1)"
      and lt: "\<not> Size rhs < Size v"
      and uc: "uninitialized_copy_n T (buf rhs) (Size v) (Size rhs - Size v) b1 e s1 = (Returned (), b2, s2)"
    from g have "size_m rhs \<le> Capacity v" by (simp add: Size_def)
    from copy_assign_inplace_unfold[OF this, of T s] cn lt uc
    show "copy_assign T False v rhs s = (Returned (), (with_buffer v b2)\<lparr>size_m := Size rhs\<rparr>, s2)"
      by (simp add: Size_def)
  qed
  have p4: "copy_assign T True v rhs s = (Returned (), v, s)" by (rule copy_assign_self)
  have p5: "nothrow_alloc T \<and> nothrow_copy_ctor T \<and> nothrow_copy_assign T \<longrightarrow>
        (\<exists>v' s'. copy_assign T False v rhs s = (Returned (), v', s'))"
  proof
    assume n: "nothrow_alloc T \<and> nothrow_copy_ctor T \<and> nothrow_copy_assign T"
    obtain r v' s' where e: "copy_assign T False v rhs s = (r, v', s')" by (metis prod_cases3)
    from cases[OF e] n have "r = Returned ()" by auto
    with e show "\<exists>v' s'. copy_assign T False v rhs s = (Returned (), v', s')" by auto
  qed
  from p1 p2 p3 p4 p5 show ?thesis by (intro conjI)
qed

theorem copy_assign_contract_witness:
  "holds (vec [1, 2, 3 :: int] 2) [1, 2, 3] \<and> holds (vec [7, 8 :: int] 0) [7, 8] \<and>
   holds (vec [7, 8, 9, 10 :: int] 0) [7, 8, 9, 10] \<and> holds (vec [1, 2, 3 :: int] 0) [1, 2, 3] \<and>
   copy_assign int_type False (vec [1, 2, 3] 2) (vec [7, 8] 0) (start ())
     = (Returned (), vec [7, 8] 3, start ()) \<and>
   copy_assign int_type False (vec [1, 2, 3] 2) (vec [7, 8, 9, 10] 0) (start ())
     = (Returned (), vec [7, 8, 9, 10] 1, start ()) \<and>
   copy_assign int_type False (vec [1, 2, 3] 0) (vec [7, 8, 9, 10] 0) (start ())
     = (Returned (), vec [7, 8, 9, 10] 0, \<lparr>world = (), freed = [[Raw, Raw, Raw]]\<rparr>) \<and>
   holds (vec [7, 8 :: int] 3) [7, 8] \<and> Capacity (vec [7, 8 :: int] 3) = Capacity (vec [1, 2, 3 :: int] 2) \<and>
   holds (vec [7, 8, 9, 10 :: int] 1) [7, 8, 9, 10] \<and>
   Capacity (vec [7, 8, 9, 10 :: int] 0) = Size (vec [7, 8, 9, 10 :: int] 0) \<and>
   fst (copy_assign copy_type False (vec [1, 2, 3] 0) (vec [7, 8, 9, 10] 0) (start 2)) = Thrown element_exception \<and>
   fst (snd (copy_assign copy_type False (vec [1, 2, 3] 0) (vec [7, 8, 9, 10] 0) (start 2))) = vec [1, 2, 3] 0 \<and>
   (\<exists>v' s'. copy_assign int_type False (vec [1, 2, 3] 2) (vec [7, 8] 0) (start ()) = (Returned (), v', s'))"
proof -
  have h: "holds (vec [1, 2, 3 :: int] 2) [1, 2, 3]" "holds (vec [7, 8 :: int] 0) [7, 8]"
    "holds (vec [7, 8, 9, 10 :: int] 0) [7, 8, 9, 10]" "holds (vec [1, 2, 3 :: int] 0) [1, 2, 3]"
    by (simp_all add: holds_def vec_def Capacity_def buf_def numeral_eq_Suc)
  have n: "nothrow_alloc int_type \<and> nothrow_copy_ctor int_type \<and> nothrow_copy_assign int_type"
    by (simp add: nothrow_alloc_def nothrow_copy_ctor_def nothrow_copy_assign_def int_type_def)
  have run1: "copy_assign int_type False (vec [1, 2, 3] 2) (vec [7, 8] 0) (start ())
     = (Returned (), vec [7, 8] 3, start ())"
    by code_simp
  have run2: "copy_assign int_type False (vec [1, 2, 3] 2) (vec [7, 8, 9, 10] 0) (start ())
     = (Returned (), vec [7, 8, 9, 10] 1, start ())"
    by code_simp
  have run3: "copy_assign int_type False (vec [1, 2, 3] 0) (vec [7, 8, 9, 10] 0) (start ())
     = (Returned (), vec [7, 8, 9, 10] 0, \<lparr>world = (), freed = [[Raw, Raw, Raw]]\<rparr>)"
    by code_simp
  have f: "fst (copy_assign copy_type False (vec [1, 2, 3] 0) (vec [7, 8, 9, 10] 0) (start 2)) = Thrown element_exception"
    by code_simp
  then have run4: "copy_assign copy_type False (vec [1, 2, 3] 0) (vec [7, 8, 9, 10] 0) (start 2)
     = (Thrown element_exception,
        fst (snd (copy_assign copy_type False (vec [1, 2, 3] 0) (vec [7, 8, 9, 10] 0) (start 2))),
        snd (snd (copy_assign copy_type False (vec [1, 2, 3] 0) (vec [7, 8, 9, 10] 0) (start 2))))"
    by (metis prod.collapse)
  have le1: "Size (vec [7, 8 :: int] 0) \<le> Capacity (vec [1, 2, 3 :: int] 2)"
    and le2: "Size (vec [7, 8, 9, 10 :: int] 0) \<le> Capacity (vec [1, 2, 3 :: int] 2)"
    and gt3: "Capacity (vec [1, 2, 3 :: int] 0) < Size (vec [7, 8, 9, 10 :: int] 0)"
    by (simp_all add: Size_def Capacity_def vec_def)
  note t1 = copy_assign_contract[OF h(1) h(2), of int_type "start ()"]
  note t2 = copy_assign_contract[OF h(1) h(3), of int_type "start ()"]
  note t3 = copy_assign_contract[OF h(4) h(3), of int_type "start ()"]
  note t4 = copy_assign_contract[OF h(4) h(3), of copy_type "start 2"]
  from t1 run1 le1 have a: "holds (vec [7, 8 :: int] 3) [7, 8] \<and>
      Capacity (vec [7, 8 :: int] 3) = Capacity (vec [1, 2, 3 :: int] 2)"
    by blast
  from t2 run2 have b: "holds (vec [7, 8, 9, 10 :: int] 1) [7, 8, 9, 10]" by blast
  from t3 run3 gt3 have c: "Capacity (vec [7, 8, 9, 10 :: int] 0) = Size (vec [7, 8, 9, 10 :: int] 0)"
    by blast
  from t4 run4 gt3
  have d: "fst (snd (copy_assign copy_type False (vec [1, 2, 3] 0) (vec [7, 8, 9, 10] 0) (start 2))) = vec [1, 2, 3] 0"
    by blast
  from t1 n have e: "\<exists>v' s'. copy_assign int_type False (vec [1, 2, 3] 2) (vec [7, 8] 0) (start ()) = (Returned (), v', s')"
    by blast
  from h run1 run2 run3 a b c f d e show ?thesis by (intro conjI) simp_all
qed


subsection \<open>The invariant, \<^verbatim>\<open>PopBack\<close> and \<^verbatim>\<open>Resize\<close>\<close>









subsection \<open>Every operation: invariant and capacity\<close>



















subsection \<open>The invariant and the capacity over the whole interface\<close>







end
